(* ===== verification/CG_Prelude.thy ===== *)
theory CG_Prelude
  imports Complex_Main "HOL-Library.Multiset" "HOL-Library.Signed_Division"
    "HOL-Library.Char_ord" "HOL-Library.List_Lexorder"
begin

text \<open>
  Shared material of the CronGuard development: the named collections of simplification rules,
  Go's fixed-width integers as \<open>int\<close> with the wrap-around written out, Go's error values and
  format strings, and the list lemmas the components use.
\<close>

named_theorems go_defs \<open>definitions of the Go run-time model\<close>
named_theorems cond_simps \<open>what reading a condition after a write gives\<close>
named_theorems frame_simps \<open>fields an operation leaves alone\<close>

section \<open>Fixed-width integers\<close>

text \<open>
  Go's \<open>int32\<close> and \<open>int64\<close> are two's complement and wrap silently. A value of such a type is an
  \<open>int\<close>; an operation that may leave the range is followed by the wrap.
\<close>

definition wrap :: "nat \<Rightarrow> int \<Rightarrow> int" where
  "wrap w x = (x + 2 ^ (w - 1)) mod 2 ^ w - 2 ^ (w - 1)"

abbreviation to_int32 :: "int \<Rightarrow> int" where
  "to_int32 \<equiv> wrap 32"

abbreviation to_int64 :: "int \<Rightarrow> int" where
  "to_int64 \<equiv> wrap 64"

lemma to_int32_id: "- (2 ^ 31) \<le> x \<Longrightarrow> x < 2 ^ 31 \<Longrightarrow> to_int32 x = x"
  by (simp add: wrap_def)

lemma to_int64_id: "- (2 ^ 63) \<le> x \<Longrightarrow> x < 2 ^ 63 \<Longrightarrow> to_int64 x = x"
  by (simp add: wrap_def)

lemma to_int32_range: "- (2 ^ 31) \<le> to_int32 x \<and> to_int32 x < 2 ^ 31"
proof -
  have "0 \<le> (x + 2 ^ 31) mod 2 ^ 32" and "(x + 2 ^ 31) mod 2 ^ 32 < 2 ^ 32"
    by simp_all
  then show ?thesis by (simp add: wrap_def)
qed

section \<open>Errors and messages\<close>

text \<open>
  An error is one of the sentinels of \<open>internal/schedule\<close>, an error of code outside the
  repository (its text), or an error wrapped by \<open>fmt.Errorf\<close> with \<open>%w\<close>: the format and the
  string arguments are kept next to the wrapped error. \<open>errors_Is\<close> follows the wrapping.
\<close>

datatype go_error =
    ErrEmpty
  | ErrRelativeSchedule
  | ErrMalformed
  | ErrExternal string
  | ErrWrap string "string list" go_error

fun errors_Is :: "go_error \<Rightarrow> go_error \<Rightarrow> bool" where
  "errors_Is (ErrWrap f args e) target = (ErrWrap f args e = target \<or> errors_Is e target)"
| "errors_Is e target = (e = target)"

text \<open>
  A message built by \<open>fmt.Sprintf\<close> is kept as the sequence of its parts: literal text, a
  \<open>%q\<close>-quoted string, a \<open>%d\<close> integer, an error printed with \<open>%v\<close>. Nothing in the program
  inspects the rendered text.
\<close>

datatype frag = Lit string | Quoted string | Dec int | ErrText go_error

type_synonym msg = "frag list"

section \<open>Lists\<close>

lemma sorted_wrt_take: "sorted_wrt P xs \<Longrightarrow> sorted_wrt P (take n xs)"
  by (metis append_take_drop_id sorted_wrt_append)

lemma sorted_wrt_filter_keep: "sorted_wrt P xs \<Longrightarrow> sorted_wrt P (filter Q xs)"
  by (induction xs) auto

text \<open>
  Two lists with the same elements that are both sorted by a strict order that is total on
  them are the same list: what makes the result of an unspecified sorting algorithm unique.
\<close>

lemma sorted_wrt_unique:
  assumes "sorted_wrt P xs" and "sorted_wrt P ys" and "set xs = set ys"
    and asym: "\<And>x y. P x y \<Longrightarrow> \<not> P y x"
  shows "xs = ys"
  using assms(1-3)
proof (induction xs arbitrary: ys)
  case Nil
  then show ?case by simp
next
  case (Cons x xs)
  from Cons.prems(3) obtain y ys' where ys: "ys = y # ys'"
    by (cases ys) auto
  have irr: "\<not> P a a" for a
    using asym by blast
  have "x = y"
  proof (rule ccontr)
    assume "x \<noteq> y"
    with Cons.prems(3) ys have "x \<in> set ys'" and "y \<in> set xs" by auto
    with Cons.prems(1,2) ys have "P x y" and "P y x" by auto
    with asym show False by blast
  qed
  moreover have "x \<notin> set xs" and "y \<notin> set ys'"
    using Cons.prems(1,2) ys irr by auto
  ultimately have "set xs = set ys'"
    using Cons.prems(3) ys by auto
  with Cons ys \<open>x = y\<close> show ?case by simp
qed

lemma sorted_wrt_asym_distinct:
  "sorted_wrt P xs \<Longrightarrow> (\<And>x y. P x y \<Longrightarrow> \<not> P y x) \<Longrightarrow> distinct xs"
  by (induction xs) auto

text \<open>Membership in the first \<open>n\<close> of a strictly sorted list, by counting what comes before.\<close>

lemma in_take_iff_card:
  assumes "sorted_wrt P xs" and asym: "\<And>x y. P x y \<Longrightarrow> \<not> P y x"
  shows "x \<in> set (take n xs) \<longleftrightarrow> x \<in> set xs \<and> card {y \<in> set xs. P y x} < n"
proof -
  have irr: "\<not> P a a" for a using asym by blast
  have before: "card {y \<in> set xs. P y (xs ! i)} = i" if i: "i < length xs" for i
  proof -
    have "{y \<in> set xs. P y (xs ! i)} = set (take i xs)"
    proof (rule set_eqI)
      fix y
      have "y \<in> set xs \<and> P y (xs ! i) \<longleftrightarrow> (\<exists>j<i. y = xs ! j)"
      proof
        assume "y \<in> set xs \<and> P y (xs ! i)"
        then obtain j where j: "j < length xs" "y = xs ! j" "P (xs ! j) (xs ! i)"
          by (auto simp: in_set_conv_nth)
        then have "j \<noteq> i" "\<not> i < j"
          using irr asym sorted_wrt_nth_less [OF assms(1), of i j] by auto
        then have "j < i" by simp
        with j(2) show "\<exists>j<i. y = xs ! j" by blast
      next
        assume "\<exists>j<i. y = xs ! j"
        then show "y \<in> set xs \<and> P y (xs ! i)"
          using sorted_wrt_nth_less [OF assms(1)] i by auto
      qed
      then show "y \<in> {y \<in> set xs. P y (xs ! i)} \<longleftrightarrow> y \<in> set (take i xs)"
        using i by (auto simp: in_set_conv_nth)
    qed
    moreover have "distinct (take i xs)"
      using sorted_wrt_asym_distinct [OF assms(1) asym] by simp
    ultimately show ?thesis using i by (simp add: distinct_card)
  qed
  show ?thesis
  proof
    assume "x \<in> set (take n xs)"
    then obtain i where "i < n" "i < length xs" "x = xs ! i"
      by (auto simp: in_set_conv_nth)
    with before show "x \<in> set xs \<and> card {y \<in> set xs. P y x} < n" by simp
  next
    assume a: "x \<in> set xs \<and> card {y \<in> set xs. P y x} < n"
    then obtain i where "i < length xs" "x = xs ! i" by (auto simp: in_set_conv_nth)
    with a before show "x \<in> set (take n xs)" by (auto simp: in_set_conv_nth)
  qed
qed

lemma distinct_map_filter_keep: "distinct (map f xs) \<Longrightarrow> distinct (map f (filter P xs))"
  by (induction xs) auto


end
