(* ===== verification/Go_Time.thy ===== *)
theory Go_Time
  imports CG_Prelude
begin

text \<open>
  The part of Go's \<open>time\<close> package the program uses. An instant is the number of nanoseconds
  since the Unix epoch, as an unbounded \<open>int\<close> (Go's own range is some \<open>10 ^ 11\<close> years);
  a \<open>Duration\<close> is an int64 number of nanoseconds, so differences saturate and sums wrap.
  A location is a name, whether it is the pointer \<open>time.Local\<close>, and the UTC offset in seconds
  at each Unix second; the offset table itself is data of the IANA database, of which only that
  no offset reaches a whole day is used, and is part of the type.
\<close>

section \<open>Instants, durations and locations\<close>

typedef zone_offset = "{f :: int \<Rightarrow> int. \<forall>t. - 86400 < f t \<and> f t < 86400}"
  morphisms offset_at Abs_zone_offset
  by (rule exI [where x = "\<lambda>_. 0"]) simp

setup_lifting type_definition_zone_offset

lemma offset_at_bounds: "- 86400 < offset_at z t \<and> offset_at z t < 86400"
  using offset_at [of z] by simp

lift_definition fixed_offset :: "int \<Rightarrow> zone_offset" is
  "\<lambda>d _. if - 86400 < d \<and> d < 86400 then d else 0"
  by simp

lemma offset_at_fixed [simp]:
  "offset_at (fixed_offset d) t = (if - 86400 < d \<and> d < 86400 then d else 0)"
  by transfer simp

datatype location = Location (loc_name: string) (is_local: bool) (loc_table: zone_offset)

abbreviation loc_offset :: "location \<Rightarrow> int \<Rightarrow> int" where
  "loc_offset l \<equiv> offset_at (loc_table l)"

definition time_UTC :: location where
  "time_UTC = Location ''UTC'' False (fixed_offset 0)"

datatype gotime = GoTime (ns: int) (zone: location)

type_synonym duration = int

definition Second :: duration where
  "Second = 1000000000"

definition Minute :: duration where
  "Minute = 60 * Second"

lemma Second_pos [simp]: "0 < Second" "Second \<noteq> 0" "0 \<le> Second" "\<not> Second \<le> 0"
  by (simp_all add: Second_def)

text \<open>The zero \<open>time.Time\<close> is the first second of year 1 in UTC.\<close>

definition zero_ns :: int where
  "zero_ns = - 62135596800 * Second"

definition zero_time :: gotime where
  "zero_time = GoTime zero_ns time_UTC"

definition IsZero :: "gotime \<Rightarrow> bool" where
  "IsZero t \<longleftrightarrow> ns t = zero_ns"

definition After :: "gotime \<Rightarrow> gotime \<Rightarrow> bool" where
  "After t u \<longleftrightarrow> ns u < ns t"

definition Before :: "gotime \<Rightarrow> gotime \<Rightarrow> bool" where
  "Before t u \<longleftrightarrow> ns t < ns u"

definition TimeEqual :: "gotime \<Rightarrow> gotime \<Rightarrow> bool" where
  "TimeEqual t u \<longleftrightarrow> ns t = ns u"

definition TimeAdd :: "gotime \<Rightarrow> duration \<Rightarrow> gotime" where
  "TimeAdd t d = GoTime (ns t + d) (zone t)"

definition Sub :: "gotime \<Rightarrow> gotime \<Rightarrow> duration" where
  "Sub t u = max (- (2 ^ 63)) (min (2 ^ 63 - 1) (ns t - ns u))"

definition Truncate :: "gotime \<Rightarrow> duration \<Rightarrow> gotime" where
  "Truncate t d = (if d \<le> 0 then t else GoTime (ns t - (ns t - zero_ns) mod d) (zone t))"

definition In :: "gotime \<Rightarrow> location \<Rightarrow> gotime" where
  "In t l = GoTime (ns t) l"

lemmas time_order = After_def Before_def TimeEqual_def

lemma zero_ns_whole: "Second dvd zero_ns"
  by (simp add: zero_ns_def)

lemma Truncate_Second: "ns (Truncate t Second) = ns t - ns t mod Second"
proof -
  have "(ns t - zero_ns) mod Second = ns t mod Second"
    using zero_ns_whole by (metis dvd_eq_mod_eq_0 minus_mod_eq_div_mult mod_diff_right_eq
        diff_zero)
  then show ?thesis by (simp add: Truncate_def)
qed

lemma ns_Truncate_whole: "Second dvd ns (Truncate t Second)"
  by (simp add: Truncate_Second dvd_minus_mod)

lemma Truncate_bounds:
  "ns (Truncate t Second) \<le> ns t" "ns t < ns (Truncate t Second) + Second"
  by (simp_all add: Truncate_Second)

lemma zone_Truncate [simp]: "zone (Truncate t d) = zone t"
  by (simp add: Truncate_def)

lemma Sub_exact: "\<bar>ns t - ns u\<bar> < 2 ^ 63 \<Longrightarrow> Sub t u = ns t - ns u"
  by (auto simp: Sub_def)

section \<open>The proleptic Gregorian calendar\<close>

text \<open>
  Days are counted from 1 January of year 1. \<open>year_of_day\<close> follows the cycles of 400, 100, 4
  and 1 years, as the \<open>time\<close> package does.
\<close>

definition leap :: "int \<Rightarrow> bool" where
  "leap y \<longleftrightarrow> y mod 4 = 0 \<and> (y mod 100 \<noteq> 0 \<or> y mod 400 = 0)"

definition days_before :: "int \<Rightarrow> int" where
  "days_before y = 365 * (y - 1) + (y - 1) div 4 - (y - 1) div 100 + (y - 1) div 400"

definition year_of_day :: "int \<Rightarrow> int" where
  "year_of_day d =
     (let q = d div 146097; r = d mod 146097;
          c = min 3 (r div 36524); r2 = r - 36524 * c;
          n4 = r2 div 1461; r3 = r2 - 1461 * n4;
          n1 = min 3 (r3 div 365)
      in 400 * q + 100 * c + 4 * n4 + n1 + 1)"

definition month_start :: "bool \<Rightarrow> int \<Rightarrow> int" where
  "month_start lp m =
     [0, 31, 59, 90, 120, 151, 181, 212, 243, 273, 304, 334] ! nat (m - 1)
       + (if lp \<and> 2 < m then 1 else 0)"

definition month_of_yday :: "bool \<Rightarrow> int \<Rightarrow> int" where
  "month_of_yday lp yd = int (length (filter (\<lambda>m. month_start lp m \<le> yd) [1..12]))"

lemma months_list: "[1..12] = [1, 2, 3, 4, 5, 6, 7, 8, 9, 10, 11, 12 :: int]"
  by (simp add: upto.simps)

lemma div_pred:
  fixes y n :: int
  assumes "0 < n"
  shows "(y - 1) div n = y div n - (if n dvd y then 1 else 0)"
proof (cases "n dvd y")
  case True
  then obtain k where y: "y = n * k" by blast
  have "(y - 1) div n = k - 1"
    by (rule int_div_pos_eq [where r = "n - 1"]) (use assms y in \<open>auto simp: algebra_simps\<close>)
  with assms y show ?thesis by simp
next
  case False
  then have r: "0 < y mod n"
    using assms by (metis dvd_eq_mod_eq_0 order_le_less pos_mod_sign)
  have "y mod n < n" using assms by simp
  with r have "(y - 1) div n = y div n"
    by (intro int_div_pos_eq [where r = "y mod n - 1"]) (auto simp: algebra_simps)
  with False show ?thesis by simp
qed

lemma leap_dvd: "leap y \<longleftrightarrow> 4 dvd y \<and> (\<not> 100 dvd y \<or> 400 dvd y)"
  by (simp add: leap_def dvd_eq_mod_eq_0)

lemma days_before_Suc: "days_before (y + 1) = days_before y + (if leap y then 366 else 365)"
proof -
  have "100 dvd y \<Longrightarrow> 4 dvd y" "400 dvd y \<Longrightarrow> 100 dvd y"
    by (erule dvd_trans [rotated], simp)+
  then show ?thesis by (auto simp: days_before_def leap_dvd div_pred)
qed

lemma days_before_mono_step: "days_before y < days_before (y + 1)"
  by (simp add: days_before_Suc)

lemma days_before_add: "365 * int k \<le> days_before (y + int k) - days_before y"
proof (induction k)
  case 0
  then show ?case by simp
next
  case (Suc k)
  have "days_before (y + int (Suc k)) = days_before (y + int k + 1)"
    by (simp add: algebra_simps)
  then have "days_before (y + int k) + 365 \<le> days_before (y + int (Suc k))"
    by (simp only: days_before_Suc) simp
  with Suc show ?case by simp
qed

lemma days_before_add_le: "days_before (y + int k) - days_before y \<le> 366 * int k"
proof (induction k)
  case 0
  then show ?case by simp
next
  case (Suc k)
  have "days_before (y + int (Suc k)) = days_before (y + int k + 1)"
    by (simp add: algebra_simps)
  then have "days_before (y + int (Suc k)) \<le> days_before (y + int k) + 366"
    by (simp only: days_before_Suc) simp
  with Suc show ?case by simp
qed

lemma days_before_mono: "y \<le> z \<Longrightarrow> days_before y \<le> days_before z"
  using days_before_add [of "nat (z - y)" y] by simp

lemma days_before_strict: "y < z \<Longrightarrow> days_before y < days_before z"
  using days_before_add [of "nat (z - y)" y] by simp

text \<open>\<open>year_of_day d\<close> is the year that contains day \<open>d\<close>.\<close>

lemma year_cycles:
  fixes q c a b :: int
  assumes "0 \<le> c" "c \<le> 3" "0 \<le> a" "a \<le> 24" "0 \<le> b" "b \<le> 3"
  shows "days_before (400 * q + 100 * c + 4 * a + b + 1)
         = 146097 * q + 36524 * c + 1461 * a + 365 * b"
    and "leap (400 * q + 100 * c + 4 * a + b + 1) \<longleftrightarrow> b = 3 \<and> (a < 24 \<or> c = 3)"
proof -
  let ?Y = "400 * q + 100 * c + 4 * a + b"
  have d4: "?Y div 4 = 100 * q + 25 * c + a"
    by (rule int_div_pos_eq [where r = b]) (use assms in auto)
  have d100: "?Y div 100 = 4 * q + c"
    by (rule int_div_pos_eq [where r = "4 * a + b"]) (use assms in auto)
  have d400: "?Y div 400 = q"
    by (rule int_div_pos_eq [where r = "100 * c + 4 * a + b"]) (use assms in auto)
  show "days_before (?Y + 1) = 146097 * q + 36524 * c + 1461 * a + 365 * b"
    by (simp add: days_before_def d4 d100 d400)
  have "4 dvd ?Y + 1 \<longleftrightarrow> b = 3"
  proof -
    have "4 dvd ?Y + 1 \<longleftrightarrow> 4 dvd b + 1 + 4 * (100 * q + 25 * c + a)"
      by (simp add: algebra_simps)
    also have "\<dots> \<longleftrightarrow> 4 dvd b + 1"
      by (rule dvd_add_left_iff) simp
    also have "\<dots> \<longleftrightarrow> b = 3"
    proof
      assume "4 dvd b + 1"
      then have "4 \<le> b + 1" using assms by (intro zdvd_imp_le) auto
      then show "b = 3" using assms by linarith
    qed simp
    finally show ?thesis .
  qed
  moreover have "100 dvd ?Y + 1 \<longleftrightarrow> b = 3 \<and> a = 24"
  proof -
    have "100 dvd ?Y + 1 \<longleftrightarrow> 100 dvd 4 * a + b + 1 + 100 * (4 * q + c)"
      by (simp add: algebra_simps)
    also have "\<dots> \<longleftrightarrow> 100 dvd 4 * a + b + 1"
      by (rule dvd_add_left_iff) simp
    also have "\<dots> \<longleftrightarrow> b = 3 \<and> a = 24"
    proof
      assume "100 dvd 4 * a + b + 1"
      then have "100 \<le> 4 * a + b + 1" using assms by (intro zdvd_imp_le) auto
      then show "b = 3 \<and> a = 24" using assms by linarith
    qed simp
    finally show ?thesis .
  qed
  moreover have "400 dvd ?Y + 1 \<longleftrightarrow> b = 3 \<and> a = 24 \<and> c = 3"
  proof -
    have "400 dvd ?Y + 1 \<longleftrightarrow> 400 dvd 100 * c + 4 * a + b + 1 + 400 * q"
      by (simp add: algebra_simps)
    also have "\<dots> \<longleftrightarrow> 400 dvd 100 * c + 4 * a + b + 1"
      by (rule dvd_add_left_iff) simp
    also have "\<dots> \<longleftrightarrow> b = 3 \<and> a = 24 \<and> c = 3"
    proof
      assume "400 dvd 100 * c + 4 * a + b + 1"
      then have "400 \<le> 100 * c + 4 * a + b + 1" using assms by (intro zdvd_imp_le) auto
      then show "b = 3 \<and> a = 24 \<and> c = 3" using assms by linarith
    qed simp
    finally show ?thesis .
  qed
  ultimately show "leap (?Y + 1) \<longleftrightarrow> b = 3 \<and> (a < 24 \<or> c = 3)"
    using assms by (auto simp: leap_dvd)
qed

lemma year_of_day_bounds:
  "days_before (year_of_day d) \<le> d \<and> d < days_before (year_of_day d + 1)"
proof -
  define q r where "q = d div 146097" and "r = d mod 146097"
  define c where "c = min 3 (r div 36524)"
  define r2 where "r2 = r - 36524 * c"
  define a where "a = r2 div 1461"
  define r3 where "r3 = r2 - 1461 * a"
  define b where "b = min 3 (r3 div 365)"
  have y: "year_of_day d = 400 * q + 100 * c + 4 * a + b + 1"
    by (simp add: year_of_day_def Let_def q_def r_def c_def r2_def a_def r3_def b_def)
  have d: "d = 146097 * q + r" and r: "0 \<le> r" "r < 146097"
    by (simp_all add: q_def r_def)
  have c: "0 \<le> c" "c \<le> 3" "0 \<le> r2" "r2 \<le> 36524" "c < 3 \<Longrightarrow> r2 < 36524"
    using r by (auto simp: c_def r2_def min_def split: if_splits)
  have a: "0 \<le> a" "a \<le> 24" "0 \<le> r3" "r3 \<le> 1460" "a = 24 \<Longrightarrow> c < 3 \<Longrightarrow> r3 < 1460"
    using c by (auto simp: a_def r3_def)
  have b: "0 \<le> b" "b \<le> 3" "365 * b \<le> r3" "b < 3 \<Longrightarrow> r3 < 365 * b + 365"
      "r3 \<le> 365 * b + 365" "r3 = 365 * b + 365 \<Longrightarrow> b = 3"
    using a by (auto simp: b_def min_def split: if_splits)
  note yc = year_cycles [OF c(1,2) a(1,2) b(1,2), of q]
  have "days_before (year_of_day d) = 146097 * q + 36524 * c + 1461 * a + 365 * b"
    unfolding y by (rule yc(1))
  with d have "d - days_before (year_of_day d) = r3 - 365 * b"
    unfolding r3_def r2_def by linarith
  moreover have "leap (year_of_day d) \<longleftrightarrow> b = 3 \<and> (a < 24 \<or> c = 3)"
    unfolding y by (rule yc(2))
  then have "r3 = 365 * b + 365 \<Longrightarrow> leap (year_of_day d)"
    using a b c by linarith
  moreover have "r3 \<noteq> 365 * b + 365 \<Longrightarrow> r3 < 365 * b + 365" using b by linarith
  ultimately show ?thesis
    using b(3,5) by (simp add: days_before_Suc) linarith
qed

lemma year_of_day_unique: "days_before y \<le> d \<Longrightarrow> d < days_before (y + 1) \<Longrightarrow> year_of_day d = y"
proof (rule ccontr)
  assume d: "days_before y \<le> d" "d < days_before (y + 1)" and "year_of_day d \<noteq> y"
  then consider "year_of_day d + 1 \<le> y" | "y + 1 \<le> year_of_day d" by linarith
  then show False
    using year_of_day_bounds [of d] d
    by cases (drule days_before_mono, linarith)+
qed

section \<open>Wall clocks\<close>

text \<open>
  \<open>wall t\<close> is the local clock of \<open>t\<close>, in seconds, counted as if it were UTC. \<open>Date\<close> goes back:
  it looks the offset up at the wall value, and again at the instant that offset gives, which
  is the net effect of the two lookups of \<open>time.Date\<close>.
\<close>

definition unix_sec :: "gotime \<Rightarrow> int" where
  "unix_sec t = ns t div Second"

definition wall :: "gotime \<Rightarrow> int" where
  "wall t = unix_sec t + loc_offset (zone t) (unix_sec t)"

definition epoch_day :: int where
  "epoch_day = 719162"

definition wall_day :: "gotime \<Rightarrow> int" where
  "wall_day t = wall t div 86400 + epoch_day"

definition Year :: "gotime \<Rightarrow> int" where
  "Year t = year_of_day (wall_day t)"

definition YearDay :: "gotime \<Rightarrow> int" where
  "YearDay t = wall_day t - days_before (Year t)"

definition Month :: "gotime \<Rightarrow> int" where
  "Month t = month_of_yday (leap (Year t)) (YearDay t)"

definition Day :: "gotime \<Rightarrow> int" where
  "Day t = YearDay t - month_start (leap (Year t)) (Month t) + 1"

definition unix_of_wall :: "location \<Rightarrow> int \<Rightarrow> int" where
  "unix_of_wall l w = w - loc_offset l (w - loc_offset l w)"

definition Date :: "int \<Rightarrow> int \<Rightarrow> int \<Rightarrow> int \<Rightarrow> int \<Rightarrow> location \<Rightarrow> gotime" where
  "Date y m d secs nsec l =
     GoTime (unix_of_wall l
       ((days_before y + month_start (leap y) m + (d - 1) - epoch_day) * 86400 + secs)
       * Second + nsec) l"

definition AddDate :: "gotime \<Rightarrow> int \<Rightarrow> gotime" where
  "AddDate t years =
     Date (Year t + years) (Month t) (Day t) (wall t mod 86400) (ns t mod Second) (zone t)"

lemma unix_of_wall_bounds: "w - 86400 < unix_of_wall l w \<and> unix_of_wall l w < w + 86400"
  using offset_at_bounds [of "loc_table l" "w - loc_offset l w"] by (auto simp: unix_of_wall_def)

lemma unix_sec_bounds: "unix_sec t * Second \<le> ns t" "ns t < (unix_sec t + 1) * Second"
proof -
  have e: "unix_sec t * Second + ns t mod Second = ns t" by (simp add: unix_sec_def)
  have m: "0 \<le> ns t mod Second" "ns t mod Second < Second" by simp_all
  show "unix_sec t * Second \<le> ns t" using e m by linarith
  show "ns t < (unix_sec t + 1) * Second" unfolding distrib_right using e m by linarith
qed

lemma wall_bounds: "unix_sec t - 86400 < wall t \<and> wall t < unix_sec t + 86400"
  using offset_at_bounds [of "loc_table (zone t)" "unix_sec t"] by (auto simp: wall_def)

lemma zone_Date [simp]: "zone (Date y m d secs nsec l) = l"
  by (simp add: Date_def)

lemma Date_whole: "Second dvd ns (Date y m d secs 0 l)"
  by (simp add: Date_def)

lemma Year_bounds:
  "(days_before (Year t) - epoch_day) * 86400 \<le> wall t"
  "wall t < (days_before (Year t + 1) - epoch_day) * 86400"
  using year_of_day_bounds [of "wall_day t"] by (auto simp: Year_def wall_day_def)

lemma Year_le_iff: "Year t \<le> y \<longleftrightarrow> wall t < (days_before (y + 1) - epoch_day) * 86400"
proof
  assume "Year t \<le> y"
  then have "(days_before (Year t + 1) - epoch_day) * 86400 \<le> (days_before (y + 1) - epoch_day) * 86400"
    by (simp add: days_before_mono)
  with Year_bounds(2) [of t] show "wall t < (days_before (y + 1) - epoch_day) * 86400"
    by linarith
next
  assume w: "wall t < (days_before (y + 1) - epoch_day) * 86400"
  show "Year t \<le> y"
  proof (rule ccontr)
    assume "\<not> Year t \<le> y"
    then have "(days_before (y + 1) - epoch_day) * 86400 \<le> (days_before (Year t) - epoch_day) * 86400"
      by (simp add: days_before_mono)
    with Year_bounds(1) [of t] w show False by linarith
  qed
qed

section \<open>Seconds as a float64, and back to an int32\<close>

text \<open>
  \<open>int32(d.Seconds())\<close> divides the duration into whole seconds and a fraction, adds the two as
  float64 values and truncates. A float64 operation is the exact operation on rationals followed
  by \<open>float64\<close>, rounding to 53 significant bits, ties to even (no value here is near the
  subnormal or the overflow range). A conversion that leaves the int32 range is unspecified in
  Go; the model takes the amd64 result, the least int32.
\<close>

definition round_even :: "rat \<Rightarrow> int" where
  "round_even q =
     (let f = \<lfloor>q\<rfloor>; r = q - of_int f
      in if r < 1 / 2 \<or> (r = 1 / 2 \<and> even f) then f else f + 1)"

fun binary_exponent :: "nat \<Rightarrow> rat \<Rightarrow> int" where
  "binary_exponent 0 q = 0"
| "binary_exponent (Suc n) q =
     (if q < 1 then binary_exponent n (2 * q) - 1
      else if 2 \<le> q then binary_exponent n (q / 2) + 1
      else 0)"

definition float64 :: "rat \<Rightarrow> rat" where
  "float64 q =
     (if q = 0 then 0
      else let u = 2 powi (binary_exponent 1024 \<bar>q\<bar> - 52)
           in sgn q * of_int (round_even (\<bar>q\<bar> / u)) * u)"

definition Seconds :: "duration \<Rightarrow> rat" where
  "Seconds d =
     float64 (float64 (of_int (d sdiv Second))
       + float64 (float64 (of_int (d smod Second)) / of_int Second))"

definition int32_of_float :: "rat \<Rightarrow> int" where
  "int32_of_float q =
     (let z = (if 0 \<le> q then \<lfloor>q\<rfloor> else \<lceil>q\<rceil>)
      in if - (2 ^ 31) \<le> z \<and> z < 2 ^ 31 then z else - (2 ^ 31))"

lemma round_even_of_int [simp]: "round_even (of_int z) = z"
  by (simp add: round_even_def)

text \<open>For a value of at least 1 the exponent found is the position of its leading bit.\<close>

lemma binary_exponent_range:
  "1 \<le> q \<Longrightarrow> q < 2 ^ n \<Longrightarrow> 0 \<le> binary_exponent n q \<and> binary_exponent n q < int n"
proof (induction n arbitrary: q)
  case 0
  then show ?case by simp
next
  case (Suc n)
  show ?case
  proof (cases "2 \<le> q")
    case True
    with Suc.prems have "1 \<le> q / 2" "q / 2 < 2 ^ n" by auto
    from Suc.IH [OF this] True Suc.prems show ?thesis by simp
  next
    case False
    with Suc.prems show ?thesis by simp
  qed
qed

lemma binary_exponent_more:
  "1 \<le> q \<Longrightarrow> q < 2 ^ n \<Longrightarrow> binary_exponent (n + k) q = binary_exponent n q"
proof (induction n arbitrary: q)
  case 0
  then show ?case by simp
next
  case (Suc n)
  show ?case
  proof (cases "2 \<le> q")
    case True
    with Suc.prems have "1 \<le> q / 2" "q / 2 < 2 ^ n" by auto
    from Suc.IH [OF this] True Suc.prems show ?thesis by simp
  next
    case False
    with Suc.prems show ?thesis by simp
  qed
qed

lemma float64_of_int: "\<bar>z\<bar> < 2 ^ 53 \<Longrightarrow> float64 (of_int z) = of_int z"
proof (cases "z = 0")
  case True
  then show ?thesis by (simp add: float64_def)
next
  case False
  assume z: "\<bar>z\<bar> < 2 ^ 53"
  define a :: rat where "a = of_int \<bar>z\<bar>"
  define e where "e = binary_exponent 1024 a"
  have "(of_int \<bar>z\<bar> :: rat) < of_int (2 ^ 53)" using z by (simp only: of_int_less_iff)
  then have a: "1 \<le> a" "a < 2 ^ 53" using False by (auto simp: a_def)
  from binary_exponent_range [OF a] binary_exponent_more [OF a, of 971]
  have e: "0 \<le> e" "e \<le> 52" by (auto simp: e_def)
  define k where "k = nat (52 - e)"
  have u: "(2::rat) powi (e - 52) = 1 / 2 ^ k"
    using e by (simp add: k_def power_int_def field_simps)
  have "a / (2 powi (e - 52)) = of_int (\<bar>z\<bar> * 2 ^ k)"
    by (simp add: u a_def)
  then have "round_even (a / (2 powi (e - 52))) = \<bar>z\<bar> * 2 ^ k"
    by (simp only: round_even_of_int)
  then have "float64 (of_int z) = sgn (of_int z) * of_int (\<bar>z\<bar> * 2 ^ k) * (1 / 2 ^ k)"
    using False u [symmetric] by (simp add: float64_def Let_def a_def e_def)
  also have "\<dots> = of_int (sgn z * \<bar>z\<bar>)" by (simp add: sgn_if)
  finally show ?thesis by (simp add: sgn_mult_abs)
qed

lemma Seconds_whole:
  assumes "Second dvd d" and "\<bar>d\<bar> < 2 ^ 63"
  shows "Seconds d = of_int (d div Second)"
proof -
  from assms(1) obtain k where k: "d = Second * k" by blast
  have "\<bar>k\<bar> < 2 ^ 53" using assms(2) by (simp add: k Second_def abs_mult)
  moreover have "d sdiv Second = k" "d smod Second = 0"
    by (simp_all add: k signed_divide_int_def signed_modulo_int_def sgn_mult abs_mult
        sgn_mult_abs)
  moreover have "float64 0 = 0" by (simp add: float64_def)
  ultimately show ?thesis by (simp add: Seconds_def float64_of_int k)
qed

lemma int32_of_Seconds:
  assumes "Second dvd d" and "- (2 ^ 31) \<le> d div Second" and "d div Second < 2 ^ 31"
  shows "int32_of_float (Seconds d) = d div Second"
proof -
  from assms(1) obtain k where k: "d = Second * k" by blast
  with assms(2,3) have "\<bar>d\<bar> < 2 ^ 63" by (simp add: abs_mult Second_def)
  from Seconds_whole [OF assms(1) this] assms(2,3) show ?thesis
    by (simp add: int32_of_float_def)
qed

end
