(* ===== verification/Api_Types.thy ===== *)
theory Api_Types
  imports Go_Time
begin

text \<open>
  The data the program works on: the \<open>CronJobMonitor\<close> resource of \<open>api/v1alpha1\<close> with its
  condition and reason constants and the admission rules its markers declare, and the fields of
  the Kubernetes objects (Job, CronJob, metav1.Condition) the controller reads. An optional
  pointer field is an option, \<open>int32\<close> and \<open>int64\<close> are \<open>int\<close>.
\<close>

section \<open>Executions\<close>

datatype ExecutionPhase =
    ExecutionPhaseSucceeded
  | ExecutionPhaseFailed
  | ExecutionPhaseRunning

record ExecutionRecord =
  JobName :: string
  StartTime :: gotime
  EndTime :: "gotime option"
  ExpectedStartTime :: "gotime option"
  DurationSeconds :: "int option"
  DriftSeconds :: "int option"
  Phase :: ExecutionPhase

section \<open>Conditions\<close>

datatype ConditionStatus = ConditionTrue | ConditionFalse | ConditionUnknown

record Condition =
  cType :: string
  cStatus :: ConditionStatus
  cReason :: string
  cMessage :: msg
  cObservedGeneration :: int
  cLastTransitionTime :: "gotime option"

definition ConditionReconciled :: string where "ConditionReconciled = ''Reconciled''"
definition ConditionScheduleHealthy :: string where "ConditionScheduleHealthy = ''ScheduleHealthy''"
definition ConditionExecutionHealthy :: string where "ConditionExecutionHealthy = ''ExecutionHealthy''"
definition ConditionDurationHealthy :: string where "ConditionDurationHealthy = ''DurationHealthy''"
definition ConditionReady :: string where "ConditionReady = ''Ready''"

lemmas condition_type_defs = ConditionReconciled_def ConditionScheduleHealthy_def
  ConditionExecutionHealthy_def ConditionDurationHealthy_def ConditionReady_def

lemma condition_types_distinct [simp]:
  "ConditionReconciled \<noteq> ConditionScheduleHealthy" "ConditionReconciled \<noteq> ConditionExecutionHealthy"
  "ConditionReconciled \<noteq> ConditionDurationHealthy" "ConditionReconciled \<noteq> ConditionReady"
  "ConditionScheduleHealthy \<noteq> ConditionReconciled" "ConditionScheduleHealthy \<noteq> ConditionExecutionHealthy"
  "ConditionScheduleHealthy \<noteq> ConditionDurationHealthy" "ConditionScheduleHealthy \<noteq> ConditionReady"
  "ConditionExecutionHealthy \<noteq> ConditionReconciled" "ConditionExecutionHealthy \<noteq> ConditionScheduleHealthy"
  "ConditionExecutionHealthy \<noteq> ConditionDurationHealthy" "ConditionExecutionHealthy \<noteq> ConditionReady"
  "ConditionDurationHealthy \<noteq> ConditionReconciled" "ConditionDurationHealthy \<noteq> ConditionScheduleHealthy"
  "ConditionDurationHealthy \<noteq> ConditionExecutionHealthy" "ConditionDurationHealthy \<noteq> ConditionReady"
  "ConditionReady \<noteq> ConditionReconciled" "ConditionReady \<noteq> ConditionScheduleHealthy"
  "ConditionReady \<noteq> ConditionExecutionHealthy" "ConditionReady \<noteq> ConditionDurationHealthy"
  by (simp_all add: condition_type_defs)

definition ReasonReconcileSuccess :: string where "ReasonReconcileSuccess = ''ReconcileSuccess''"
definition ReasonInvalidSchedule :: string where "ReasonInvalidSchedule = ''InvalidSchedule''"
definition ReasonUnsatisfiableSchedule :: string where
  "ReasonUnsatisfiableSchedule = ''UnsatisfiableSchedule''"
definition ReasonInvalidTimeZone :: string where "ReasonInvalidTimeZone = ''InvalidTimeZone''"
definition ReasonCronJobNotFound :: string where "ReasonCronJobNotFound = ''CronJobNotFound''"
definition ReasonCronJobSuspended :: string where "ReasonCronJobSuspended = ''CronJobSuspended''"
definition ReasonScheduleMismatch :: string where "ReasonScheduleMismatch = ''ScheduleMismatch''"
definition ReasonOnSchedule :: string where "ReasonOnSchedule = ''OnSchedule''"
definition ReasonScheduleMissed :: string where "ReasonScheduleMissed = ''ScheduleMissed''"
definition ReasonSuspended :: string where "ReasonSuspended = ''Suspended''"
definition ReasonNoSchedule :: string where "ReasonNoSchedule = ''NoSchedule''"
definition ReasonRecentSuccess :: string where "ReasonRecentSuccess = ''RecentSuccess''"
definition ReasonConsecutiveFailures :: string where
  "ReasonConsecutiveFailures = ''ConsecutiveFailures''"
definition ReasonNoRuns :: string where "ReasonNoRuns = ''NoRuns''"
definition ReasonWithinBudget :: string where "ReasonWithinBudget = ''WithinBudget''"
definition ReasonDurationExceeded :: string where "ReasonDurationExceeded = ''DurationExceeded''"
definition ReasonCheckDisabled :: string where "ReasonCheckDisabled = ''CheckDisabled''"
definition ReasonAllChecksPass :: string where "ReasonAllChecksPass = ''AllChecksPass''"

section \<open>The CronJobMonitor resource\<close>

record CronJobMonitorSpec =
  CronJobRef :: string
  SpecScheduleExpr :: string
  SpecTimeZone :: string
  MaxDurationSeconds :: "int option"
  MaxConsecutiveFailures :: int
  AlertAfterMissedRuns :: int
  GracePeriodSeconds :: int
  HistoryLimit :: int

record CronJobMonitorStatus =
  ObservedGeneration :: int
  Conditions :: "Condition list"
  ResolvedSchedule :: "string option"
  ResolvedTimeZone :: "string option"
  LastScheduleTime :: "gotime option"
  LastSuccessTime :: "gotime option"
  LastFailureTime :: "gotime option"
  NextExpectedTime :: "gotime option"
  ConsecutiveFailures :: int
  MissedRuns :: int
  ScheduleDriftSeconds :: int
  RecentExecutions :: "ExecutionRecord list"

record CronJobMonitor =
  Namespace :: string
  Name :: string
  Generation :: int
  CreationTimestamp :: gotime
  Spec :: CronJobMonitorSpec
  Status :: CronJobMonitorStatus

type_synonym key = "string \<times> string"

text \<open>
  The handlers mutate the status of the monitor they hold a pointer to. \<open>upd_status\<close> is that
  mutation; every lemma about it is a frame fact.
\<close>

definition upd_status ::
  "(CronJobMonitorStatus \<Rightarrow> CronJobMonitorStatus) \<Rightarrow> CronJobMonitor \<Rightarrow> CronJobMonitor" where
  "upd_status f cjm = cjm\<lparr>Status := f (Status cjm)\<rparr>"

lemma upd_status_simps [simp]:
  "Status (upd_status f cjm) = f (Status cjm)"
  "Spec (upd_status f cjm) = Spec cjm"
  "Namespace (upd_status f cjm) = Namespace cjm"
  "Name (upd_status f cjm) = Name cjm"
  "Generation (upd_status f cjm) = Generation cjm"
  "CreationTimestamp (upd_status f cjm) = CreationTimestamp cjm"
  by (simp_all add: upd_status_def)

section \<open>Admission\<close>

text \<open>
  The validation markers of \<open>CronJobReference\<close> and \<open>CronJobMonitorSpec\<close> that the API server
  enforces on every write. The regular expressions are written out as functions on strings; an
  empty optional string is an absent field, on which the field's own rules are not run.
\<close>

definition is_lower_alnum :: "char \<Rightarrow> bool" where
  "is_lower_alnum c \<longleftrightarrow> (CHR ''a'' \<le> c \<and> c \<le> CHR ''z'') \<or> (CHR ''0'' \<le> c \<and> c \<le> CHR ''9'')"

definition is_upper :: "char \<Rightarrow> bool" where
  "is_upper c \<longleftrightarrow> CHR ''A'' \<le> c \<and> c \<le> CHR ''Z''"

definition is_space :: "char \<Rightarrow> bool" where
  "is_space c \<longleftrightarrow> c \<in> set [CHR '' '', CHR 0x09, CHR 0x0A, CHR 0x0C, CHR 0x0D]"

definition dns_label :: "string \<Rightarrow> bool" where
  "dns_label n \<longleftrightarrow>
     n \<noteq> [] \<and> length n \<le> 63 \<and> is_lower_alnum (hd n) \<and> is_lower_alnum (last n)
     \<and> (\<forall>c \<in> set n. is_lower_alnum c \<or> c = CHR ''-'')"

text \<open>\<open>fields in_field s\<close> is the number of maximal runs of non-space characters.\<close>

fun fields :: "bool \<Rightarrow> string \<Rightarrow> nat" where
  "fields b [] = 0"
| "fields b (c # cs) =
     (if is_space c then fields False cs
      else (if b then 0 else 1) + fields True cs)"

definition five_fields :: "string \<Rightarrow> bool" where
  "five_fields e \<longleftrightarrow> e \<noteq> [] \<and> \<not> is_space (hd e) \<and> \<not> is_space (last e) \<and> fields False e = 5"

definition starts_with :: "string \<Rightarrow> string \<Rightarrow> bool" where
  "starts_with s p \<longleftrightarrow> take (length p) s = p"

definition schedule_admitted :: "string \<Rightarrow> bool" where
  "schedule_admitted e \<longleftrightarrow>
     e = [] \<or>
     (length e \<le> 128 \<and> \<not> starts_with e ''@every''
      \<and> (starts_with e ''@'' \<or> starts_with e ''CRON_TZ='' \<or> starts_with e ''TZ=''
          \<or> five_fields e))"

text \<open>
  \<open>tz_segments start z\<close>: the rest of a zone name, where \<open>start\<close> says that a segment begins
  here and so needs an upper-case letter.
\<close>

fun tz_segments :: "bool \<Rightarrow> string \<Rightarrow> bool" where
  "tz_segments start [] = (\<not> start)"
| "tz_segments start (c # cs) =
     (if start then is_upper c \<and> tz_segments False cs
      else if c = CHR ''/'' then tz_segments True cs
      else (is_upper c \<or> is_lower_alnum c \<or> c \<in> set ''_+-'') \<and> tz_segments False cs)"

definition timezone_admitted :: "string \<Rightarrow> bool" where
  "timezone_admitted z \<longleftrightarrow> z = [] \<or> (length z \<le> 64 \<and> (z = ''UTC'' \<or> tz_segments True z))"

definition spec_admitted :: "CronJobMonitorSpec \<Rightarrow> bool" where
  "spec_admitted sp \<longleftrightarrow>
     dns_label (CronJobRef sp) \<and> schedule_admitted (SpecScheduleExpr sp)
     \<and> timezone_admitted (SpecTimeZone sp)
     \<and> (case MaxDurationSeconds sp of None \<Rightarrow> True | Some d \<Rightarrow> 1 \<le> d)
     \<and> 1 \<le> MaxConsecutiveFailures sp \<and> 1 \<le> AlertAfterMissedRuns sp
     \<and> 0 \<le> GracePeriodSeconds sp \<and> GracePeriodSeconds sp < 86400
     \<and> 1 \<le> HistoryLimit sp \<and> HistoryLimit sp \<le> 100
     \<and> AlertAfterMissedRuns sp \<le> HistoryLimit sp
     \<and> MaxConsecutiveFailures sp \<le> HistoryLimit sp"

section \<open>Jobs and CronJobs\<close>

text \<open>The fields of the batch/v1 objects the controller reads.\<close>

record OwnerReference =
  refController :: "bool option"
  refKind :: string
  refUID :: string

datatype JobConditionType =
    JobComplete
  | JobSuccessCriteriaMet
  | JobFailed
  | JobFailureTarget
  | OtherJobCondition string

record JobCondition =
  jcType :: JobConditionType
  jcStatus :: ConditionStatus
  jcLastTransitionTime :: gotime

record Job =
  jobName :: string
  jobNamespace :: string
  jobOwnerReferences :: "OwnerReference list"
  jobCreationTimestamp :: gotime
  jobStatusStartTime :: "gotime option"
  jobCompletionTime :: "gotime option"
  jobConditions :: "JobCondition list"

record CronJob =
  cjName :: string
  cjNamespace :: string
  cjUID :: string
  cjSuspend :: "bool option"
  cjSchedule :: string
  cjTimeZone :: "string option"
  cjActive :: "string list"
  cjLastScheduleTime :: "gotime option"

text \<open>The zero value \<open>batchv1.CronJob{}\<close>.\<close>

definition empty_CronJob :: CronJob where
  "empty_CronJob = \<lparr>cjName = [], cjNamespace = [], cjUID = [], cjSuspend = None, cjSchedule = [],
     cjTimeZone = None, cjActive = [], cjLastScheduleTime = None\<rparr>"

section \<open>The API client\<close>

text \<open>Errors of the API server, by what the controller asks of them.\<close>

datatype api_error = NotFound | Conflict | OtherApiError string

end
