(* ===== verification/History_Ring.thy ===== *)
theory History_Ring
  imports Api_Types
begin

text \<open>
  \<open>internal/history/ring.go\<close>: merging the stored execution records with the ones just observed
  into a newest-first list of bounded length, one record per Job name.
\<close>

section \<open>The operations\<close>

definition isTerminal :: "ExecutionPhase \<Rightarrow> bool" where
  "isTerminal p \<longleftrightarrow> p = ExecutionPhaseSucceeded \<or> p = ExecutionPhaseFailed"

definition shouldReplace :: "ExecutionRecord \<Rightarrow> ExecutionRecord \<Rightarrow> bool" where
  "shouldReplace prev next =
     (let prevTerminal = isTerminal (Phase prev); nextTerminal = isTerminal (Phase next) in
      if nextTerminal \<and> \<not> prevTerminal then True
      else if prevTerminal \<and> \<not> nextTerminal then After (StartTime next) (StartTime prev)
      else if After (StartTime next) (StartTime prev) then True
      else if TimeEqual (StartTime next) (StartTime prev)
              \<and> EndTime prev = None \<and> EndTime next \<noteq> None then True
      else False)"

text \<open>The body of the loop over the incoming records: the drift annotations are carried over.\<close>

definition carry_drift :: "ExecutionRecord \<Rightarrow> ExecutionRecord \<Rightarrow> ExecutionRecord" where
  "carry_drift prev r =
     (let r = (if ExpectedStartTime r = None \<and> ExpectedStartTime prev \<noteq> None
               then r\<lparr>ExpectedStartTime := ExpectedStartTime prev\<rparr> else r)
      in if DriftSeconds r = None \<and> DriftSeconds prev \<noteq> None
         then r\<lparr>DriftSeconds := DriftSeconds prev\<rparr> else r)"

type_synonym by_name = "string \<rightharpoonup> ExecutionRecord"

fun put_existing :: "by_name \<Rightarrow> ExecutionRecord list \<Rightarrow> by_name" where
  "put_existing m [] = m"
| "put_existing m (r # rs) = put_existing (m(JobName r \<mapsto> r)) rs"

definition merge_one :: "by_name \<Rightarrow> ExecutionRecord \<Rightarrow> by_name" where
  "merge_one m r =
     (case m (JobName r) of
        None \<Rightarrow> m(JobName r \<mapsto> r)
      | Some prev \<Rightarrow>
          if \<not> shouldReplace prev r then m
          else m(JobName r \<mapsto> carry_drift prev r))"

fun put_incoming :: "by_name \<Rightarrow> ExecutionRecord list \<Rightarrow> by_name" where
  "put_incoming m [] = m"
| "put_incoming m (r # rs) = put_incoming (merge_one m r) rs"

text \<open>
  The order \<open>sort.Slice\<close> is given: newest start first, the greater name first on a tie. Names
  are compared byte by byte.
\<close>

definition newer :: "ExecutionRecord \<Rightarrow> ExecutionRecord \<Rightarrow> bool" where
  "newer a b =
     (if \<not> TimeEqual (StartTime a) (StartTime b) then After (StartTime a) (StartTime b)
      else JobName b < JobName a)"

fun insert_newer :: "ExecutionRecord \<Rightarrow> ExecutionRecord list \<Rightarrow> ExecutionRecord list" where
  "insert_newer x [] = [x]"
| "insert_newer x (y # ys) = (if newer y x then y # insert_newer x ys else x # y # ys)"

fun sort_newest :: "ExecutionRecord list \<Rightarrow> ExecutionRecord list" where
  "sort_newest [] = []"
| "sort_newest (x # xs) = insert_newer x (sort_newest xs)"

text \<open>
  The values of the map in the order of \<open>names\<close>. Go iterates over a map in an unspecified
  order; \<open>Merge\<close> uses the order of first occurrence, and the order is shown not to matter.
\<close>

definition values_in :: "string list \<Rightarrow> by_name \<Rightarrow> ExecutionRecord list" where
  "values_in names m = concat (map (\<lambda>n. case m n of None \<Rightarrow> [] | Some r \<Rightarrow> [r]) names)"

definition merged_map :: "ExecutionRecord list \<Rightarrow> ExecutionRecord list \<Rightarrow> by_name" where
  "merged_map existing incoming = put_incoming (put_existing Map.empty existing) incoming"

definition Merge ::
  "ExecutionRecord list \<Rightarrow> ExecutionRecord list \<Rightarrow> int \<Rightarrow> ExecutionRecord list" where
  "Merge existing incoming limit =
     (if limit \<le> 0 then []
      else
        let byName = merged_map existing incoming;
            out = values_in (remdups (map JobName (existing @ incoming))) byName;
            out = sort_newest out
        in if int (length out) > limit then take (nat limit) out else out)"

section \<open>The order\<close>

lemma newer_asym: "newer a b \<Longrightarrow> \<not> newer b a"
  by (auto simp: newer_def time_order split: if_splits)

lemma newer_trans: "newer a b \<Longrightarrow> newer b c \<Longrightarrow> newer a c"
  by (auto simp: newer_def time_order split: if_splits)

lemma newer_total: "JobName a \<noteq> JobName b \<Longrightarrow> newer a b \<or> newer b a"
  by (auto simp: newer_def time_order)

lemma set_insert_newer [simp]: "set (insert_newer x xs) = insert x (set xs)"
  by (induction xs) auto

lemma set_sort_newest [simp]: "set (sort_newest xs) = set xs"
  by (induction xs) auto

lemma mset_insert_newer [simp]: "mset (insert_newer x xs) = add_mset x (mset xs)"
  by (induction xs) auto

lemma mset_sort_newest [simp]: "mset (sort_newest xs) = mset xs"
  by (induction xs) auto

lemma length_sort_newest [simp]: "length (sort_newest xs) = length xs"
  by (metis mset_sort_newest size_mset)

lemma distinct_sort_names [simp]:
  "distinct (map JobName (sort_newest xs)) = distinct (map JobName xs)"
  by (metis mset_map mset_sort_newest mset_eq_imp_distinct_iff)

lemma sorted_insert_newer:
  "sorted_wrt newer xs \<Longrightarrow> JobName x \<notin> JobName ` set xs \<Longrightarrow> sorted_wrt newer (insert_newer x xs)"
proof (induction xs)
  case (Cons y ys)
  then show ?case
    using newer_total [of x y] by (auto intro: newer_trans)
qed simp

lemma sorted_sort_newest: "distinct (map JobName xs) \<Longrightarrow> sorted_wrt newer (sort_newest xs)"
  by (induction xs) (auto intro!: sorted_insert_newer)

text \<open>Whatever algorithm sorts, and from whatever order, the result is the same list.\<close>

lemma sort_newest_unique:
  assumes "set ys = set xs" "sorted_wrt newer ys" "distinct (map JobName xs)"
  shows "ys = sort_newest xs"
  using sorted_wrt_unique [OF assms(2) sorted_sort_newest [OF assms(3)]] assms(1) newer_asym
  by simp

section \<open>The map\<close>

definition keyed :: "by_name \<Rightarrow> bool" where
  "keyed m \<longleftrightarrow> (\<forall>n r. m n = Some r \<longrightarrow> JobName r = n)"

lemma JobName_carry_drift [simp]:
  "JobName (carry_drift p r) = JobName r" "Phase (carry_drift p r) = Phase r"
  "StartTime (carry_drift p r) = StartTime r" "EndTime (carry_drift p r) = EndTime r"
  "DurationSeconds (carry_drift p r) = DurationSeconds r"
  by (simp_all add: carry_drift_def Let_def)

lemma keyed_upd: "keyed m \<Longrightarrow> JobName r = n \<Longrightarrow> keyed (m(n \<mapsto> r))"
  by (simp add: keyed_def)

lemma keyed_put_existing: "keyed m \<Longrightarrow> keyed (put_existing m rs)"
  by (induction m rs rule: put_existing.induct) (simp_all add: keyed_upd del: fun_upd_apply)

lemma keyed_merge_one: "keyed m \<Longrightarrow> keyed (merge_one m r)"
  by (simp add: merge_one_def keyed_upd split: option.split)

lemma keyed_put_incoming: "keyed m \<Longrightarrow> keyed (put_incoming m rs)"
  by (induction m rs rule: put_incoming.induct) (auto simp: keyed_merge_one)

lemma keyed_merged_map: "keyed (merged_map es is)"
  unfolding merged_map_def
  by (intro keyed_put_incoming keyed_put_existing) (simp add: keyed_def)

lemma dom_put_existing: "dom (put_existing m rs) = dom m \<union> JobName ` set rs"
  by (induction m rs rule: put_existing.induct) (auto simp del: fun_upd_apply)

lemma dom_merge_one: "dom (merge_one m r) = insert (JobName r) (dom m)"
  by (auto simp: merge_one_def split: option.splits)

lemma dom_put_incoming: "dom (put_incoming m rs) = dom m \<union> JobName ` set rs"
  by (induction m rs rule: put_incoming.induct) (auto simp: dom_merge_one)

lemma dom_merged_map: "dom (merged_map es is) = JobName ` set (es @ is)"
  by (auto simp: merged_map_def dom_put_incoming dom_put_existing)

lemma set_values_in: "set (values_in names m) = {r. \<exists>n \<in> set names. m n = Some r}"
  by (auto simp: values_in_def split: option.splits)

lemma names_values_in: "keyed m \<Longrightarrow> map JobName (values_in names m) = filter (\<lambda>n. m n \<noteq> None) names"
  by (induction names) (auto simp: values_in_def keyed_def split: option.splits)

lemma distinct_values_in: "keyed m \<Longrightarrow> distinct names \<Longrightarrow> distinct (map JobName (values_in names m))"
  by (simp add: names_values_in)

text \<open>What a name resolves to: the incoming view against the stored one.\<close>

definition resolve :: "ExecutionRecord option \<Rightarrow> ExecutionRecord \<Rightarrow> ExecutionRecord" where
  "resolve prev r =
     (case prev of None \<Rightarrow> r | Some p \<Rightarrow> if shouldReplace p r then carry_drift p r else p)"

lemma merge_one_apply:
  "merge_one m r n = (if n = JobName r then Some (resolve (m n) r) else m n)"
  by (auto simp: merge_one_def resolve_def split: option.splits)

lemma put_incoming_notin: "n \<notin> JobName ` set rs \<Longrightarrow> put_incoming m rs n = m n"
  by (induction m rs rule: put_incoming.induct) (auto simp: merge_one_apply)

lemma put_incoming_in:
  "distinct (map JobName rs) \<Longrightarrow> r \<in> set rs \<Longrightarrow>
   put_incoming m rs (JobName r) = Some (resolve (m (JobName r)) r)"
proof (induction m rs rule: put_incoming.induct)
  case (2 m x xs)
  show ?case
  proof (cases "r = x")
    case True
    with 2(2) show ?thesis by (simp add: put_incoming_notin merge_one_apply)
  next
    case False
    with 2(3) have r: "r \<in> set xs" by simp
    have "JobName x \<notin> JobName ` set xs" using 2(2) by simp
    with r have "JobName r \<noteq> JobName x" by (metis imageI)
    then have "merge_one m x (JobName r) = m (JobName r)" by (simp add: merge_one_apply)
    with 2(1,2) r show ?thesis by simp
  qed
qed simp

lemma put_existing_notin: "n \<notin> JobName ` set rs \<Longrightarrow> put_existing m rs n = m n"
  by (induction m rs rule: put_existing.induct) auto

lemma put_existing_in:
  "distinct (map JobName rs) \<Longrightarrow> r \<in> set rs \<Longrightarrow> put_existing m rs (JobName r) = Some r"
  by (induction m rs rule: put_existing.induct) (auto simp: put_existing_notin)

lemma shouldReplace_refl [simp]: "\<not> shouldReplace r r"
  by (auto simp: shouldReplace_def Let_def time_order)

lemma shouldReplace_carry [simp]: "\<not> shouldReplace (carry_drift p r) r"
  by (auto simp: shouldReplace_def Let_def time_order)

lemma not_replaced_start: "\<not> shouldReplace p r \<Longrightarrow> ns (StartTime r) \<le> ns (StartTime p)"
  by (auto simp: shouldReplace_def Let_def time_order split: if_splits)

lemma resolve_twice: "resolve (Some (resolve prev r)) r = resolve prev r"
  by (auto simp: resolve_def split: option.splits)

lemma resolve_start: "ns (StartTime r) \<le> ns (StartTime (resolve prev r))"
  by (auto simp: resolve_def not_replaced_start split: option.splits)

lemma JobName_resolve:
  "(\<And>p. prev = Some p \<Longrightarrow> JobName p = JobName r) \<Longrightarrow> JobName (resolve prev r) = JobName r"
  by (cases prev) (simp_all add: resolve_def)

section \<open>The merged list\<close>

definition merged_values :: "ExecutionRecord list \<Rightarrow> ExecutionRecord list \<Rightarrow> ExecutionRecord list" where
  "merged_values es is = values_in (remdups (map JobName (es @ is))) (merged_map es is)"

lemma Merge_take: "Merge es is limit = take (nat limit) (sort_newest (merged_values es is))"
  by (auto simp: Merge_def merged_values_def Let_def)

lemma merged_map_dest:
  assumes "merged_map es is n = Some r"
  shows "JobName r = n" "n \<in> JobName ` set (es @ is)"
proof -
  show "JobName r = n" using assms keyed_merged_map [of es "is"] by (simp add: keyed_def)
  have "n \<in> dom (merged_map es is)" using assms by (rule domI)
  then show "n \<in> JobName ` set (es @ is)" by (simp only: dom_merged_map)
qed

lemma set_merged_values: "set (merged_values es is) = {r. merged_map es is (JobName r) = Some r}"
proof (rule set_eqI)
  fix r
  have "r \<in> set (merged_values es is)
        \<longleftrightarrow> (\<exists>n \<in> JobName ` set (es @ is). merged_map es is n = Some r)"
    unfolding merged_values_def set_values_in by simp blast
  also have "\<dots> \<longleftrightarrow> merged_map es is (JobName r) = Some r"
  proof
    assume "\<exists>n \<in> JobName ` set (es @ is). merged_map es is n = Some r"
    then obtain n where n: "merged_map es is n = Some r" by blast
    from merged_map_dest(1) [OF this] n show "merged_map es is (JobName r) = Some r" by simp
  next
    assume a: "merged_map es is (JobName r) = Some r"
    from merged_map_dest(2) [OF a] a
    show "\<exists>n \<in> JobName ` set (es @ is). merged_map es is n = Some r" by blast
  qed
  finally show "r \<in> set (merged_values es is)
        \<longleftrightarrow> r \<in> {r. merged_map es is (JobName r) = Some r}" by simp
qed

lemma ran_merged_map: "ran (merged_map es is) = set (merged_values es is)"
proof (intro set_eqI iffI)
  fix r
  assume "r \<in> ran (merged_map es is)"
  then obtain n where n: "merged_map es is n = Some r" unfolding ran_def by blast
  from merged_map_dest(1) [OF n] n show "r \<in> set (merged_values es is)"
    by (simp add: set_merged_values)
next
  fix r
  assume "r \<in> set (merged_values es is)"
  then show "r \<in> ran (merged_map es is)" by (auto simp: set_merged_values intro: ranI)
qed

lemma distinct_merged_values: "distinct (map JobName (merged_values es is))"
  unfolding merged_values_def by (rule distinct_values_in [OF keyed_merged_map]) simp

lemma names_merged_values: "JobName ` set (merged_values es is) = JobName ` set (es @ is)"
proof -
  have "n \<in> JobName ` set (merged_values es is) \<longleftrightarrow> n \<in> dom (merged_map es is)" for n
  proof
    assume "n \<in> JobName ` set (merged_values es is)"
    then show "n \<in> dom (merged_map es is)" by (auto simp: set_merged_values)
  next
    assume "n \<in> dom (merged_map es is)"
    then obtain r where r: "merged_map es is n = Some r" by blast
    with merged_map_dest(1) [OF r] show "n \<in> JobName ` set (merged_values es is)"
      by (intro image_eqI [of _ _ r]) (simp_all add: set_merged_values)
  qed
  then show ?thesis unfolding dom_merged_map by (intro set_eqI)
qed

definition ring_invar :: "int \<Rightarrow> ExecutionRecord list \<Rightarrow> bool" where
  "ring_invar limit rs \<longleftrightarrow>
     distinct (map JobName rs) \<and> sorted_wrt newer rs \<and> int (length rs) \<le> max 0 limit"

lemma Merge_invar: "ring_invar limit (Merge es is limit)"
  using distinct_merged_values [of es "is"]
  by (simp add: ring_invar_def Merge_take sorted_wrt_take sorted_sort_newest take_map [symmetric]
      distinct_take)

lemma ring_invar_filter: "ring_invar limit rs \<Longrightarrow> ring_invar limit (filter P rs)"
  unfolding ring_invar_def
  by (auto simp: distinct_map_filter_keep sorted_wrt_filter_keep
      intro: order_trans [OF of_nat_mono [OF length_filter_le]])

text \<open>
  Merging the same observations again changes nothing. A name kept by the first merge resolves
  to itself; a name that was cut off comes back no newer than what was cut off.
\<close>

lemma in_Merge_lookup: "q \<in> set (Merge es is limit) \<Longrightarrow> merged_map es is (JobName q) = Some q"
  unfolding Merge_take by (drule in_set_takeD) (simp add: set_merged_values)

lemma merged_again_kept:
  assumes d: "distinct (map JobName is)" and q: "q \<in> set (Merge es is limit)"
  shows "merged_map (Merge es is limit) is (JobName q) = Some q"
proof -
  let ?M = "Merge es is limit"
  have M: "distinct (map JobName ?M)" using Merge_invar by (simp add: ring_invar_def)
  have m: "merged_map es is (JobName q) = Some q"
    using q by (rule in_Merge_lookup)
  have e: "put_existing Map.empty ?M (JobName q) = Some q"
    by (rule put_existing_in [OF M q])
  show ?thesis
  proof (cases "JobName q \<in> JobName ` set is")
    case False
    then show ?thesis by (simp add: merged_map_def put_incoming_notin e)
  next
    case True
    then obtain r where r: "r \<in> set is" "JobName q = JobName r" by auto
    from m have "q = resolve (put_existing Map.empty es (JobName r)) r"
      unfolding merged_map_def r(2) put_incoming_in [OF d r(1)] by simp
    then have "resolve (Some q) r = q" using resolve_twice by metis
    then show ?thesis
      unfolding merged_map_def r(2) put_incoming_in [OF d r(1)] using e r(2) by simp
  qed
qed

lemma newer_weaken:
  "newer x q \<Longrightarrow> JobName q = JobName r \<Longrightarrow> ns (StartTime r) \<le> ns (StartTime q) \<Longrightarrow> newer x r"
  by (auto simp: newer_def time_order split: if_splits)

lemma newer_than_cut_off:
  assumes d: "distinct (map JobName is)" and x: "x \<in> set (Merge es is limit)"
    and r: "r \<in> set is" "JobName r \<notin> JobName ` set (Merge es is limit)"
  shows "newer x r"
proof -
  define q where "q = resolve (put_existing Map.empty es (JobName r)) r"
  have m: "merged_map es is (JobName r) = Some q"
    by (simp add: merged_map_def put_incoming_in [OF d r(1)] q_def)
  then have nq: "JobName q = JobName r" by (rule merged_map_dest(1))
  let ?xs = "sort_newest (merged_values es is)"
  have "q \<in> set ?xs" using m nq by (simp add: set_merged_values)
  moreover have "q \<notin> set (take (nat limit) ?xs)"
    using r(2) nq unfolding Merge_take by (metis imageI)
  ultimately have "q \<in> set (drop (nat limit) ?xs)"
    by (metis Un_iff append_take_drop_id set_append)
  moreover have "sorted_wrt newer (take (nat limit) ?xs @ drop (nat limit) ?xs)"
    by (simp add: sorted_sort_newest distinct_merged_values)
  ultimately have "newer x q"
    using x unfolding Merge_take sorted_wrt_append by blast
  then show ?thesis
    by (rule newer_weaken [OF _ nq]) (simp add: q_def resolve_start)
qed

lemma set_merged_again:
  assumes d: "distinct (map JobName is)" and M: "M = Merge es is limit"
  shows "set (merged_values M is) = set M \<union> {r \<in> set is. JobName r \<notin> JobName ` set M}"
proof (rule set_eqI)
  fix r
  have out: "put_existing Map.empty M n = None" if "n \<notin> JobName ` set M" for n
    by (simp add: put_existing_notin that)
  have kept: "r = q" if "q \<in> set M" "JobName q = JobName r" "merged_map M is (JobName r) = Some r" for q
    using merged_again_kept [OF d, of q es limit] that by (simp add: M)
  show "r \<in> set (merged_values M is)
        \<longleftrightarrow> r \<in> set M \<union> {r \<in> set is. JobName r \<notin> JobName ` set M}"
  proof
    assume "r \<in> set (merged_values M is)"
    then have m: "merged_map M is (JobName r) = Some r" by (simp add: set_merged_values)
    show "r \<in> set M \<union> {r \<in> set is. JobName r \<notin> JobName ` set M}"
    proof (cases "JobName r \<in> JobName ` set M")
      case True
      then obtain q where q: "q \<in> set M" "JobName r = JobName q" by blast
      from kept [OF q(1) q(2) [symmetric] m] q(1) show ?thesis by simp
    next
      case False
      with merged_map_dest(2) [OF m] obtain r' where r': "r' \<in> set is" "JobName r = JobName r'"
        by auto
      from m have "resolve (put_existing Map.empty M (JobName r')) r' = r"
        unfolding merged_map_def r'(2) put_incoming_in [OF d r'(1)] by (rule option.inject [THEN iffD1])
      moreover have "put_existing Map.empty M (JobName r') = None"
        using out [OF False] unfolding r'(2) .
      ultimately have "r' = r" by (simp add: resolve_def)
      with r'(1) False show ?thesis by simp
    qed
  next
    assume "r \<in> set M \<union> {r \<in> set is. JobName r \<notin> JobName ` set M}"
    then show "r \<in> set (merged_values M is)"
      using merged_again_kept [OF d, of r es limit] put_incoming_in [OF d, of r] out [of "JobName r"]
      by (auto simp: set_merged_values merged_map_def M resolve_def)
  qed
qed

lemma Merge_idem:
  assumes d: "distinct (map JobName is)"
  shows "Merge (Merge es is limit) is limit = Merge es is limit"
proof -
  define M where "M = Merge es is limit"
  define X where "X = filter (\<lambda>r. JobName r \<notin> JobName ` set M) is"
  have "sorted_wrt newer (sort_newest X)"
    by (rule sorted_sort_newest) (simp add: X_def distinct_map_filter_keep d)
  moreover have "sorted_wrt newer M" using Merge_invar by (simp add: ring_invar_def M_def)
  moreover have "\<forall>x \<in> set M. \<forall>r \<in> set (sort_newest X). newer x r"
    using newer_than_cut_off [OF d] by (auto simp: X_def M_def)
  ultimately have "sorted_wrt newer (M @ sort_newest X)" by (simp add: sorted_wrt_append)
  then have s: "M @ sort_newest X = sort_newest (merged_values M is)"
    by (rule sort_newest_unique [rotated]) (auto simp: distinct_merged_values X_def
        set_merged_again [OF d M_def])
  have "take (nat limit) (M @ sort_newest X) = M"
  proof (cases "length M < nat limit")
    case True
    then have "M = sort_newest (merged_values es is)" by (simp add: M_def Merge_take)
    then have "JobName ` set M = JobName ` set (es @ is)" by (simp add: names_merged_values)
    then have "X = []" by (auto simp: X_def filter_empty_conv)
    with True show ?thesis by simp
  next
    case False
    then have "length M = nat limit" by (simp add: M_def Merge_take)
    then show ?thesis by simp
  qed
  then show ?thesis by (simp add: Merge_take [of M] s M_def [symmetric])
qed

section \<open>The contract of the history\<close>

text \<open>
  What the reconciler relies on when it replaces the stored history by a merge: the result keeps
  the ring invariant whatever was stored, holds only Jobs that were stored or observed, and its
  first record is as new as every one of them.
\<close>

locale execution_history =
  fixes merge :: "ExecutionRecord list \<Rightarrow> ExecutionRecord list \<Rightarrow> int \<Rightarrow> ExecutionRecord list"
  assumes invar: "ring_invar limit (merge es is limit)"
    and names: "r \<in> set (merge es is limit) \<Longrightarrow> JobName r \<in> JobName ` set (es @ is)"
    and newest: "0 < limit \<Longrightarrow> distinct (map JobName is) \<Longrightarrow> r \<in> set is \<Longrightarrow>
          merge es is limit \<noteq> [] \<and> ns (StartTime r) \<le> ns (StartTime (hd (merge es is limit)))"
begin

lemma bounded: "0 \<le> limit \<Longrightarrow> int (length (merge es is limit)) \<le> limit"
  using invar [of limit es "is"] by (simp add: ring_invar_def)

lemma head_newest:
  assumes "r \<in> set (merge es is limit)"
  shows "ns (StartTime r) \<le> ns (StartTime (hd (merge es is limit)))"
proof -
  obtain x xs where m: "merge es is limit = x # xs" using assms by (cases "merge es is limit") auto
  then have "r = x \<or> newer x r"
    using assms invar [of limit es "is"] by (auto simp: ring_invar_def)
  then show ?thesis by (auto simp: m newer_def time_order split: if_splits)
qed

end

lemma Merge_newest:
  assumes "0 < limit" "distinct (map JobName is)" "r \<in> set is"
  shows "Merge es is limit \<noteq> [] \<and> ns (StartTime r) \<le> ns (StartTime (hd (Merge es is limit)))"
proof -
  let ?xs = "sort_newest (merged_values es is)"
  define q where "q = resolve (put_existing Map.empty es (JobName r)) r"
  have m: "merged_map es is (JobName r) = Some q"
    by (simp add: merged_map_def put_incoming_in assms q_def)
  then have q: "q \<in> set ?xs"
    using merged_map_dest(1) [OF m] by (simp add: set_merged_values)
  then obtain x xs where x: "?xs = x # xs" by (cases ?xs) auto
  have "sorted_wrt newer (x # xs)"
    using sorted_sort_newest [OF distinct_merged_values, of es "is"] by (simp only: x)
  then have "q = x \<or> newer x q" using q by (auto simp: x simp del: set_sort_newest)
  then have "ns (StartTime q) \<le> ns (StartTime x)"
    by (auto simp: newer_def time_order split: if_splits)
  moreover have "ns (StartTime r) \<le> ns (StartTime q)" by (simp add: q_def resolve_start)
  moreover have "Merge es is limit = x # take (nat limit - 1) xs"
    using assms(1) by (simp add: Merge_take x take_Cons')
  ultimately show ?thesis by simp
qed

interpretation ring: execution_history Merge
proof unfold_locales
  fix limit es "is" r
  show "ring_invar limit (Merge es is limit)" by (rule Merge_invar)
  show "r \<in> set (Merge es is limit) \<Longrightarrow> JobName r \<in> JobName ` set (es @ is)"
    by (rule merged_map_dest(2) [OF in_Merge_lookup])
qed (rule Merge_newest)

section \<open>Properties of the history\<close>

text \<open>
  C29. The merged history is a ring: at most \<open>limit\<close> records, one per Job name, strictly
  newest first. This holds whatever was stored and observed.
\<close>

theorem Merge_ring_invariant: "ring_invar limit (Merge es is limit)"
  by (rule ring.invar)

text \<open>
  C12. The history keeps the newest: a record is in the result exactly if it is what its Job
  resolves to and fewer than \<open>limit\<close> resolved records are newer.
\<close>

theorem Merge_keeps_newest:
  "r \<in> set (Merge es is limit)
   \<longleftrightarrow> merged_map es is (JobName r) = Some r
       \<and> int (card {q. merged_map es is (JobName q) = Some q \<and> newer q r}) < limit"
proof -
  have "sorted_wrt newer (sort_newest (merged_values es is))"
    by (simp add: sorted_sort_newest distinct_merged_values)
  from in_take_iff_card [OF this newer_asym, of r "nat limit"]
  show ?thesis by (simp add: Merge_take set_merged_values zless_nat_eq_int_zless)
qed


definition sample_record :: "string \<Rightarrow> int \<Rightarrow> ExecutionPhase \<Rightarrow> ExecutionRecord" where
  "sample_record n t p = \<lparr>JobName = n, StartTime = GoTime (t * Second) time_UTC, EndTime = None,
     ExpectedStartTime = None, DurationSeconds = None, DriftSeconds = None, Phase = p\<rparr>"

lemma sample_record_simps [simp]:
  "JobName (sample_record n t p) = n" "Phase (sample_record n t p) = p"
  "ns (StartTime (sample_record n t p)) = t * Second" "EndTime (sample_record n t p) = None"
  by (simp_all add: sample_record_def)


text \<open>
  C30. Reconciling the same Jobs twice is stable: merging the same observations into the result
  of merging them changes nothing.
\<close>

theorem Merge_idempotent:
  assumes "distinct (map JobName is)"
  shows "Merge (Merge es is limit) is limit = Merge es is limit"
  using assms by (rule Merge_idem)

theorem Merge_idempotent_witness:
  "Merge (Merge [sample_record ''a'' 10 ExecutionPhaseFailed]
            [sample_record ''b'' 20 ExecutionPhaseRunning] 1)
      [sample_record ''b'' 20 ExecutionPhaseRunning] 1
   = Merge [sample_record ''a'' 10 ExecutionPhaseFailed]
       [sample_record ''b'' 20 ExecutionPhaseRunning] 1"
  by (rule Merge_idempotent) simp



end
