(* ===== verification/Job_Helpers.thy ===== *)
theory Job_Helpers
  imports History_Ring
begin

text \<open>
  \<open>internal/controller/reconcile_helpers.go\<close>: which Jobs a CronJob owns, what a Job's conditions
  say about its outcome, the execution record of a Job, and dropping Running records whose Job is
  gone.
\<close>

section \<open>Owned Jobs\<close>

text \<open>\<open>list_jobs\<close> is the client's list of the Jobs in a namespace.\<close>

definition owned_by :: "CronJob \<Rightarrow> Job \<Rightarrow> bool" where
  "owned_by cj job \<longleftrightarrow>
     list_ex (\<lambda>ref. refController ref = Some True \<and> refUID ref = cjUID cj)
       (jobOwnerReferences job)"

definition listOwnedJobs ::
  "(string \<Rightarrow> api_error + Job list) \<Rightarrow> CronJob \<Rightarrow> api_error + Job list" where
  "listOwnedJobs list_jobs cj =
     (case list_jobs (cjNamespace cj) of
        Inl e \<Rightarrow> Inl e
      | Inr jobs \<Rightarrow> Inr (filter (owned_by cj) jobs))"

section \<open>The record of a Job\<close>

fun job_outcome_loop :: "JobCondition list \<Rightarrow> ExecutionPhase \<times> gotime option" where
  "job_outcome_loop [] = (ExecutionPhaseRunning, None)"
| "job_outcome_loop (cond # conds) =
     (if jcStatus cond \<noteq> ConditionTrue then job_outcome_loop conds
      else
        let decided = (if IsZero (jcLastTransitionTime cond) then None
                       else Some (jcLastTransitionTime cond))
        in case jcType cond of
             JobComplete \<Rightarrow> (ExecutionPhaseSucceeded, decided)
           | JobSuccessCriteriaMet \<Rightarrow> (ExecutionPhaseSucceeded, decided)
           | JobFailed \<Rightarrow> (ExecutionPhaseFailed, decided)
           | JobFailureTarget \<Rightarrow> (ExecutionPhaseFailed, decided)
           | OtherJobCondition t \<Rightarrow> job_outcome_loop conds)"

definition jobOutcome :: "Job \<Rightarrow> ExecutionPhase \<times> gotime option" where
  "jobOutcome job = job_outcome_loop (jobConditions job)"

definition jobStartTime :: "Job \<Rightarrow> gotime" where
  "jobStartTime job =
     (case jobStatusStartTime job of Some t \<Rightarrow> t | None \<Rightarrow> jobCreationTimestamp job)"

definition jobToRecord :: "Job \<Rightarrow> ExecutionRecord" where
  "jobToRecord job =
     (let (phase, decided) = jobOutcome job;
          start = (case jobStatusStartTime job of
                     Some t \<Rightarrow> t
                   | None \<Rightarrow> jobCreationTimestamp job);
          rec = \<lparr>JobName = jobName job, StartTime = start, EndTime = None,
                 ExpectedStartTime = None, DurationSeconds = None, DriftSeconds = None,
                 Phase = phase\<rparr>;
          end = (if jobCompletionTime job = None \<and> phase = ExecutionPhaseFailed then decided
                 else jobCompletionTime job)
      in case end of
           None \<Rightarrow> rec
         | Some e \<Rightarrow>
             if \<not> Before e start
             then rec\<lparr>EndTime := Some e,
                      DurationSeconds := Some (int32_of_float (Seconds (Sub e start)))\<rparr>
             else rec)"

text \<open>
  \<open>sort.Slice\<close> leaves the order of Jobs that started at the same instant open; the model keeps
  the listed order among them.
\<close>

fun insert_job :: "Job \<Rightarrow> Job list \<Rightarrow> Job list" where
  "insert_job x [] = [x]"
| "insert_job x (y # ys) =
     (if After (jobStartTime y) (jobStartTime x) then y # insert_job x ys else x # y # ys)"

fun sortJobsNewestFirst :: "Job list \<Rightarrow> Job list" where
  "sortJobsNewestFirst [] = []"
| "sortJobsNewestFirst (x # xs) = insert_job x (sortJobsNewestFirst xs)"

section \<open>Orphaned Running records\<close>

definition orphanPruneMinAge :: duration where
  "orphanPruneMinAge = Minute"

definition liveJobNames :: "Job list \<Rightarrow> CronJob \<Rightarrow> string set" where
  "liveJobNames owned cj = set (map jobName owned) \<union> set (cjActive cj)"

fun drop_loop ::
  "ExecutionRecord list \<Rightarrow> string set \<Rightarrow> gotime \<Rightarrow> duration \<Rightarrow>
   ExecutionRecord list \<Rightarrow> string list \<Rightarrow> ExecutionRecord list \<times> string list" where
  "drop_loop [] live now minAge out dropped = (out, dropped)"
| "drop_loop (r # rs) live now minAge out dropped =
     (if Phase r = ExecutionPhaseRunning \<and> JobName r \<notin> live \<and> minAge \<le> Sub now (StartTime r)
      then drop_loop rs live now minAge out (dropped @ [JobName r])
      else drop_loop rs live now minAge (out @ [r]) dropped)"

definition dropOrphanedRunning ::
  "ExecutionRecord list \<Rightarrow> string set \<Rightarrow> gotime \<Rightarrow> duration \<Rightarrow>
   ExecutionRecord list \<times> string list" where
  "dropOrphanedRunning recs live now minAge =
     (let (out, dropped) = drop_loop recs live now minAge [] []
      in if dropped = [] then (recs, []) else (out, dropped))"

definition pruneOrphanedRunning ::
  "CronJobMonitor \<Rightarrow> Job list \<Rightarrow> CronJob \<Rightarrow> gotime \<Rightarrow> CronJobMonitor \<times> string list" where
  "pruneOrphanedRunning cjm owned cj now =
     (let (pruned, names) =
            dropOrphanedRunning (RecentExecutions (Status cjm)) (liveJobNames owned cj) now
              orphanPruneMinAge
      in (upd_status (\<lambda>st. st\<lparr>RecentExecutions := pruned\<rparr>) cjm, names))"

section \<open>Lemmas\<close>

definition orphaned :: "string set \<Rightarrow> gotime \<Rightarrow> duration \<Rightarrow> ExecutionRecord \<Rightarrow> bool" where
  "orphaned live now minAge r \<longleftrightarrow>
     Phase r = ExecutionPhaseRunning \<and> JobName r \<notin> live \<and> minAge \<le> Sub now (StartTime r)"

lemma drop_loop_filter:
  "drop_loop rs live now minAge out dropped
   = (out @ filter (\<lambda>r. \<not> orphaned live now minAge r) rs,
      dropped @ map JobName (filter (orphaned live now minAge) rs))"
  by (induction rs live now minAge out dropped rule: drop_loop.induct) (auto simp: orphaned_def)

lemma dropOrphanedRunning_filter:
  "dropOrphanedRunning rs live now minAge
   = (filter (\<lambda>r. \<not> orphaned live now minAge r) rs,
      map JobName (filter (orphaned live now minAge) rs))"
  by (auto simp: dropOrphanedRunning_def drop_loop_filter filter_empty_conv
      intro!: filter_True [symmetric])

lemma orphaned_minute:
  "orphaned live now orphanPruneMinAge r
   \<longleftrightarrow> Phase r = ExecutionPhaseRunning \<and> JobName r \<notin> live \<and> Minute \<le> ns now - ns (StartTime r)"
  by (auto simp: orphaned_def orphanPruneMinAge_def Sub_def Minute_def Second_def)

lemma prune_status:
  "pruneOrphanedRunning cjm owned cj now
   = (upd_status (\<lambda>st. st\<lparr>RecentExecutions :=
        filter (\<lambda>r. \<not> orphaned (liveJobNames owned cj) now orphanPruneMinAge r)
          (RecentExecutions st)\<rparr>) cjm,
      map JobName (filter (orphaned (liveJobNames owned cj) now orphanPruneMinAge)
        (RecentExecutions (Status cjm))))"
  by (simp add: pruneOrphanedRunning_def dropOrphanedRunning_filter upd_status_def)

lemma set_insert_job [simp]: "set (insert_job x xs) = insert x (set xs)"
  by (induction xs) auto

lemma set_sortJobs [simp]: "set (sortJobsNewestFirst xs) = set xs"
  by (induction xs) auto

lemma mset_insert_job [simp]: "mset (insert_job x xs) = add_mset x (mset xs)"
  by (induction xs) auto

lemma mset_sortJobs [simp]: "mset (sortJobsNewestFirst xs) = mset xs"
  by (induction xs) auto

lemma sorted_insert_job:
  "sorted_wrt (\<lambda>a b. ns (jobStartTime b) \<le> ns (jobStartTime a)) xs \<Longrightarrow>
   sorted_wrt (\<lambda>a b. ns (jobStartTime b) \<le> ns (jobStartTime a)) (insert_job x xs)"
  by (induction xs) (auto simp: After_def)

lemma sorted_sortJobs:
  "sorted_wrt (\<lambda>a b. ns (jobStartTime b) \<le> ns (jobStartTime a)) (sortJobsNewestFirst xs)"
  by (induction xs) (auto intro: sorted_insert_job)

lemma distinct_sorted_job_names:
  "distinct (map jobName (sortJobsNewestFirst xs)) = distinct (map jobName xs)"
  by (metis mset_map mset_sortJobs mset_eq_imp_distinct_iff)

lemma jobToRecord_simps [simp]:
  "JobName (jobToRecord job) = jobName job"
  "StartTime (jobToRecord job) = jobStartTime job"
  "Phase (jobToRecord job) = fst (jobOutcome job)"
  "ExpectedStartTime (jobToRecord job) = None" "DriftSeconds (jobToRecord job) = None"
  by (simp_all add: jobToRecord_def jobStartTime_def Let_def split: prod.split option.split)

text \<open>What decides the outcome: the first true condition of a deciding type.\<close>

definition decides :: "JobCondition \<Rightarrow> ExecutionPhase option" where
  "decides c =
     (if jcStatus c \<noteq> ConditionTrue then None
      else case jcType c of
             JobComplete \<Rightarrow> Some ExecutionPhaseSucceeded
           | JobSuccessCriteriaMet \<Rightarrow> Some ExecutionPhaseSucceeded
           | JobFailed \<Rightarrow> Some ExecutionPhaseFailed
           | JobFailureTarget \<Rightarrow> Some ExecutionPhaseFailed
           | OtherJobCondition t \<Rightarrow> None)"

lemma job_outcome_loop_find:
  "job_outcome_loop cs =
     (case filter (\<lambda>c. decides c \<noteq> None) cs of
        [] \<Rightarrow> (ExecutionPhaseRunning, None)
      | c # _ \<Rightarrow> (the (decides c),
                 if IsZero (jcLastTransitionTime c) then None else Some (jcLastTransitionTime c)))"
  by (induction cs) (auto simp: decides_def Let_def split: JobConditionType.splits)

lemma job_outcome_terminal:
  "isTerminal (fst (jobOutcome job)) \<longleftrightarrow> (\<exists>c \<in> set (jobConditions job). decides c \<noteq> None)"
proof (cases "filter (\<lambda>c. decides c \<noteq> None) (jobConditions job)")
  case Nil
  then show ?thesis
    by (auto simp: jobOutcome_def job_outcome_loop_find isTerminal_def filter_empty_conv)
next
  case (Cons c cs)
  then have "c \<in> set (filter (\<lambda>c. decides c \<noteq> None) (jobConditions job))" by simp
  then have "c \<in> set (jobConditions job)" "decides c \<noteq> None" by auto
  moreover have "decides c \<noteq> Some ExecutionPhaseRunning"
    by (auto simp: decides_def split: JobConditionType.splits)
  ultimately show ?thesis
    using Cons by (auto simp: jobOutcome_def job_outcome_loop_find isTerminal_def)
      (metis ExecutionPhase.exhaust)
qed

section \<open>Properties\<close>

text \<open>
  C13. Pruning removes exactly the phantoms: a record goes if and only if it is Running, its Job
  is neither listed nor in \<open>status.active\<close>, and it started at least a minute ago. Terminal
  records and the order stay, and nothing else of the monitor changes.
\<close>

theorem prune_removes_exactly_orphans:
  "pruneOrphanedRunning cjm owned cj now =
     (upd_status (\<lambda>st. st\<lparr>RecentExecutions :=
        filter (\<lambda>r. isTerminal (Phase r) \<or> JobName r \<in> set (map jobName owned) \<union> set (cjActive cj)
                    \<or> ns now - ns (StartTime r) < Minute) (RecentExecutions st)\<rparr>) cjm,
      map JobName (filter (\<lambda>r. Phase r = ExecutionPhaseRunning
                    \<and> JobName r \<notin> set (map jobName owned) \<union> set (cjActive cj)
                    \<and> Minute \<le> ns now - ns (StartTime r)) (RecentExecutions (Status cjm))))"
proof -
  let ?o = "orphaned (liveJobNames owned cj) now orphanPruneMinAge"
  have g: "?o = (\<lambda>r. Phase r = ExecutionPhaseRunning
                    \<and> JobName r \<notin> set (map jobName owned) \<union> set (cjActive cj)
                    \<and> Minute \<le> ns now - ns (StartTime r))"
    by (rule ext) (simp only: orphaned_minute liveJobNames_def)
  have t: "Phase r = ExecutionPhaseRunning \<longleftrightarrow> \<not> isTerminal (Phase r)" for r
    by (cases "Phase r") (simp_all add: isTerminal_def)
  have f: "(\<lambda>r. \<not> (Phase r = ExecutionPhaseRunning
                    \<and> JobName r \<notin> set (map jobName owned) \<union> set (cjActive cj)
                    \<and> Minute \<le> ns now - ns (StartTime r))) = (\<lambda>r. isTerminal (Phase r)
                    \<or> JobName r \<in> set (map jobName owned) \<union> set (cjActive cj)
                    \<or> ns now - ns (StartTime r) < Minute)"
    by (rule ext) (simp only: t de_Morgan_conj not_not not_le)
  show ?thesis unfolding prune_status g unfolding f by (rule refl)
qed

text \<open>
  C36. A Job is terminal exactly when one of its conditions is true and final (Complete,
  SuccessCriteriaMet, Failed, FailureTarget); the first such condition decides the phase, and no
  counter is consulted.
\<close>

theorem jobOutcome_first_deciding:
  "jobOutcome job =
     (case filter (\<lambda>c. decides c \<noteq> None) (jobConditions job) of
        [] \<Rightarrow> (ExecutionPhaseRunning, None)
      | c # _ \<Rightarrow> (the (decides c),
                 if IsZero (jcLastTransitionTime c) then None else Some (jcLastTransitionTime c)))
   \<and> (isTerminal (fst (jobOutcome job)) \<longleftrightarrow> (\<exists>c \<in> set (jobConditions job). decides c \<noteq> None))"
  using job_outcome_loop_find job_outcome_terminal by (simp add: jobOutcome_def)

text \<open>
  C35. The record of a Job is consistent: it has an end exactly if it has a duration, the end is
  not before the start, and for Kubernetes' whole-second times the duration is the exact number
  of seconds between them.
\<close>

theorem jobToRecord_consistent:
  assumes "Second dvd ns (jobStartTime job)"
    and "EndTime (jobToRecord job) = Some e" and "Second dvd ns e"
    and "ns e - ns (jobStartTime job) < 2 ^ 31 * Second"
  shows "ns (jobStartTime job) \<le> ns e
       \<and> DurationSeconds (jobToRecord job) = Some ((ns e - ns (jobStartTime job)) div Second)"
proof -
  let ?d = "ns e - ns (jobStartTime job)"
  have e: "ns (jobStartTime job) \<le> ns e"
    "DurationSeconds (jobToRecord job) = Some (int32_of_float (Seconds (Sub e (jobStartTime job))))"
    using assms(2)
    by (auto simp: jobToRecord_def jobStartTime_def Let_def Before_def
        split: prod.splits option.splits if_splits)
  have s: "Sub e (jobStartTime job) = ?d"
    by (rule Sub_exact) (use e(1) assms(4) in \<open>auto simp: Second_def\<close>)
  have "int32_of_float (Seconds ?d) = ?d div Second"
  proof (rule int32_of_Seconds)
    show "Second dvd ?d" using assms(1,3) by simp
    then obtain k where k: "?d = Second * k" by blast
    then show "- (2 ^ 31) \<le> ?d div Second" "?d div Second < 2 ^ 31"
      using e(1) assms(4) by (simp_all add: Second_def)
  qed
  with e s show ?thesis by simp
qed

definition sample_job :: "string \<Rightarrow> JobConditionType \<Rightarrow> int \<Rightarrow> int \<Rightarrow> Job" where
  "sample_job n c t u = \<lparr>jobName = n, jobNamespace = ''ns'', jobOwnerReferences = [],
     jobCreationTimestamp = GoTime (t * Second) time_UTC,
     jobStatusStartTime = Some (GoTime (t * Second) time_UTC), jobCompletionTime = None,
     jobConditions = [\<lparr>jcType = c, jcStatus = ConditionTrue,
       jcLastTransitionTime = GoTime (u * Second) time_UTC\<rparr>]\<rparr>"

theorem jobToRecord_consistent_witness:
  "DurationSeconds (jobToRecord (sample_job ''j'' JobFailed 100 160)) = Some 60"
proof -
  let ?j = "sample_job ''j'' JobFailed 100 160" and ?e = "GoTime (160 * Second) time_UTC"
  have "EndTime (jobToRecord ?j) = Some ?e"
    by (simp add: jobToRecord_def sample_job_def jobOutcome_def IsZero_def zero_ns_def Before_def
        Let_def)
  moreover have "jobStartTime ?j = GoTime (100 * Second) time_UTC"
    by (simp add: sample_job_def jobStartTime_def)
  ultimately show ?thesis
    using jobToRecord_consistent [of ?j ?e] by (simp add: Second_def)
qed

end
