(* ===== verification/Cond_Eval.thy ===== *)
theory Cond_Eval
  imports Job_Helpers
begin

text \<open>
  \<open>internal/controller/conditions.go\<close>: the three health axes and their aggregate. Writing and
  finding a status condition is apimachinery's \<open>meta\<close> package, outside the repository: the two
  functions are the argument \<open>M\<close> of the evaluators, and the locale \<open>condition_store\<close> states
  their documented behaviour.
\<close>

section \<open>Status conditions\<close>

record meta_api =
  SetStatusCondition :: "Condition list \<Rightarrow> Condition \<Rightarrow> Condition list"
  FindStatusCondition :: "Condition list \<Rightarrow> string \<Rightarrow> Condition option"

text \<open>
  \<open>set_condition\<close> is the call \<open>meta.SetStatusCondition(&cjm.Status.Conditions, ...)\<close> every
  evaluator makes; the observed generation is always the monitor's.
\<close>

definition set_condition ::
  "meta_api \<Rightarrow> string \<Rightarrow> ConditionStatus \<Rightarrow> string \<Rightarrow> msg \<Rightarrow> CronJobMonitor \<Rightarrow> CronJobMonitor" where
  "set_condition M ty st reason message cjm =
     upd_status (\<lambda>s. s\<lparr>Conditions := SetStatusCondition M (Conditions s)
       \<lparr>cType = ty, cStatus = st, cReason = reason, cMessage = message,
        cObservedGeneration = Generation cjm, cLastTransitionTime = None\<rparr>\<rparr>) cjm"

definition find_condition :: "meta_api \<Rightarrow> CronJobMonitor \<Rightarrow> string \<Rightarrow> Condition option" where
  "find_condition M cjm t = FindStatusCondition M (Conditions (Status cjm)) t"

section \<open>The axes\<close>

fun execution_loop :: "ExecutionRecord list \<Rightarrow> int \<Rightarrow> bool \<Rightarrow> int \<times> bool" where
  "execution_loop [] cnt sawAny = (cnt, sawAny)"
| "execution_loop (r # rs) cnt sawAny =
     (if Phase r = ExecutionPhaseRunning then execution_loop rs cnt sawAny
      else if Phase r = ExecutionPhaseSucceeded then (cnt, True)
      else execution_loop rs (to_int32 (cnt + 1)) True)"

definition evaluateExecutionHealthy :: "meta_api \<Rightarrow> CronJobMonitor \<Rightarrow> CronJobMonitor" where
  "evaluateExecutionHealthy M cjm =
     (let (cnt, sawAny) = execution_loop (RecentExecutions (Status cjm)) 0 False;
          cjm = upd_status (\<lambda>s. s\<lparr>ConsecutiveFailures := cnt\<rparr>) cjm
      in if \<not> sawAny then
           set_condition M ConditionExecutionHealthy ConditionUnknown ReasonNoRuns
             [Lit ''no completed runs observed yet''] cjm
         else if MaxConsecutiveFailures (Spec cjm) \<le> cnt \<and> 0 < MaxConsecutiveFailures (Spec cjm) then
           set_condition M ConditionExecutionHealthy ConditionFalse ReasonConsecutiveFailures
             [Dec cnt, Lit '' consecutive failures (threshold '',
              Dec (MaxConsecutiveFailures (Spec cjm)), Lit '')''] cjm
         else
           set_condition M ConditionExecutionHealthy ConditionTrue ReasonRecentSuccess
             [Lit ''last completed run succeeded''] cjm)"

definition took_msg :: "string \<Rightarrow> int \<Rightarrow> int \<Rightarrow> msg" where
  "took_msg subject took budget =
     [Lit subject, Lit '' took '', Dec took, Lit ''s (budget '', Dec budget, Lit ''s)'']"

fun duration_loop ::
  "int \<Rightarrow> ExecutionRecord list \<Rightarrow> string \<Rightarrow> (ConditionStatus \<times> string \<times> msg)" where
  "duration_loop budget [] subject =
     (ConditionUnknown, ReasonNoRuns, [Lit ''no completed runs observed yet''])"
| "duration_loop budget (r # rs) subject =
     (if Phase r = ExecutionPhaseRunning then duration_loop budget rs subject
      else case DurationSeconds r of
        None \<Rightarrow> duration_loop budget rs subject
      | Some took \<Rightarrow>
          let failed = (Phase r = ExecutionPhaseFailed) in
          if took > budget \<or> (failed \<and> took \<ge> budget) then
            (ConditionFalse, ReasonDurationExceeded,
             if failed then [Lit ''last run failed after '', Dec took, Lit ''s (budget '', Dec budget,
                             Lit ''s)'']
             else took_msg subject took budget)
          else if failed then duration_loop budget rs ''last successful run''
          else (ConditionTrue, ReasonWithinBudget, took_msg subject took budget))"

definition evaluateDurationHealthy :: "meta_api \<Rightarrow> CronJobMonitor \<Rightarrow> CronJobMonitor" where
  "evaluateDurationHealthy M cjm =
     (case MaxDurationSeconds (Spec cjm) of
        None \<Rightarrow>
          set_condition M ConditionDurationHealthy ConditionUnknown ReasonCheckDisabled
            [Lit ''maxDurationSeconds is unset''] cjm
      | Some budget \<Rightarrow>
          (case duration_loop budget (RecentExecutions (Status cjm)) ''last run'' of
             (st, reason, message) \<Rightarrow>
               set_condition M ConditionDurationHealthy st reason message cjm))"

fun ready_loop ::
  "meta_api \<Rightarrow> CronJobMonitor \<Rightarrow> string list \<Rightarrow> ConditionStatus \<Rightarrow> string \<Rightarrow> msg \<Rightarrow>
   ConditionStatus \<times> string \<times> msg" where
  "ready_loop M cjm [] st reason message = (st, reason, message)"
| "ready_loop M cjm (t # ts) st reason message =
     (case find_condition M cjm t of
        None \<Rightarrow> ready_loop M cjm ts st reason message
      | Some cond \<Rightarrow>
          if cStatus cond = ConditionFalse then
            (ConditionFalse, cReason cond, Lit t # Lit '': '' # cMessage cond)
          else if cStatus cond = ConditionUnknown \<and> st = ConditionTrue then
            ready_loop M cjm ts ConditionUnknown (cReason cond) (Lit t # Lit '': '' # cMessage cond)
          else ready_loop M cjm ts st reason message)"

definition evaluateReady :: "meta_api \<Rightarrow> CronJobMonitor \<Rightarrow> CronJobMonitor" where
  "evaluateReady M cjm =
     (case ready_loop M cjm
             [ConditionReconciled, ConditionScheduleHealthy, ConditionExecutionHealthy,
              ConditionDurationHealthy]
             ConditionTrue ReasonAllChecksPass [Lit ''all SLO checks pass''] of
        (st, reason, message) \<Rightarrow> set_condition M ConditionReady st reason message cjm)"

definition evaluateScheduleHealthy :: "meta_api \<Rightarrow> CronJobMonitor \<Rightarrow> int \<Rightarrow> CronJobMonitor" where
  "evaluateScheduleHealthy M cjm missed =
     (let cjm = upd_status (\<lambda>s. s\<lparr>MissedRuns := missed\<rparr>) cjm in
      if 0 < AlertAfterMissedRuns (Spec cjm) \<and> AlertAfterMissedRuns (Spec cjm) \<le> missed then
        set_condition M ConditionScheduleHealthy ConditionFalse ReasonScheduleMissed
          [Dec missed, Lit '' missed runs (threshold '', Dec (AlertAfterMissedRuns (Spec cjm)), Lit '')'']
          cjm
      else
        set_condition M ConditionScheduleHealthy ConditionTrue ReasonOnSchedule
          [Lit ''runs landing within schedule + grace''] cjm)"

section \<open>Frame facts\<close>

text \<open>An evaluator writes its own numbers and conditions and leaves the rest of the monitor alone.\<close>

lemma set_condition_frame [simp]:
  "Spec (set_condition M ty st rs ms cjm) = Spec cjm"
  "Namespace (set_condition M ty st rs ms cjm) = Namespace cjm"
  "Name (set_condition M ty st rs ms cjm) = Name cjm"
  "Generation (set_condition M ty st rs ms cjm) = Generation cjm"
  "CreationTimestamp (set_condition M ty st rs ms cjm) = CreationTimestamp cjm"
  "Status (set_condition M ty st rs ms cjm) = (Status cjm)\<lparr>Conditions :=
     SetStatusCondition M (Conditions (Status cjm))
       \<lparr>cType = ty, cStatus = st, cReason = rs, cMessage = ms,
        cObservedGeneration = Generation cjm, cLastTransitionTime = None\<rparr>\<rparr>"
  by (simp_all add: set_condition_def)

section \<open>The contract of the condition helpers\<close>

text \<open>
  \<open>SetStatusCondition\<close> writes the condition of the given type, updating it in place or adding
  it, manages only the transition time itself, and leaves the other types alone;
  \<open>FindStatusCondition\<close> returns the condition of a type.
\<close>

locale condition_store =
  fixes M :: meta_api
  assumes find_set_same: "\<exists>t. FindStatusCondition M (SetStatusCondition M cs c) (cType c)
            = Some (c\<lparr>cLastTransitionTime := t\<rparr>)"
    and find_set_other: "t \<noteq> cType c \<Longrightarrow>
          FindStatusCondition M (SetStatusCondition M cs c) t = FindStatusCondition M cs t"
    and types_set: "cType ` set (SetStatusCondition M cs c) = insert (cType c) (cType ` set cs)"
    and distinct_set: "distinct (map cType cs) \<Longrightarrow> distinct (map cType (SetStatusCondition M cs c))"
    and find_in: "FindStatusCondition M cs t = Some c \<Longrightarrow> c \<in> set cs \<and> cType c = t"
    and find_unique: "distinct (map cType cs) \<Longrightarrow> c \<in> set cs \<Longrightarrow>
          FindStatusCondition M cs (cType c) = Some c"

text \<open>What a reader of a condition sees, the transition time left out.\<close>

definition view :: "Condition \<Rightarrow> ConditionStatus \<times> string \<times> msg \<times> int" where
  "view c = (cStatus c, cReason c, cMessage c, cObservedGeneration c)"

definition axis :: "meta_api \<Rightarrow> CronJobMonitor \<Rightarrow> string \<Rightarrow> (ConditionStatus \<times> string \<times> msg \<times> int) option" where
  "axis M cjm t = map_option view (find_condition M cjm t)"

definition axis_status :: "meta_api \<Rightarrow> CronJobMonitor \<Rightarrow> string \<Rightarrow> ConditionStatus option" where
  "axis_status M cjm t = map_option cStatus (find_condition M cjm t)"

lemma axis_status_axis: "axis_status M cjm t = map_option fst (axis M cjm t)"
  by (cases "find_condition M cjm t") (simp_all add: axis_status_def axis_def view_def)

lemma axis_upd_status [simp]:
  "Conditions (f (Status cjm)) = Conditions (Status cjm) \<Longrightarrow> axis M (upd_status f cjm) t = axis M cjm t"
  by (simp add: axis_def find_condition_def)

context condition_store
begin

lemma axis_set_same [simp]:
  "axis M (set_condition M ty st rs ms cjm) ty = Some (st, rs, ms, Generation cjm)"
  using find_set_same [of "Conditions (Status cjm)" "\<lparr>cType = ty, cStatus = st, cReason = rs,
      cMessage = ms, cObservedGeneration = Generation cjm, cLastTransitionTime = None\<rparr>"]
  by (auto simp: axis_def find_condition_def view_def)

lemma axis_set_other [simp]:
  "t \<noteq> ty \<Longrightarrow> axis M (set_condition M ty st rs ms cjm) t = axis M cjm t"
  by (simp add: axis_def find_condition_def find_set_other)

lemma axis_ScheduleHealthy_other:
  "t \<noteq> ConditionScheduleHealthy \<Longrightarrow> axis M (evaluateScheduleHealthy M cjm m) t = axis M cjm t"
  by (simp add: evaluateScheduleHealthy_def Let_def)

lemma axis_ExecutionHealthy_other:
  "t \<noteq> ConditionExecutionHealthy \<Longrightarrow> axis M (evaluateExecutionHealthy M cjm) t = axis M cjm t"
  by (simp add: evaluateExecutionHealthy_def Let_def split: prod.split)

lemma axis_DurationHealthy_other:
  "t \<noteq> ConditionDurationHealthy \<Longrightarrow> axis M (evaluateDurationHealthy M cjm) t = axis M cjm t"
  by (simp add: evaluateDurationHealthy_def split: prod.split option.split)

lemma axis_Ready_other:
  "t \<noteq> ConditionReady \<Longrightarrow> axis M (evaluateReady M cjm) t = axis M cjm t"
  by (simp add: evaluateReady_def split: prod.split)

end

section \<open>What the loops compute\<close>

definition finished :: "ExecutionRecord list \<Rightarrow> ExecutionRecord list" where
  "finished rs = filter (\<lambda>r. Phase r \<noteq> ExecutionPhaseRunning) rs"

definition failure_streak :: "ExecutionRecord list \<Rightarrow> nat" where
  "failure_streak rs = length (takeWhile (\<lambda>r. Phase r = ExecutionPhaseFailed) (finished rs))"

lemma failure_streak_le: "failure_streak rs \<le> length rs"
  unfolding failure_streak_def finished_def
  by (meson length_filter_le length_takeWhile_le order_trans)

lemma execution_loop_spec:
  "0 \<le> cnt \<Longrightarrow> cnt + int (length rs) < 2 ^ 31 \<Longrightarrow>
   execution_loop rs cnt saw = (cnt + int (failure_streak rs), saw \<or> finished rs \<noteq> [])"
proof (induction rs cnt saw rule: execution_loop.induct)
  case (2 r rs cnt saw)
  have w: "to_int32 (cnt + 1) = cnt + 1" using "2.prems" by (simp add: to_int32_id)
  show ?case
    using 2 by (cases "Phase r") (auto simp: failure_streak_def finished_def w)
qed (simp add: failure_streak_def finished_def)

text \<open>A finished record with a duration is conclusive if it breaks the budget or succeeded.\<close>

definition over_budget :: "int \<Rightarrow> ExecutionRecord \<Rightarrow> bool" where
  "over_budget budget r \<longleftrightarrow>
     (case DurationSeconds r of
        None \<Rightarrow> False
      | Some took \<Rightarrow>
          (Phase r = ExecutionPhaseSucceeded \<and> budget < took)
          \<or> (Phase r = ExecutionPhaseFailed \<and> budget \<le> took))"

definition conclusive :: "int \<Rightarrow> ExecutionRecord \<Rightarrow> bool" where
  "conclusive budget r \<longleftrightarrow>
     over_budget budget r \<or> (Phase r = ExecutionPhaseSucceeded \<and> DurationSeconds r \<noteq> None)"

definition duration_verdict :: "int \<Rightarrow> ExecutionRecord list \<Rightarrow> ConditionStatus \<times> string" where
  "duration_verdict budget rs =
     (case filter (conclusive budget) rs of
        [] \<Rightarrow> (ConditionUnknown, ReasonNoRuns)
      | r # _ \<Rightarrow> if over_budget budget r then (ConditionFalse, ReasonDurationExceeded)
                else (ConditionTrue, ReasonWithinBudget))"

lemma duration_loop_verdict:
  "(fst (duration_loop budget rs subject), fst (snd (duration_loop budget rs subject)))
   = duration_verdict budget rs"
proof (induction budget rs subject rule: duration_loop.induct)
  case (2 budget r rs subject)
  then show ?case
    by (cases "Phase r"; cases "DurationSeconds r")
      (auto simp: duration_verdict_def conclusive_def over_budget_def Let_def)
qed (simp add: duration_verdict_def)

text \<open>The aggregate: the worst status, with the reason of the first axis that has it.\<close>

definition first_axis ::
  "meta_api \<Rightarrow> CronJobMonitor \<Rightarrow> ConditionStatus \<Rightarrow> string list \<Rightarrow> string option" where
  "first_axis M cjm st ts = find (\<lambda>t. axis_status M cjm t = Some st) ts"

definition ready_status :: "meta_api \<Rightarrow> CronJobMonitor \<Rightarrow> string list \<Rightarrow> ConditionStatus" where
  "ready_status M cjm ts =
     (if \<exists>t \<in> set ts. axis_status M cjm t = Some ConditionFalse then ConditionFalse
      else if \<exists>t \<in> set ts. axis_status M cjm t = Some ConditionUnknown then ConditionUnknown
      else ConditionTrue)"

lemma ready_loop_status:
  "st \<noteq> ConditionFalse \<Longrightarrow>
   fst (ready_loop M cjm ts st reason message) =
     (if \<exists>t \<in> set ts. axis_status M cjm t = Some ConditionFalse then ConditionFalse
      else if st = ConditionUnknown \<or> (\<exists>t \<in> set ts. axis_status M cjm t = Some ConditionUnknown)
      then ConditionUnknown else ConditionTrue)"
proof (induction M cjm ts st reason message rule: ready_loop.induct)
  case (1 M cjm st reason message)
  then show ?case by (cases st) auto
next
  case (2 M cjm t ts st reason message)
  show ?case
  proof (cases "find_condition M cjm t")
    case None
    with 2 show ?thesis by (simp add: axis_status_def)
  next
    case (Some c)
    with 2 show ?thesis
      by (cases "cStatus c"; cases st) (auto simp: axis_status_def)
  qed
qed

lemma ready_loop_no_recovery:
  "ready_loop M cjm ts ConditionUnknown reason message \<noteq> (ConditionTrue, rs, ms)"
  using ready_loop_status [of ConditionUnknown M cjm ts reason message] by (auto split: if_splits)

lemma ready_loop_reason:
  "st \<noteq> ConditionFalse \<Longrightarrow> ready_loop M cjm ts st reason message = (st', rs', ms') \<Longrightarrow>
     (if st' = st then rs' = reason \<and> ms' = message
      else \<exists>t c. first_axis M cjm st' ts = Some t \<and> find_condition M cjm t = Some c
             \<and> rs' = cReason c \<and> ms' = Lit t # Lit '': '' # cMessage c)"
proof (induction M cjm ts st reason message rule: ready_loop.induct)
  case (2 M cjm t ts st reason message)
  show ?case
  proof (cases "find_condition M cjm t")
    case None
    then have "first_axis M cjm st' (t # ts) = first_axis M cjm st' ts"
      by (simp add: first_axis_def axis_status_def)
    moreover have "ready_loop M cjm ts st reason message = (st', rs', ms')"
      using "2.prems" None by simp
    ultimately show ?thesis using "2.IH"(1) [OF None "2.prems"(1)]
      by (simp split: if_splits)
  next
    case (Some c)
    with 2 show ?thesis
      by (cases "cStatus c"; cases st)
        (auto simp: first_axis_def axis_status_def ready_loop_no_recovery split: if_splits)
  qed
qed simp

context condition_store
begin

lemma ExecutionHealthy_spec:
  assumes "length (RecentExecutions (Status cjm)) < 2 ^ 31"
  defines "n \<equiv> int (failure_streak (RecentExecutions (Status cjm)))"
    and "cjm' \<equiv> evaluateExecutionHealthy M cjm"
  shows "ConsecutiveFailures (Status cjm') = n"
    and "map_option (\<lambda>(st, rs, _). (st, rs)) (axis M cjm' ConditionExecutionHealthy) = Some
           (if finished (RecentExecutions (Status cjm)) = [] then (ConditionUnknown, ReasonNoRuns)
            else if 0 < MaxConsecutiveFailures (Spec cjm) \<and> MaxConsecutiveFailures (Spec cjm) \<le> n
            then (ConditionFalse, ReasonConsecutiveFailures)
            else (ConditionTrue, ReasonRecentSuccess))"
proof -
  have l: "execution_loop (RecentExecutions (Status cjm)) 0 False
           = (n, finished (RecentExecutions (Status cjm)) \<noteq> [])"
    using assms(1) execution_loop_spec [of 0 "RecentExecutions (Status cjm)" False]
    by (simp add: n_def)
  show "ConsecutiveFailures (Status cjm') = n"
    by (simp add: cjm'_def evaluateExecutionHealthy_def l Let_def)
  show "map_option (\<lambda>(st, rs, _). (st, rs)) (axis M cjm' ConditionExecutionHealthy) = Some
           (if finished (RecentExecutions (Status cjm)) = [] then (ConditionUnknown, ReasonNoRuns)
            else if 0 < MaxConsecutiveFailures (Spec cjm) \<and> MaxConsecutiveFailures (Spec cjm) \<le> n
            then (ConditionFalse, ReasonConsecutiveFailures)
            else (ConditionTrue, ReasonRecentSuccess))"
    by (simp add: cjm'_def evaluateExecutionHealthy_def l Let_def)
qed

lemma DurationHealthy_spec:
  "map_option (\<lambda>(st, rs, _). (st, rs)) (axis M (evaluateDurationHealthy M cjm) ConditionDurationHealthy)
   = Some (case MaxDurationSeconds (Spec cjm) of
             None \<Rightarrow> (ConditionUnknown, ReasonCheckDisabled)
           | Some budget \<Rightarrow> duration_verdict budget (RecentExecutions (Status cjm)))"
  using duration_loop_verdict [of _ "RecentExecutions (Status cjm)" "''last run''"]
  by (auto simp: evaluateDurationHealthy_def split: option.splits prod.splits)
     (metis fst_conv snd_conv)

lemma Ready_spec:
  fixes cjm
  defines "ts \<equiv> [ConditionReconciled, ConditionScheduleHealthy, ConditionExecutionHealthy,
                ConditionDurationHealthy]"
  shows "\<exists>rs ms. axis M (evaluateReady M cjm) ConditionReady
              = Some (ready_status M cjm ts, rs, ms, Generation cjm)
         \<and> (if ready_status M cjm ts = ConditionTrue then rs = ReasonAllChecksPass
            else \<exists>t c. first_axis M cjm (ready_status M cjm ts) ts = Some t
                   \<and> find_condition M cjm t = Some c \<and> rs = cReason c)"
proof -
  obtain st rs ms where r: "ready_loop M cjm ts ConditionTrue ReasonAllChecksPass
      [Lit ''all SLO checks pass''] = (st, rs, ms)"
    by (metis prod_cases3)
  have st: "st = ready_status M cjm ts"
    using ready_loop_status [of ConditionTrue M cjm ts ReasonAllChecksPass
        "[Lit ''all SLO checks pass'']"] r
    by (simp add: ready_status_def)
  have "axis M (evaluateReady M cjm) ConditionReady = Some (st, rs, ms, Generation cjm)"
    using r by (simp add: evaluateReady_def ts_def)
  with st ready_loop_reason [OF _ r] show ?thesis by (auto split: if_splits)
qed

lemma ScheduleHealthy_spec:
  "axis M (evaluateScheduleHealthy M cjm missed) ConditionScheduleHealthy \<noteq> None
   \<and> MissedRuns (Status (evaluateScheduleHealthy M cjm missed)) = missed
   \<and> axis_status M (evaluateScheduleHealthy M cjm missed) ConditionScheduleHealthy
      = Some (if 0 < AlertAfterMissedRuns (Spec cjm) \<and> AlertAfterMissedRuns (Spec cjm) \<le> missed
              then ConditionFalse else ConditionTrue)"
  by (auto simp: evaluateScheduleHealthy_def Let_def axis_status_axis)

end

section \<open>An instance of the condition helpers\<close>

text \<open>The documented behaviour as a function on the list of conditions.\<close>

fun k8s_set :: "gotime \<Rightarrow> Condition list \<Rightarrow> Condition \<Rightarrow> Condition list" where
  "k8s_set now [] c = [c\<lparr>cLastTransitionTime := Some now\<rparr>]"
| "k8s_set now (x # xs) c =
     (if cType x = cType c
      then c\<lparr>cLastTransitionTime :=
               if cStatus x = cStatus c then cLastTransitionTime x else Some now\<rparr> # xs
      else x # k8s_set now xs c)"

definition k8s_meta :: "gotime \<Rightarrow> meta_api" where
  "k8s_meta now = \<lparr>SetStatusCondition = k8s_set now,
                   FindStatusCondition = (\<lambda>cs t. find (\<lambda>c. cType c = t) cs)\<rparr>"

lemma types_k8s_set: "cType ` set (k8s_set now cs c) = insert (cType c) (cType ` set cs)"
  by (induction cs) auto

interpretation k8s: condition_store "k8s_meta now"
proof unfold_locales
  fix cs c and t :: string
  show "\<exists>t. FindStatusCondition (k8s_meta now) (SetStatusCondition (k8s_meta now) cs c) (cType c)
            = Some (c\<lparr>cLastTransitionTime := t\<rparr>)"
    by (simp add: k8s_meta_def) (induction cs; auto)
  show "t \<noteq> cType c \<Longrightarrow> FindStatusCondition (k8s_meta now)
      (SetStatusCondition (k8s_meta now) cs c) t = FindStatusCondition (k8s_meta now) cs t"
    by (simp add: k8s_meta_def) (induction cs; auto)
  show "cType ` set (SetStatusCondition (k8s_meta now) cs c) = insert (cType c) (cType ` set cs)"
    by (simp add: k8s_meta_def types_k8s_set)
  show "distinct (map cType cs) \<Longrightarrow> distinct (map cType (SetStatusCondition (k8s_meta now) cs c))"
    by (simp add: k8s_meta_def, induction cs) (auto simp: types_k8s_set)
  show "FindStatusCondition (k8s_meta now) cs t = Some c \<Longrightarrow> c \<in> set cs \<and> cType c = t"
    by (simp add: k8s_meta_def find_Some_iff) auto
  show "distinct (map cType cs) \<Longrightarrow> c \<in> set cs \<Longrightarrow>
      FindStatusCondition (k8s_meta now) cs (cType c) = Some c"
    by (simp add: k8s_meta_def, induction cs) (auto simp: image_iff)
qed

section \<open>Properties\<close>

text \<open>
  C20. \<open>ExecutionHealthy\<close> is decided by the failure streak: the number of failed runs before the
  first success, newest first, Running records passed over. The streak is stored, a ring with no
  finished run is Unknown, and otherwise the condition is False exactly if the streak has reached
  the (positive) threshold.
\<close>

theorem ExecutionHealthy_by_streak:
  assumes "condition_store M"
    and "length (RecentExecutions (Status cjm)) < 2 ^ 31"
  shows "ConsecutiveFailures (Status (evaluateExecutionHealthy M cjm))
           = int (failure_streak (RecentExecutions (Status cjm)))
     \<and> axis_status M (evaluateExecutionHealthy M cjm) ConditionExecutionHealthy = Some
         (if finished (RecentExecutions (Status cjm)) = [] then ConditionUnknown
          else if 0 < MaxConsecutiveFailures (Spec cjm)
            \<and> MaxConsecutiveFailures (Spec cjm) \<le> int (failure_streak (RecentExecutions (Status cjm)))
          then ConditionFalse else ConditionTrue)"
  using condition_store.ExecutionHealthy_spec [OF assms]
  by (auto simp: axis_status_axis map_option_eq_Some split: if_splits)

definition sample_spec :: "int option \<Rightarrow> CronJobMonitorSpec" where
  "sample_spec budget = \<lparr>CronJobRef = ''nightly'', SpecScheduleExpr = ''0 0 29 2 *'', SpecTimeZone = [],
     MaxDurationSeconds = budget, MaxConsecutiveFailures = 2, AlertAfterMissedRuns = 2,
     GracePeriodSeconds = 60, HistoryLimit = 10\<rparr>"

definition sample_monitor :: "int option \<Rightarrow> ExecutionRecord list \<Rightarrow> CronJobMonitor" where
  "sample_monitor budget rs = \<lparr>Namespace = ''ns'', Name = ''mon'', Generation = 3,
     CreationTimestamp = GoTime 0 time_UTC, Spec = sample_spec budget,
     Status = \<lparr>ObservedGeneration = 0, Conditions = [], ResolvedSchedule = None,
       ResolvedTimeZone = None, LastScheduleTime = None, LastSuccessTime = None,
       LastFailureTime = None, NextExpectedTime = None, ConsecutiveFailures = 0, MissedRuns = 0,
       ScheduleDriftSeconds = 0, RecentExecutions = rs\<rparr>\<rparr>"

theorem ExecutionHealthy_by_streak_witness:
  "axis_status (k8s_meta zero_time) (evaluateExecutionHealthy (k8s_meta zero_time)
     (sample_monitor None [sample_record ''c'' 30 ExecutionPhaseRunning,
        sample_record ''b'' 20 ExecutionPhaseFailed, sample_record ''a'' 10 ExecutionPhaseFailed]))
     ConditionExecutionHealthy = Some ConditionFalse"
  using ExecutionHealthy_by_streak [OF k8s.condition_store_axioms, of
      "sample_monitor None [sample_record ''c'' 30 ExecutionPhaseRunning,
        sample_record ''b'' 20 ExecutionPhaseFailed, sample_record ''a'' 10 ExecutionPhaseFailed]"]
  by (simp add: sample_monitor_def sample_spec_def finished_def failure_streak_def)

text \<open>
  C21. \<open>DurationHealthy\<close> is decided by the newest conclusive run. A failed run within the budget
  proves nothing and is passed over, a failed run at or over the budget and a successful run over
  it are breaches, and without a conclusive run, or without a budget, the condition is Unknown.
\<close>

theorem DurationHealthy_by_newest_conclusive:
  assumes "condition_store M"
  shows "axis_status M (evaluateDurationHealthy M cjm) ConditionDurationHealthy = Some
    (case MaxDurationSeconds (Spec cjm) of
       None \<Rightarrow> ConditionUnknown
     | Some budget \<Rightarrow>
         (case filter (conclusive budget) (RecentExecutions (Status cjm)) of
            [] \<Rightarrow> ConditionUnknown
          | r # _ \<Rightarrow> if over_budget budget r then ConditionFalse else ConditionTrue))"
proof -
  have "map_option fst (map_option (\<lambda>(st, rs, _). (st, rs)) (axis M (evaluateDurationHealthy M cjm)
            ConditionDurationHealthy))
        = axis_status M (evaluateDurationHealthy M cjm) ConditionDurationHealthy"
    by (auto simp: axis_status_axis option.map_comp comp_def case_prod_beta)
  then show ?thesis
    using condition_store.DurationHealthy_spec [OF assms, of cjm]
    by (auto simp: duration_verdict_def split: option.splits list.splits)
qed

theorem DurationHealthy_by_newest_conclusive_witness:
  "axis_status (k8s_meta zero_time) (evaluateDurationHealthy (k8s_meta zero_time)
     (sample_monitor (Some 60)
        [(sample_record ''b'' 20 ExecutionPhaseFailed)\<lparr>DurationSeconds := Some 5\<rparr>,
         (sample_record ''a'' 10 ExecutionPhaseSucceeded)\<lparr>DurationSeconds := Some 61\<rparr>]))
     ConditionDurationHealthy = Some ConditionFalse"
  using DurationHealthy_by_newest_conclusive [OF k8s.condition_store_axioms, of zero_time
      "sample_monitor (Some 60)
        [(sample_record ''b'' 20 ExecutionPhaseFailed)\<lparr>DurationSeconds := Some 5\<rparr>,
         (sample_record ''a'' 10 ExecutionPhaseSucceeded)\<lparr>DurationSeconds := Some 61\<rparr>]"]
  by (simp add: sample_monitor_def sample_spec_def conclusive_def over_budget_def sample_record_def)

text \<open>
  C19. \<open>Ready\<close> aggregates the four axes: False if one is False, else Unknown if one is Unknown,
  else True with \<open>AllChecksPass\<close>. Its reason is that of the first axis with the aggregate status,
  its observed generation is the monitor's, and the axes themselves are left as they were.
\<close>

theorem Ready_aggregates:
  assumes "condition_store M"
  defines "ts \<equiv> [ConditionReconciled, ConditionScheduleHealthy, ConditionExecutionHealthy,
                ConditionDurationHealthy]"
  shows "(\<exists>rs ms. axis M (evaluateReady M cjm) ConditionReady
              = Some (ready_status M cjm ts, rs, ms, Generation cjm)
         \<and> (if ready_status M cjm ts = ConditionTrue then rs = ReasonAllChecksPass
            else \<exists>t c. first_axis M cjm (ready_status M cjm ts) ts = Some t
                   \<and> find_condition M cjm t = Some c \<and> rs = cReason c))
     \<and> (\<forall>t \<in> set ts. axis M (evaluateReady M cjm) t = axis M cjm t)"
  using condition_store.Ready_spec [OF assms(1), of cjm]
    condition_store.axis_Ready_other [OF assms(1), of _ cjm]
  unfolding ts_def by simp

theorem Ready_aggregates_witness:
  "\<exists>ms. axis (k8s_meta zero_time) (evaluateReady (k8s_meta zero_time)
     (evaluateDurationHealthy (k8s_meta zero_time) (sample_monitor None []))) ConditionReady
     = Some (ConditionUnknown, ReasonCheckDisabled, ms, 3)"
proof -
  let ?M = "k8s_meta zero_time"
  let ?m = "evaluateDurationHealthy ?M (sample_monitor None [])"
  let ?ts = "[ConditionReconciled, ConditionScheduleHealthy, ConditionExecutionHealthy,
              ConditionDurationHealthy]"
  have f: "find_condition ?M ?m t = (if t = ConditionDurationHealthy then Some
      \<lparr>cType = ConditionDurationHealthy, cStatus = ConditionUnknown, cReason = ReasonCheckDisabled,
       cMessage = [Lit ''maxDurationSeconds is unset''], cObservedGeneration = 3,
       cLastTransitionTime = Some zero_time\<rparr> else None)" for t
    by (simp add: evaluateDurationHealthy_def sample_monitor_def sample_spec_def find_condition_def
        k8s_meta_def)
  have r: "ready_status ?M ?m ?ts = ConditionUnknown"
    by (simp add: ready_status_def axis_status_def f)
  have "first_axis ?M ?m ConditionUnknown ?ts = Some ConditionDurationHealthy"
    by (simp add: first_axis_def axis_status_def f)
  moreover have "Generation ?m = 3"
    by (simp add: evaluateDurationHealthy_def sample_monitor_def sample_spec_def)
  ultimately show ?thesis
    using Ready_aggregates [OF k8s.condition_store_axioms, of zero_time ?m]
    by (auto simp: r f)
qed

end
