(* ===== verification/Metric_Vecs.thy ===== *)
theory Metric_Vecs
  imports Cond_Eval
begin

text \<open>
  \<open>internal/metrics/reconcile.go\<close>: the three metric vectors the reconciler writes itself. A
  vector is the map from label values to a child; a child exists from its first use until its
  label values are deleted. The counters are float64 in the client library; the model counts with
  \<open>int\<close>, which agrees below 2^53. The library's own code is not modelled beyond that.
  The effects of a reconcile (events, status writes, metric updates) are recorded in the order the
  code performs them; \<open>observe_all\<close> replays the metric part on the registry.
\<close>

section \<open>Result labels\<close>

definition ResultSuccess :: string where "ResultSuccess = ''success''"
definition ResultError :: string where "ResultError = ''error''"
definition ResultRequeue :: string where "ResultRequeue = ''requeue''"

lemmas result_defs = ResultSuccess_def ResultError_def ResultRequeue_def

lemma results_distinct [simp]:
  "ResultSuccess \<noteq> ResultError" "ResultSuccess \<noteq> ResultRequeue" "ResultError \<noteq> ResultRequeue"
  "ResultError \<noteq> ResultSuccess" "ResultRequeue \<noteq> ResultSuccess" "ResultRequeue \<noteq> ResultError"
  by (simp_all add: result_defs)

section \<open>Effects\<close>

datatype event_type = EventTypeNormal | EventTypeWarning

datatype effect =
    Event event_type string msg
  | StatusUpdate CronJobMonitor
  | MissedRunsTotal_Add key int
  | MissedRunsTotal_Delete key
  | ReconcileTotal_Inc key string
  | ReconcileTotal_Delete key string
  | ReconcileDuration_Observe key rat
  | ReconcileDuration_Delete key

section \<open>The registry\<close>

record registry =
  MissedRunsTotal :: "key \<rightharpoonup> int"
  ReconcileTotal :: "key \<times> string \<rightharpoonup> int"
  ReconcileDurationSeconds :: "key \<rightharpoonup> rat list"

definition empty_registry :: registry where
  "empty_registry = \<lparr>MissedRunsTotal = Map.empty, ReconcileTotal = Map.empty,
                     ReconcileDurationSeconds = Map.empty\<rparr>"

fun observe_effect :: "effect \<Rightarrow> registry \<Rightarrow> registry" where
  "observe_effect (MissedRunsTotal_Add k n) g =
     g\<lparr>MissedRunsTotal := (MissedRunsTotal g)(k \<mapsto>
         (case MissedRunsTotal g k of None \<Rightarrow> 0 | Some v \<Rightarrow> v) + n)\<rparr>"
| "observe_effect (MissedRunsTotal_Delete k) g =
     g\<lparr>MissedRunsTotal := (MissedRunsTotal g)(k := None)\<rparr>"
| "observe_effect (ReconcileTotal_Inc k l) g =
     g\<lparr>ReconcileTotal := (ReconcileTotal g)((k, l) \<mapsto>
         (case ReconcileTotal g (k, l) of None \<Rightarrow> 0 | Some v \<Rightarrow> v) + 1)\<rparr>"
| "observe_effect (ReconcileTotal_Delete k l) g =
     g\<lparr>ReconcileTotal := (ReconcileTotal g)((k, l) := None)\<rparr>"
| "observe_effect (ReconcileDuration_Observe k d) g =
     g\<lparr>ReconcileDurationSeconds := (ReconcileDurationSeconds g)(k \<mapsto>
         (case ReconcileDurationSeconds g k of None \<Rightarrow> [] | Some ds \<Rightarrow> ds) @ [d])\<rparr>"
| "observe_effect (ReconcileDuration_Delete k) g =
     g\<lparr>ReconcileDurationSeconds := (ReconcileDurationSeconds g)(k := None)\<rparr>"
| "observe_effect (Event ty reason message) g = g"
| "observe_effect (StatusUpdate cjm) g = g"

fun observe_all :: "effect list \<Rightarrow> registry \<Rightarrow> registry" where
  "observe_all [] g = g"
| "observe_all (e # es) g = observe_all es (observe_effect e g)"

lemma observe_all_append [simp]: "observe_all (xs @ ys) g = observe_all ys (observe_all xs g)"
  by (induction xs g rule: observe_all.induct) simp_all

section \<open>Reading a trace\<close>

text \<open>The events, the status writes and the counter increments of a trace, in order.\<close>

fun events :: "effect list \<Rightarrow> (event_type \<times> string \<times> msg) list" where
  "events [] = []"
| "events (Event ty r m # es) = (ty, r, m) # events es"
| "events (_ # es) = events es"

fun status_writes :: "effect list \<Rightarrow> CronJobMonitor list" where
  "status_writes [] = []"
| "status_writes (StatusUpdate c # es) = c # status_writes es"
| "status_writes (_ # es) = status_writes es"

fun emitted :: "effect list \<Rightarrow> (key \<times> int) list" where
  "emitted [] = []"
| "emitted (MissedRunsTotal_Add k n # es) = (k, n) # emitted es"
| "emitted (_ # es) = emitted es"

fun is_event :: "effect \<Rightarrow> bool" where
  "is_event (Event ty r m) = True"
| "is_event _ = False"

lemma events_append [simp]: "events (xs @ ys) = events xs @ events ys"
  by (induction xs rule: events.induct) simp_all

lemma status_writes_append [simp]: "status_writes (xs @ ys) = status_writes xs @ status_writes ys"
  by (induction xs rule: status_writes.induct) simp_all

lemma emitted_append [simp]: "emitted (xs @ ys) = emitted xs @ emitted ys"
  by (induction xs rule: emitted.induct) simp_all

lemma trace_of_events [simp]:
  assumes "list_all is_event es"
  shows "status_writes es = []" "emitted es = []" "observe_all es g = g"
proof -
  have "list_all is_event es \<Longrightarrow> status_writes es = [] \<and> emitted es = [] \<and> (\<forall>g. observe_all es g = g)"
  proof (induction es)
    case (Cons e es)
    then show ?case by (cases e) simp_all
  qed simp
  with assms show "status_writes es = []" "emitted es = []" "observe_all es g = g" by simp_all
qed

end
