(* ===== verification/Cron_Schedule.thy ===== *)
theory Cron_Schedule
  imports Go_Time
begin

text \<open>
  \<open>internal/schedule/schedule.go\<close>: parsing a cron expression into a schedule, the next and the
  previous slot, drift and the missed-run count. The cron library is outside the repository: its
  parser and the \<open>Next\<close> of a parsed expression are arguments of the model. The locale
  \<open>cron_slots\<close> states what the package relies on; every loop terminates without it.
\<close>

section \<open>The cron library\<close>

text \<open>
  A \<open>cron.Schedule\<close> is known by its \<open>Next\<close> and by the type switch the package does on it:
  a \<open>SpecSchedule\<close> carries a location (a pointer that may be nil).
\<close>

datatype cron_schedule =
    SpecSchedule "gotime \<Rightarrow> gotime" "location option"
  | ConstantDelaySchedule "gotime \<Rightarrow> gotime"
  | OtherSchedule "gotime \<Rightarrow> gotime"

fun cron_Next :: "cron_schedule \<Rightarrow> gotime \<Rightarrow> gotime" where
  "cron_Next (SpecSchedule f l) = f"
| "cron_Next (ConstantDelaySchedule f) = f"
| "cron_Next (OtherSchedule f) = f"

datatype parse_outcome = Parsed cron_schedule | Rejected go_error | Panicked

type_synonym cron_parser = "string \<Rightarrow> parse_outcome"

section \<open>Parsing\<close>

datatype Schedule = Schedule (expr: cron_schedule)

definition HasPrefix :: "string \<Rightarrow> string \<Rightarrow> bool" where
  "HasPrefix s p \<longleftrightarrow> take (length p) s = p"

definition parse :: "cron_parser \<Rightarrow> string \<Rightarrow> go_error + cron_schedule" where
  "parse parser e =
     (case parser e of
        Parsed s \<Rightarrow> Inr s
      | Rejected err \<Rightarrow> Inl err
      | Panicked \<Rightarrow>
          Inl (ErrWrap ''%w: a CRON_TZ=/TZ= prefix must be followed by a space and a cron expression''
                 [] ErrMalformed))"

definition ParseInLocation ::
  "cron_parser \<Rightarrow> string \<Rightarrow> location option \<Rightarrow> go_error + Schedule" where
  "ParseInLocation parser e loc =
     (if e = [] then Inl ErrEmpty
      else
        let fullExpr =
              (if \<not> HasPrefix e ''CRON_TZ='' \<and> \<not> HasPrefix e ''TZ=''
               then ''CRON_TZ='' @ loc_name (case loc of None \<Rightarrow> time_UTC | Some l \<Rightarrow> l) @ '' '' @ e
               else e)
        in case parse parser fullExpr of
             Inl err \<Rightarrow> Inl (ErrWrap ''schedule: parse %q: %w'' [e] err)
           | Inr s \<Rightarrow>
               (case s of
                  ConstantDelaySchedule f \<Rightarrow>
                    Inl (ErrWrap ''schedule: parse %q: %w'' [e] ErrRelativeSchedule)
                | _ \<Rightarrow> Inr (Schedule s)))"

definition Parse :: "cron_parser \<Rightarrow> string \<Rightarrow> go_error + Schedule" where
  "Parse parser e = ParseInLocation parser e (Some time_UTC)"

section \<open>Slots\<close>

definition Next :: "Schedule \<Rightarrow> gotime \<Rightarrow> gotime" where
  "Next s from = cron_Next (expr s) from"

definition robfigReachYears :: int where
  "robfigReachYears = 5"

definition prevLookbackYears :: int where
  "prevLookbackYears = 9"

definition schedule_location :: "Schedule \<Rightarrow> location" where
  "schedule_location s =
     (case expr s of SpecSchedule f (Some l) \<Rightarrow> l | _ \<Rightarrow> time_UTC)"

definition reachFrom :: "gotime \<Rightarrow> location \<Rightarrow> gotime" where
  "reachFrom x loc =
     (let year = Year (In x loc);
          year = (if is_local loc \<and> Year x < year then Year x else year)
      in Date (year + robfigReachYears) 12 31 0 0 loc)"

text \<open>The bound always lies after its argument: what makes every ladder of strides climb.\<close>

lemma reachFrom_gt: "ns x < ns (reachFrom x loc)"
proof -
  obtain y l where y: "reachFrom x loc = Date (y + 5) 12 31 0 0 loc" "y = Year (In x l)"
  proof (cases "is_local loc \<and> Year x < Year (In x loc)")
    case True
    then have "reachFrom x loc = Date (Year (In x (zone x)) + 5) 12 31 0 0 loc"
      by (cases x) (simp add: reachFrom_def robfigReachYears_def In_def)
    then show ?thesis using that by blast
  next
    case False
    then have "reachFrom x loc = Date (Year (In x loc) + 5) 12 31 0 0 loc"
      by (auto simp: reachFrom_def robfigReachYears_def)
    then show ?thesis using that by blast
  qed
  define w where "w = (days_before (y + 5) + month_start (leap (y + 5)) 12 + 30 - epoch_day) * 86400"
  have "unix_sec x < wall (In x l) + 86400"
    using wall_bounds [of "In x l"] by (simp add: unix_sec_def In_def)
  moreover have "wall (In x l) < (days_before (y + 1) - epoch_day) * 86400"
    using Year_bounds(2) [of "In x l"] y by simp
  moreover have "days_before (y + 1) + 4 * 365 \<le> days_before (y + 5)"
    using days_before_add [of 4 "y + 1"] by (simp add: add.assoc)
  moreover have "0 \<le> month_start (leap (y + 5)) 12" by (simp add: month_start_def)
  ultimately have "unix_sec x + 1 < w - 86400" by (simp add: w_def algebra_simps)
  also have "w - 86400 < unix_of_wall loc w" using unix_of_wall_bounds by blast
  finally have "(unix_sec x + 1) * Second < unix_of_wall loc w * Second" by simp
  with unix_sec_bounds(2) [of x] have "ns x < unix_of_wall loc w * Second" by (rule less_trans)
  then show ?thesis by (simp add: y Date_def w_def)
qed

function NextSlot_loop :: "Schedule \<Rightarrow> location \<Rightarrow> gotime \<Rightarrow> gotime \<Rightarrow> gotime \<times> bool" where
  "NextSlot_loop s loc limit x =
     (let n = cron_Next (expr s) x in
      if \<not> IsZero n then (n, True)
      else
        let covered = reachFrom x loc in
        if \<not> Before covered limit then (zero_time, False)
        else NextSlot_loop s loc limit covered)"
  by pat_completeness auto
termination
  by (relation "measure (\<lambda>(s, loc, limit, x). nat (ns limit - ns x))")
    (auto simp: Before_def reachFrom_gt intro: less_trans [OF reachFrom_gt])

definition NextSlot :: "Schedule \<Rightarrow> gotime \<Rightarrow> gotime \<times> bool" where
  "NextSlot s from =
     (let loc = schedule_location s;
          limit = AddDate (In from loc) prevLookbackYears
      in NextSlot_loop s loc limit from)"

function noSlotInRange :: "Schedule \<Rightarrow> location \<Rightarrow> gotime \<Rightarrow> gotime \<Rightarrow> bool" where
  "noSlotInRange s loc x t =
     (let n = cron_Next (expr s) x in
      if \<not> IsZero n then After n t
      else
        let covered = reachFrom x loc in
        if \<not> Before covered t then True
        else noSlotInRange s loc covered t)"
  by pat_completeness auto
termination
  by (relation "measure (\<lambda>(s, loc, x, t). nat (ns t - ns x))")
    (auto simp: Before_def reachFrom_gt intro: less_trans [OF reachFrom_gt])

partial_function (option) Prev_loop ::
  "Schedule \<Rightarrow> location \<Rightarrow> gotime \<Rightarrow> gotime \<Rightarrow> gotime \<Rightarrow> gotime option" where
  "Prev_loop s loc t lo hi =
     (if Second < Sub hi lo then
        (let mid = Truncate (TimeAdd lo (Sub hi lo sdiv 2)) Second in
         if noSlotInRange s loc mid t then Prev_loop s loc t lo mid
         else Prev_loop s loc t mid hi)
      else Some lo)"

definition Prev :: "Schedule \<Rightarrow> gotime \<Rightarrow> (gotime \<times> bool) option" where
  "Prev s t =
     (let loc = schedule_location s;
          year = Year (In t loc) in
      if year \<le> prevLookbackYears then Some (zero_time, False)
      else
        let t = Truncate t Second;
            floor = Date (year - prevLookbackYears) 1 1 0 0 loc in
        if noSlotInRange s loc floor t then Some (zero_time, False)
        else
          (case Prev_loop s loc t floor t of
             None \<Rightarrow> None
           | Some lo \<Rightarrow> Some (cron_Next (expr s) lo, True)))"

definition Drift :: "gotime \<Rightarrow> gotime \<Rightarrow> duration" where
  "Drift actual expected = Sub actual expected"

function MissedRuns_loop :: "Schedule \<Rightarrow> location \<Rightarrow> gotime \<Rightarrow> int \<Rightarrow> gotime \<Rightarrow> int" where
  "MissedRuns_loop s loc horizon cnt cursor =
     (let n = cron_Next (expr s) cursor in
      if IsZero n then
        let covered = reachFrom cursor loc in
        if \<not> Before covered horizon then cnt
        else MissedRuns_loop s loc horizon cnt covered
      else if After n horizon then cnt
      else
        let cnt' = cnt + 1 in
        if cnt' > 100000 then cnt'
        else MissedRuns_loop s loc horizon cnt' n)"
  by pat_completeness auto
termination
  by (relation "measures [\<lambda>(s, loc, horizon, cnt, cursor). nat (100001 - cnt),
                          \<lambda>(s, loc, horizon, cnt, cursor). nat (ns horizon - ns cursor)]")
    (auto simp: Before_def reachFrom_gt intro: less_trans [OF reachFrom_gt])

definition MissedRunsSince :: "Schedule \<Rightarrow> gotime \<Rightarrow> gotime \<Rightarrow> duration \<Rightarrow> int" where
  "MissedRunsSince s lastStart now grace =
     (let horizon = TimeAdd now (- grace) in
      if \<not> After horizon lastStart then 0
      else MissedRuns_loop s (schedule_location s) horizon 0 lastStart)"

declare NextSlot_loop.simps [simp del] noSlotInRange.simps [simp del] MissedRuns_loop.simps [simp del]

section \<open>Facts that hold for every cron library\<close>

text \<open>The safety rail bounds the count whatever \<open>Next\<close> answers.\<close>

lemma MissedRuns_loop_bounds:
  "0 \<le> cnt \<Longrightarrow> cnt \<le> 100000 \<Longrightarrow>
     cnt \<le> MissedRuns_loop s loc horizon cnt cursor
     \<and> MissedRuns_loop s loc horizon cnt cursor \<le> 100001"
proof (induction s loc horizon cnt cursor rule: MissedRuns_loop.induct)
  case (1 s loc horizon cnt cursor)
  let ?n = "cron_Next (expr s) cursor"
  show ?case
  proof (cases "IsZero ?n")
    case True
    with 1 show ?thesis
      by (subst (1 2) MissedRuns_loop.simps) (simp add: Let_def)
  next
    case False
    show ?thesis
    proof (cases "After ?n horizon \<or> cnt = 100000")
      case True
      with 1(3,4) False show ?thesis
        by (subst (1 2) MissedRuns_loop.simps) (auto simp: Let_def)
    next
      case nr: False
      with 1(4) have c: "\<not> cnt + 1 > 100000" by simp
      with 1(2) [OF refl False] nr 1(3)
      have "cnt + 1 \<le> MissedRuns_loop s loc horizon (cnt + 1) ?n
            \<and> MissedRuns_loop s loc horizon (cnt + 1) ?n \<le> 100001"
        by simp
      with False nr c show ?thesis
        by (subst (1 2) MissedRuns_loop.simps) (simp add: Let_def)
    qed
  qed
qed

lemma MissedRunsSince_bounds:
  "0 \<le> MissedRunsSince s lastStart now grace \<and> MissedRunsSince s lastStart now grace \<le> 100001"
  using MissedRuns_loop_bounds [of 0 s "schedule_location s" "TimeAdd now (- grace)" lastStart]
  by (simp add: MissedRunsSince_def Let_def)

lemma reachFrom_whole: "Second dvd ns (reachFrom x loc)"
  unfolding reachFrom_def Let_def by (rule Date_whole)

text \<open>
  The midpoint of the bisection: between whole seconds at least two apart it lies strictly
  inside, so each round shortens the interval.
\<close>

lemma whole_gap:
  assumes "Second dvd a" "Second dvd b" "a < b"
  shows "a + Second \<le> b"
proof -
  from assms obtain i j where "a = Second * i" "b = Second * j" by blast
  with assms(3) have "i < j" by simp
  then have "Second * (i + 1) \<le> Second * j" by (intro mult_left_mono) auto
  with \<open>a = _\<close> \<open>b = _\<close> show ?thesis by (simp add: algebra_simps)
qed

lemma bisect_mid:
  assumes "Second dvd ns lo" "Second dvd ns hi" "Second < Sub hi lo" "ns hi - ns lo < 2 ^ 63"
  defines "mid \<equiv> Truncate (TimeAdd lo (Sub hi lo sdiv 2)) Second"
  shows "Second dvd ns mid" "ns lo < ns mid" "ns mid < ns hi"
proof -
  have d: "Sub hi lo = ns hi - ns lo" "Second < ns hi - ns lo"
    using assms(3,4) by (auto simp: Sub_def Second_def split: if_splits)
  then have h: "Sub hi lo sdiv 2 = (ns hi - ns lo) div 2"
    using Second_pos(1) by (simp add: signed_divide_int_def del: Second_pos)
  show "Second dvd ns mid" unfolding mid_def by (rule ns_Truncate_whole)
  have "ns lo < ns hi" using d(2) Second_pos(1) by linarith
  with assms(1,2) have "ns lo + Second \<le> ns hi" by (intro whole_gap)
  moreover have "ns lo + Second \<noteq> ns hi" using d by simp
  ultimately have "ns lo + Second + Second \<le> ns hi"
    by (intro whole_gap) (use assms in auto)
  then have "ns lo + Second \<le> ns lo + (ns hi - ns lo) div 2" by simp
  moreover have "ns lo + (ns hi - ns lo) div 2 < ns mid + Second"
    unfolding mid_def h using Truncate_bounds(2) [of "TimeAdd lo ((ns hi - ns lo) div 2)"]
    by (simp add: TimeAdd_def)
  ultimately show "ns lo < ns mid" by simp
  have "ns mid \<le> ns lo + (ns hi - ns lo) div 2"
    unfolding mid_def h using Truncate_bounds(1) [of "TimeAdd lo ((ns hi - ns lo) div 2)"]
    by (simp add: TimeAdd_def)
  with d(2) \<open>ns lo < ns hi\<close> show "ns mid < ns hi" by linarith
qed

lemma Prev_loop_result:
  assumes "Second dvd ns lo" "Second dvd ns hi" "ns lo \<le> ns hi" "ns hi - ns lo < 2 ^ 63"
    and "\<not> noSlotInRange s loc lo t"
  shows "\<exists>lo' hi'. Prev_loop s loc t lo hi = Some lo' \<and> Second dvd ns lo' \<and> ns lo \<le> ns lo'
           \<and> \<not> noSlotInRange s loc lo' t \<and> (hi' = hi \<or> noSlotInRange s loc hi' t)
           \<and> ns hi' \<le> ns lo' + Second"
  using assms
proof (induction "nat (ns hi - ns lo)" arbitrary: lo hi rule: less_induct)
  case less
  show ?case
  proof (cases "Second < Sub hi lo")
    case False
    with less.prems have "ns hi \<le> ns lo + Second"
      by (auto simp: Sub_def Second_def split: if_splits)
    with False less.prems show ?thesis
      by (subst Prev_loop.simps) auto
  next
    case True
    define mid where "mid = Truncate (TimeAdd lo (Sub hi lo sdiv 2)) Second"
    note m = bisect_mid [OF less.prems(1,2) True less.prems(4), folded mid_def]
    show ?thesis
    proof (cases "noSlotInRange s loc mid t")
      case P: True
      have "Prev_loop s loc t lo hi = Prev_loop s loc t lo mid"
        using True P by (subst Prev_loop.simps) (simp add: mid_def Let_def)
      moreover from less.hyps [of mid lo] m less.prems P
      obtain lo' hi' where "Prev_loop s loc t lo mid = Some lo'" "Second dvd ns lo'"
        "ns lo \<le> ns lo'" "\<not> noSlotInRange s loc lo' t"
        "hi' = mid \<or> noSlotInRange s loc hi' t" "ns hi' \<le> ns lo' + Second"
        by auto
      ultimately show ?thesis using P by metis
    next
      case P: False
      have "Prev_loop s loc t lo hi = Prev_loop s loc t mid hi"
        using True P by (subst Prev_loop.simps) (simp add: mid_def Let_def)
      moreover from less.hyps [of hi mid] m less.prems P
      obtain lo' hi' where "Prev_loop s loc t mid hi = Some lo'" "Second dvd ns lo'"
        "ns mid \<le> ns lo'" "\<not> noSlotInRange s loc lo' t"
        "hi' = hi \<or> noSlotInRange s loc hi' t" "ns hi' \<le> ns lo' + Second"
        by auto
      moreover from this m have "ns lo \<le> ns lo'" by simp
      ultimately show ?thesis by metis
    qed
  qed
qed

definition prev_floor :: "Schedule \<Rightarrow> gotime \<Rightarrow> gotime" where
  "prev_floor s t =
     Date (Year (In t (schedule_location s)) - prevLookbackYears) 1 1 0 0 (schedule_location s)"

text \<open>The search window is at least eight and at most eleven years wide, far below an int64.\<close>

lemma prev_floor_window:
  "ns (prev_floor s t) < ns (Truncate t Second)"
  "ns (Truncate t Second) - ns (prev_floor s t) < 2 ^ 63"
  "ns (Truncate t Second) - ns (prev_floor s t) < 400000000 * Second"
proof -
  define l where "l = schedule_location s"
  define y where "y = Year (In t l)"
  define w where "w = (days_before (y - 9) - epoch_day) * 86400"
  have f: "ns (prev_floor s t) = unix_of_wall l w * Second"
    by (simp add: prev_floor_def l_def y_def w_def Date_def prevLookbackYears_def month_start_def)
  have u: "unix_sec t = unix_sec (In t l)" by (simp add: unix_sec_def In_def)
  have w9: "days_before (y - 9) + 9 * 365 \<le> days_before y" "days_before (y + 1) \<le> days_before (y - 9) + 10 * 366"
    using days_before_add [of 9 "y - 9"] days_before_add_le [of "y - 9" 10]
    by (simp_all add: add.commute)
  have lo: "unix_of_wall l w + 1 < unix_sec t"
    using wall_bounds [of "In t l"] Year_bounds(1) [of "In t l"] unix_of_wall_bounds [of w l] w9
    by (simp add: u y_def [symmetric] w_def algebra_simps)
  have hi: "unix_sec t + 1 < unix_of_wall l w + 400000000"
    using wall_bounds [of "In t l"] Year_bounds(2) [of "In t l"] unix_of_wall_bounds [of w l] w9
    by (simp add: u y_def [symmetric] w_def algebra_simps)
  have tr: "ns (Truncate t Second) = unix_sec t * Second"
    by (simp add: Truncate_Second unix_sec_def minus_mod_eq_div_mult)
  show "ns (prev_floor s t) < ns (Truncate t Second)" using lo by (simp add: f tr)
  have "(unix_sec t - unix_of_wall l w) * Second < 400000000 * Second" using hi by simp
  then show "ns (Truncate t Second) - ns (prev_floor s t) < 400000000 * Second"
    by (simp only: f tr left_diff_distrib)
  also have "400000000 * Second < 2 ^ 63" by (simp add: Second_def)
  finally show "ns (Truncate t Second) - ns (prev_floor s t) < 2 ^ 63" .
qed

lemma Prev_cases:
  "Prev s t = Some (zero_time, False)
     \<and> (Year (In t (schedule_location s)) \<le> prevLookbackYears
        \<or> noSlotInRange s (schedule_location s) (prev_floor s t) (Truncate t Second))
   \<or> (\<exists>lo hi. Prev s t = Some (cron_Next (expr s) lo, True)
        \<and> Second dvd ns lo \<and> ns (prev_floor s t) \<le> ns lo
        \<and> \<not> noSlotInRange s (schedule_location s) lo (Truncate t Second)
        \<and> (hi = Truncate t Second
            \<or> noSlotInRange s (schedule_location s) hi (Truncate t Second))
        \<and> ns hi \<le> ns lo + Second)"
proof (cases "Year (In t (schedule_location s)) \<le> prevLookbackYears
        \<or> noSlotInRange s (schedule_location s) (prev_floor s t) (Truncate t Second)")
  case True
  then show ?thesis by (auto simp: Prev_def Let_def prev_floor_def)
next
  case False
  then obtain lo hi where
    "Prev_loop s (schedule_location s) (Truncate t Second) (prev_floor s t) (Truncate t Second)
       = Some lo" and r: "Second dvd ns lo" "ns (prev_floor s t) \<le> ns lo"
      "\<not> noSlotInRange s (schedule_location s) lo (Truncate t Second)"
      "hi = Truncate t Second \<or> noSlotInRange s (schedule_location s) hi (Truncate t Second)"
      "ns hi \<le> ns lo + Second"
    using Prev_loop_result [of "prev_floor s t" "Truncate t Second" s "schedule_location s"
        "Truncate t Second"] prev_floor_window(1,2) [where s = s and t = t] ns_Truncate_whole [of t]
    by (auto simp: prev_floor_def Date_whole)
  then have "Prev s t = Some (cron_Next (expr s) lo, True)"
    using False by (simp add: Prev_def Let_def prev_floor_def)
  with r show ?thesis by blast
qed

section \<open>Correctness against the set of slots\<close>

text \<open>
  What the package relies on of the cron library: a non-zero \<open>Next\<close> is the first slot strictly
  after its argument; a zero \<open>Next\<close> says only that no slot has a calendar year, in the
  schedule's zone, within five of the argument's; slots are whole seconds. The zone is a named
  one, and no two of its offsets are a whole day apart (no move across the date line).

  What is left out by this: zones whose clock changes by a part of an hour (Australia/Lord\_Howe, for
  which the package documents that the library's \<open>Next\<close> passes over a slot, and where the count is
  short by it); a schedule evaluated in \<open>time.Local\<close>, whose branch of \<open>reachFrom\<close> is modelled and
  covered by the facts of the previous section only; and zones that once crossed the date line.
\<close>

locale cron_slots =
  fixes s :: Schedule and slot :: "int \<Rightarrow> bool"
  assumes next_after: "\<not> IsZero (Next s x) \<Longrightarrow> ns x < ns (Next s x)"
    and next_slot: "\<not> IsZero (Next s x) \<Longrightarrow> slot (ns (Next s x))"
    and next_first: "\<not> IsZero (Next s x) \<Longrightarrow> slot u \<Longrightarrow> ns x < u \<Longrightarrow> ns (Next s x) \<le> u"
    and next_zero: "IsZero (Next s x) \<Longrightarrow> slot u \<Longrightarrow> ns x < u \<Longrightarrow>
          Year (In x (schedule_location s)) + 5 < Year (GoTime u (schedule_location s))"
    and slot_whole: "slot u \<Longrightarrow> Second dvd u"
    and named_zone: "\<not> is_local (schedule_location s)"
    and no_date_line: "loc_offset (schedule_location s) a - loc_offset (schedule_location s) b < 86400"
begin

lemma reach_conservative:
  assumes "IsZero (Next s x)" "slot u" "ns x < u"
  shows "ns (reachFrom x (schedule_location s)) < u"
proof (rule ccontr)
  let ?l = "schedule_location s"
  define y where "y = Year (In x ?l) + 5"
  define w where "w = (days_before y + month_start (leap y) 12 + 30 - epoch_day) * 86400"
  define v where "v = u div Second"
  assume "\<not> ns (reachFrom x ?l) < u"
  then have "u \<le> unix_of_wall ?l w * Second"
    using named_zone by (simp add: reachFrom_def robfigReachYears_def y_def w_def Date_def Let_def)
  then have "v \<le> unix_of_wall ?l w"
    unfolding v_def by (metis Second_pos(2) nonzero_mult_div_cancel_right zdiv_mono1 Second_pos(1))
  then have "v + loc_offset ?l v < w + 86400"
    using no_date_line [of v "w - loc_offset ?l w"] by (simp add: unix_of_wall_def)
  also have "w + 86400 = (days_before y + month_start (leap y) 12 + 31 - epoch_day) * 86400"
    by (simp add: w_def)
  also have "\<dots> = (days_before (y + 1) - epoch_day) * 86400"
    by (simp add: days_before_Suc month_start_def)
  finally have "Year (GoTime u ?l) \<le> y"
    by (simp add: Year_le_iff wall_def unix_sec_def v_def)
  with next_zero [OF assms] y_def show False by simp
qed

lemma noSlotInRange_iff:
  "noSlotInRange s (schedule_location s) x t \<longleftrightarrow> (\<forall>u. slot u \<and> ns x < u \<longrightarrow> ns t < u)"
proof (induction "nat (ns t - ns x)" arbitrary: x rule: less_induct)
  case less
  let ?l = "schedule_location s"
  show ?case
  proof (cases "IsZero (Next s x)")
    case False
    then have "noSlotInRange s ?l x t \<longleftrightarrow> ns t < ns (Next s x)"
      by (subst noSlotInRange.simps) (simp add: Let_def Next_def After_def)
    then show ?thesis
      using next_after [OF False] next_slot [OF False] next_first [OF False]
      by (meson less_le_trans)
  next
    case True
    note rc = reach_conservative [OF True]
    have gt: "ns x < ns (reachFrom x ?l)" by (rule reachFrom_gt)
    show ?thesis
    proof (cases "Before (reachFrom x ?l) t")
      case b: True
      then have "noSlotInRange s ?l x t \<longleftrightarrow> noSlotInRange s ?l (reachFrom x ?l) t"
        using True by (subst noSlotInRange.simps) (simp add: Let_def Next_def)
      also have "\<dots> \<longleftrightarrow> (\<forall>u. slot u \<and> ns (reachFrom x ?l) < u \<longrightarrow> ns t < u)"
        by (rule less) (use b gt in \<open>auto simp: Before_def\<close>)
      finally show ?thesis using rc gt by (meson less_trans)
    next
      case b: False
      then have "noSlotInRange s ?l x t"
        using True by (subst noSlotInRange.simps) (simp add: Let_def Next_def)
      moreover have "ns t < u" if "slot u" "ns x < u" for u
        using rc [OF that] b by (simp add: Before_def)
      ultimately show ?thesis by blast
    qed
  qed
qed

lemma NextSlot_loop_spec:
  "case NextSlot_loop s (schedule_location s) limit x of
     (n, found) \<Rightarrow>
       if found then slot (ns n) \<and> ns x < ns n \<and> (\<forall>u. slot u \<and> ns x < u \<longrightarrow> ns n \<le> u)
       else (\<forall>u. slot u \<and> ns x < u \<longrightarrow> ns limit < u)"
proof (induction "nat (ns limit - ns x)" arbitrary: x rule: less_induct)
  case less
  let ?l = "schedule_location s"
  show ?case
  proof (cases "IsZero (Next s x)")
    case False
    then have "NextSlot_loop s ?l limit x = (Next s x, True)"
      by (subst NextSlot_loop.simps) (simp add: Let_def Next_def)
    with next_after [OF False] next_slot [OF False] next_first [OF False] show ?thesis by simp
  next
    case True
    note rc = reach_conservative [OF True]
    have gt: "ns x < ns (reachFrom x ?l)" by (rule reachFrom_gt)
    show ?thesis
    proof (cases "Before (reachFrom x ?l) limit")
      case b: True
      then have "NextSlot_loop s ?l limit x = NextSlot_loop s ?l limit (reachFrom x ?l)"
        using True by (subst NextSlot_loop.simps) (simp add: Let_def Next_def)
      moreover have "nat (ns limit - ns (reachFrom x ?l)) < nat (ns limit - ns x)"
        using b gt by (simp add: Before_def)
      note less.hyps [OF this]
      ultimately show ?thesis
        using rc gt by (auto split: prod.splits if_splits intro: less_trans)
    next
      case b: False
      then have "NextSlot_loop s ?l limit x = (zero_time, False)"
        using True by (subst NextSlot_loop.simps) (simp add: Let_def Next_def)
      then show ?thesis using rc b by (fastforce simp: Before_def)
    qed
  qed
qed

lemma finite_slots: "finite {u. slot u \<and> a < u \<and> u \<le> (b::int)}"
  by (rule finite_subset [of _ "{a<..b}"]) auto

lemma MissedRuns_loop_card:
  "s' = s \<Longrightarrow> loc = schedule_location s \<Longrightarrow> 0 \<le> cnt \<Longrightarrow> cnt \<le> 100000 \<Longrightarrow>
   MissedRuns_loop s' loc horizon cnt x
     = min 100001 (cnt + int (card {u. slot u \<and> ns x < u \<and> u \<le> ns horizon}))"
proof (induction s' loc horizon cnt x rule: MissedRuns_loop.induct)
  case (1 s' loc horizon cnt x)
  note [simp] = 1(3,4)
  let ?l = "schedule_location s" and ?S = "\<lambda>x. {u. slot u \<and> ns x < u \<and> u \<le> ns horizon}"
  have nx: "cron_Next (expr s) x = Next s x" by (simp add: Next_def)
  show ?case
  proof (cases "IsZero (Next s x)")
    case True
    note rc = reach_conservative [OF True]
    have gt: "ns x < ns (reachFrom x ?l)" by (rule reachFrom_gt)
    have S: "?S x = ?S (reachFrom x ?l)" using rc gt by auto
    show ?thesis
    proof (cases "Before (reachFrom x ?l) horizon")
      case b: True
      with True 1 S show ?thesis
        by (subst MissedRuns_loop.simps) (simp add: Let_def nx)
    next
      case b: False
      have e: "?S x = {}" using S b by (auto simp: Before_def)
      show ?thesis unfolding e using b True 1(6)
        by (subst MissedRuns_loop.simps) (simp add: Let_def nx)
    qed
  next
    case False
    note nf = next_after [OF False] next_slot [OF False] next_first [OF False]
    show ?thesis
    proof (cases "After (Next s x) horizon")
      case a: True
      have e: "?S x = {}" using nf(3) a by (force simp: After_def)
      show ?thesis unfolding e using a False 1(6)
        by (subst MissedRuns_loop.simps) (simp add: Let_def nx)
    next
      case a: False
      then have "?S x = insert (ns (Next s x)) (?S (Next s x))"
        using nf by (force simp: After_def)
      then have c: "card (?S x) = Suc (card (?S (Next s x)))"
        by (simp add: finite_slots)
      show ?thesis
      proof (cases "cnt = 100000")
        case True
        with a False show ?thesis
          by (subst MissedRuns_loop.simps) (simp add: Let_def nx c)
      next
        case lt: False
        with 1(6) have "cnt < 100000" by simp
        with 1(2) a False 1(5) have "MissedRuns_loop s ?l horizon (cnt + 1) (Next s x)
            = min 100001 (cnt + 1 + int (card (?S (Next s x))))"
          by (simp add: nx)
        with a False \<open>cnt < 100000\<close> show ?thesis
          by (subst MissedRuns_loop.simps) (simp add: Let_def nx c add.assoc)
      qed
    qed
  qed
qed

lemma MissedRunsSince_card:
  "MissedRunsSince s lastStart now grace
     = min 100001 (int (card {u. slot u \<and> ns lastStart < u \<and> u \<le> ns now - grace}))"
proof (cases "ns lastStart < ns now - grace")
  case True
  then show ?thesis
    by (simp add: MissedRunsSince_def Let_def After_def MissedRuns_loop_card TimeAdd_def)
next
  case False
  have e: "{u. slot u \<and> ns lastStart < u \<and> u \<le> ns now - grace} = {}" using False by auto
  show ?thesis unfolding e using False by (simp add: MissedRunsSince_def After_def TimeAdd_def)
qed

lemma slot_le_Truncate: "slot u \<Longrightarrow> u \<le> ns (Truncate t Second) \<longleftrightarrow> u \<le> ns t"
  using whole_gap [of "ns (Truncate t Second)" u] ns_Truncate_whole [of t] slot_whole [of u]
    Truncate_bounds [of t] by linarith

lemma Prev_found_spec:
  assumes p: "Prev s t = Some (cron_Next (expr s) lo, True)" and w: "Second dvd ns lo"
    and fl: "ns (prev_floor s t) \<le> ns lo"
    and some: "\<not> noSlotInRange s (schedule_location s) lo (Truncate t Second)"
    and h: "hi = Truncate t Second
            \<or> noSlotInRange s (schedule_location s) hi (Truncate t Second)"
    and gap: "ns hi \<le> ns lo + Second"
  shows "(\<exists>n. Prev s t = Some (n, True) \<and> slot (ns n) \<and> ns n \<le> ns t
            \<and> ns (prev_floor s t) < ns n \<and> (\<forall>u. slot u \<and> u \<le> ns t \<longrightarrow> u \<le> ns n))
       \<or> Q"
proof -
  let ?T = "Truncate t Second"
  from some obtain u where u: "slot u" "ns lo < u" "u \<le> ns ?T"
    by (auto simp: noSlotInRange_iff not_less)
  have top: "v \<le> ns lo + Second" if "slot v" "v \<le> ns ?T" for v
    using h that gap by (auto simp: noSlotInRange_iff)
  have only: "v = ns lo + Second" if "slot v" "ns lo < v" "v \<le> ns ?T" for v
    using top [of v] whole_gap [OF w slot_whole [OF that(1)] that(2)] that by simp
  have nz: "\<not> IsZero (Next s lo)"
  proof
    assume "IsZero (Next s lo)"
    from reach_conservative [OF this u(1,2)] only [OF u]
      whole_gap [OF w reachFrom_whole reachFrom_gt, of "schedule_location s"]
    show False by simp
  qed
  from next_after [OF nz] next_slot [OF nz] next_first [OF nz u(1,2)] u(3)
  have n: "ns (Next s lo) = ns lo + Second" "slot (ns (Next s lo))" "ns (Next s lo) \<le> ns ?T"
    by (auto intro: only)
  have "v \<le> ns (Next s lo)" if "slot v" "v \<le> ns t" for v
    using top [of v] that slot_le_Truncate [of v t] n by simp
  moreover have "ns (Next s lo) \<le> ns t" using n slot_le_Truncate by blast
  moreover have "ns (prev_floor s t) < ns (Next s lo)" using fl n(1) Second_pos(1) by linarith
  ultimately show ?thesis using p n(2) by (auto simp: Next_def)
qed


lemma Prev_spec:
  assumes "prevLookbackYears < Year (In t (schedule_location s))"
  shows "(\<exists>n. Prev s t = Some (n, True) \<and> slot (ns n) \<and> ns n \<le> ns t
            \<and> ns (prev_floor s t) < ns n \<and> (\<forall>u. slot u \<and> u \<le> ns t \<longrightarrow> u \<le> ns n))
       \<or> (Prev s t = Some (zero_time, False)
            \<and> (\<forall>u. slot u \<and> ns (prev_floor s t) < u \<longrightarrow> ns t < u))"
proof -
  let ?T = "Truncate t Second" and ?l = "schedule_location s"
  consider (none) "Prev s t = Some (zero_time, False)" "noSlotInRange s ?l (prev_floor s t) ?T"
    | (found) lo hi where "Prev s t = Some (cron_Next (expr s) lo, True)" "Second dvd ns lo"
        "ns (prev_floor s t) \<le> ns lo" "\<not> noSlotInRange s ?l lo ?T"
        "hi = ?T \<or> noSlotInRange s ?l hi ?T" "ns hi \<le> ns lo + Second"
    using Prev_cases [of s t] assms [folded not_le] by blast
  then show ?thesis
  proof cases
    case none
    then show ?thesis
      using slot_le_Truncate [of _ t] by (auto simp: noSlotInRange_iff not_le [symmetric])
  next
    case found
    then show ?thesis by (rule Prev_found_spec)
  qed
qed

end

end
