(* ===== verification/Reconcile_Parts.thy ===== *)
theory Reconcile_Parts
  imports Metric_Vecs Cron_Schedule
begin

text \<open>
  The parts of \<open>internal/controller/cronjobmonitor_controller.go\<close> that \<open>Reconcile\<close> calls: its
  constants and state, the burn-counter baseline, the latched times, the events, the status write
  and the common tail of the early returns.
\<close>

section \<open>Constants\<close>

definition requeueAfterError :: duration where "requeueAfterError = 30 * Second"
definition requeueAfterConflict :: duration where "requeueAfterConflict = Second"
definition requeueLeadJitter :: duration where "requeueLeadJitter = 5 * Second"
definition requeueAfterReconcileMin :: duration where "requeueAfterReconcileMin = Minute"

lemmas requeue_defs = requeueAfterError_def requeueAfterConflict_def requeueLeadJitter_def
  requeueAfterReconcileMin_def

section \<open>State\<close>

text \<open>
  The in-memory baseline is a Go map: reading a nil map finds nothing and deleting from it does
  nothing, but writing to it panics (\<open>None\<close>).
\<close>

datatype go_map = NilMap | GoMap "key \<rightharpoonup> int"

fun map_get :: "go_map \<Rightarrow> key \<Rightarrow> int option" where
  "map_get NilMap k = None"
| "map_get (GoMap m) k = m k"

fun map_put :: "go_map \<Rightarrow> key \<Rightarrow> int \<Rightarrow> go_map option" where
  "map_put NilMap k v = None"
| "map_put (GoMap m) k v = Some (GoMap (m(k \<mapsto> v)))"

fun map_delete :: "go_map \<Rightarrow> key \<Rightarrow> go_map" where
  "map_delete NilMap k = NilMap"
| "map_delete (GoMap m) k = GoMap (m(k := None))"

text \<open>
  The clock is read at five places of a reconcile, each at most once; a clock gives the reading
  at each place. \<open>Recorder\<close> says whether an event recorder is set.
\<close>

datatype reading = AtStart | AtPrune | AtNow | AtRequeue | AtEnd

record CronJobMonitorReconciler =
  Recorder :: bool
  Clock :: "(reading \<Rightarrow> gotime) option"
  lastMissed :: go_map
  MaxConcurrentReconciles :: int

text \<open>
  What is outside the repository: apimachinery's condition helpers, the time zone database, the
  cron parser, and the answers of the API server and of the system clock during one reconcile. A
  successful status update returns the stored object.
\<close>

record deps =
  Meta :: meta_api
  LoadLocation :: "string \<Rightarrow> go_error + location"
  CronParser :: cron_parser

record answers =
  Get_CronJobMonitor :: "key \<Rightarrow> api_error + CronJobMonitor"
  Get_CronJob :: "key \<Rightarrow> api_error + CronJob"
  List_Jobs :: "string \<Rightarrow> api_error + Job list"
  Status_Update :: "CronJobMonitor \<Rightarrow> api_error + CronJobMonitor"
  time_Now :: "reading \<Rightarrow> gotime"

definition now :: "CronJobMonitorReconciler \<Rightarrow> answers \<Rightarrow> reading \<Rightarrow> gotime" where
  "now r W p = (case Clock r of Some c \<Rightarrow> c p | None \<Rightarrow> time_Now W p)"

text \<open>The errors \<open>Reconcile\<close> returns, by the call that failed.\<close>

datatype reconcile_error =
    GetCronJobMonitorErr api_error
  | GetCronJobErr api_error
  | ListJobsErr api_error
  | StatusUpdateErr api_error

text \<open>
  What a path of \<open>Reconcile\<close> leaves behind: the baseline, the effects in order, the result label
  for the deferred metrics, and the returned requeue interval and error.
\<close>

record pass =
  pBaseline :: go_map
  pTrace :: "effect list"
  pLabel :: string
  pRequeue :: duration
  pErr :: "reconcile_error option"

section \<open>The burn-counter baseline\<close>

definition syncMissedBaseline :: "key \<Rightarrow> int \<Rightarrow> go_map \<Rightarrow> go_map option" where
  "syncMissedBaseline k missed b =
     (case map_get b k of
        None \<Rightarrow> map_put b k missed
      | Some cur \<Rightarrow> if cur < missed then map_put b k missed else Some b)"

text \<open>
  The client library would panic on a negative increment. The increment is positive whenever the
  stored number is not negative, and every pass writes a number that is not.
\<close>

definition commitMissed :: "key \<Rightarrow> int \<Rightarrow> int \<Rightarrow> go_map \<Rightarrow> (go_map \<times> effect list) option" where
  "commitMissed k missed prev b =
     (case map_put b k missed of
        None \<Rightarrow> None
      | Some b' \<Rightarrow>
          Some (b', if prev < missed then [MissedRunsTotal_Add k (to_int32 (missed - prev))] else []))"

section \<open>Latched times\<close>

definition pickEndOrStart :: "ExecutionRecord \<Rightarrow> gotime" where
  "pickEndOrStart r = (case EndTime r of Some e \<Rightarrow> e | None \<Rightarrow> StartTime r)"

definition latch :: "gotime option \<Rightarrow> gotime \<Rightarrow> gotime option" where
  "latch cur t =
     (case cur of None \<Rightarrow> Some t | Some c \<Rightarrow> if After t c then Some t else Some c)"

definition observe_record :: "ExecutionRecord \<Rightarrow> CronJobMonitorStatus \<Rightarrow> CronJobMonitorStatus" where
  "observe_record r st =
     (let st = st\<lparr>LastScheduleTime := latch (LastScheduleTime st) (StartTime r)\<rparr>;
          t = pickEndOrStart r
      in case Phase r of
           ExecutionPhaseSucceeded \<Rightarrow> st\<lparr>LastSuccessTime := latch (LastSuccessTime st) t\<rparr>
         | ExecutionPhaseFailed \<Rightarrow> st\<lparr>LastFailureTime := latch (LastFailureTime st) t\<rparr>
         | ExecutionPhaseRunning \<Rightarrow> st)"

fun observe_records :: "ExecutionRecord list \<Rightarrow> CronJobMonitorStatus \<Rightarrow> CronJobMonitorStatus" where
  "observe_records [] st = st"
| "observe_records (r # rs) st = observe_records rs (observe_record r st)"

definition updateLastObservedTimes :: "CronJobMonitor \<Rightarrow> CronJobMonitor" where
  "updateLastObservedTimes cjm =
     upd_status (observe_records (RecentExecutions (Status cjm))) cjm"

section \<open>Conditions and events\<close>

definition setReconciledFalse :: "meta_api \<Rightarrow> string \<Rightarrow> msg \<Rightarrow> CronJobMonitor \<Rightarrow> CronJobMonitor" where
  "setReconciledFalse M reason message cjm =
     (let cjm = set_condition M ConditionReconciled ConditionFalse reason message cjm
      in upd_status (\<lambda>s. s\<lparr>ObservedGeneration := Generation cjm\<rparr>) cjm)"

definition snapshotCondition :: "meta_api \<Rightarrow> CronJobMonitor \<Rightarrow> string \<Rightarrow> Condition option" where
  "snapshotCondition M cjm t = FindStatusCondition M (Conditions (Status cjm)) t"

definition shouldEmitReconciledEvent :: "Condition option \<Rightarrow> string \<Rightarrow> bool" where
  "shouldEmitReconciledEvent prior reason =
     (case prior of
        None \<Rightarrow> True
      | Some c \<Rightarrow> if cStatus c \<noteq> ConditionFalse then True else cReason c \<noteq> reason)"

record priors =
  priorReconciled :: "Condition option"
  priorScheduleHealthy :: "Condition option"
  priorExecutionHealthy :: "Condition option"
  priorDurationHealthy :: "Condition option"

definition is_false :: "Condition option \<Rightarrow> bool" where
  "is_false c = (case c of None \<Rightarrow> False | Some c \<Rightarrow> cStatus c = ConditionFalse)"

fun axis_events :: "meta_api \<Rightarrow> CronJobMonitor \<Rightarrow> (string \<times> Condition option) list \<Rightarrow> effect list" where
  "axis_events M cjm [] = []"
| "axis_events M cjm ((typ, prior) # axes) =
     (case find_condition M cjm typ of
        None \<Rightarrow> axis_events M cjm axes
      | Some cond \<Rightarrow>
          if cStatus cond \<noteq> ConditionFalse then axis_events M cjm axes
          else if is_false prior then axis_events M cjm axes
          else Event EventTypeWarning (cReason cond) (cMessage cond) # axis_events M cjm axes)"

definition emitTransitionEvents ::
  "meta_api \<Rightarrow> CronJobMonitorReconciler \<Rightarrow> CronJobMonitor \<Rightarrow> priors \<Rightarrow> effect list" where
  "emitTransitionEvents M r cjm P =
     (if \<not> Recorder r then []
      else
        axis_events M cjm
          [(ConditionScheduleHealthy, priorScheduleHealthy P),
           (ConditionExecutionHealthy, priorExecutionHealthy P),
           (ConditionDurationHealthy, priorDurationHealthy P)]
        @ (if is_false (priorReconciled P) then
             (case find_condition M cjm ConditionReconciled of
                None \<Rightarrow> []
              | Some cond \<Rightarrow>
                  if cStatus cond = ConditionTrue
                  then [Event EventTypeNormal ReasonReconcileSuccess (cMessage cond)] else [])
           else []))"

section \<open>The status write\<close>

text \<open>
  The effects, the monitor as the update leaves it, the requeue interval and the error. A conflict
  is a requeue and no error.
\<close>

definition patchStatus ::
  "answers \<Rightarrow> CronJobMonitor \<Rightarrow>
   effect list \<times> CronJobMonitor \<times> duration \<times> reconcile_error option" where
  "patchStatus W cjm =
     (case Status_Update W cjm of
        Inl err \<Rightarrow>
          if err = Conflict then ([StatusUpdate cjm], cjm, requeueAfterConflict, None)
          else ([StatusUpdate cjm], cjm, 0, Some (StatusUpdateErr err))
      | Inr stored \<Rightarrow> ([StatusUpdate cjm], stored, 0, None))"

section \<open>The tail of the early returns\<close>

definition finishEarlyReturn ::
  "deps \<Rightarrow> answers \<Rightarrow> CronJobMonitorReconciler \<Rightarrow> key \<Rightarrow> CronJobMonitor \<Rightarrow> Condition option \<Rightarrow>
   event_type \<Rightarrow> string \<Rightarrow> msg \<Rightarrow> pass option" where
  "finishEarlyReturn D W r k cjm prior eventType eventReason eventMessage =
     (let cjm = upd_status (\<lambda>s. s\<lparr>NextExpectedTime := None\<rparr>) cjm;
          cjm = evaluateExecutionHealthy (Meta D) cjm;
          cjm = evaluateDurationHealthy (Meta D) cjm;
          cjm = evaluateReady (Meta D) cjm;
          evs = (if Recorder r \<and> shouldEmitReconciledEvent prior eventReason
                 then [Event eventType eventReason eventMessage] else []);
          (writes, cjm, res, err) = patchStatus W cjm
      in if err \<noteq> None then
           Some \<lparr>pBaseline = lastMissed r, pTrace = evs @ writes, pLabel = ResultError,
                 pRequeue = 0, pErr = err\<rparr>
         else if 0 < res then
           Some \<lparr>pBaseline = lastMissed r, pTrace = evs @ writes, pLabel = ResultRequeue,
                 pRequeue = res, pErr = None\<rparr>
         else
           (case syncMissedBaseline k (MissedRuns (Status cjm)) (lastMissed r) of
              None \<Rightarrow> None
            | Some b \<Rightarrow>
                Some \<lparr>pBaseline = b, pTrace = evs @ writes, pLabel = ResultRequeue,
                      pRequeue = requeueAfterError, pErr = None\<rparr>))"

end
