(* ===== verification/Reconcile.thy ===== *)
theory Reconcile
  imports Reconcile_Parts
begin

text \<open>
  \<open>(*CronJobMonitorReconciler).Reconcile\<close>, one definition per stretch of the function between two
  of its early returns, called in the order of the source. \<open>None\<close> is a panic (a write to a nil
  map) or a loop that does not end; log lines are left out.
\<close>

section \<open>Early returns\<close>

text \<open>
  The block four of the paths share: the numbers are reset to the "not measuring" marker and
  \<open>ScheduleHealthy\<close> becomes Unknown.
\<close>

definition not_measuring :: "meta_api \<Rightarrow> string \<Rightarrow> msg \<Rightarrow> CronJobMonitor \<Rightarrow> CronJobMonitor" where
  "not_measuring M reason message cjm =
     (let cjm = upd_status (\<lambda>s. s\<lparr>MissedRuns := 0, ScheduleDriftSeconds := 0\<rparr>) cjm
      in set_condition M ConditionScheduleHealthy ConditionUnknown reason message cjm)"

definition cronjob_not_found ::
  "deps \<Rightarrow> answers \<Rightarrow> CronJobMonitorReconciler \<Rightarrow> key \<Rightarrow> CronJobMonitor \<Rightarrow> priors \<Rightarrow> pass option" where
  "cronjob_not_found D W r k cjm P =
     (let (cjm, names) = pruneOrphanedRunning cjm [] empty_CronJob (now r W AtPrune);
          cjm = setReconciledFalse (Meta D) ReasonCronJobNotFound
                  [Lit ''CronJob '', Quoted (CronJobRef (Spec cjm)), Lit '' not found in namespace '',
                   Quoted (Namespace cjm)] cjm;
          cjm = not_measuring (Meta D) ReasonNoSchedule [Lit ''no schedule available''] cjm
      in finishEarlyReturn D W r k cjm (priorReconciled P) EventTypeWarning ReasonCronJobNotFound
           [Lit ''CronJob '', Quoted (CronJobRef (Spec cjm)), Lit '' not found''])"

definition cronjob_suspended ::
  "deps \<Rightarrow> answers \<Rightarrow> CronJobMonitorReconciler \<Rightarrow> key \<Rightarrow> CronJobMonitor \<Rightarrow> CronJob \<Rightarrow> priors \<Rightarrow>
   pass option" where
  "cronjob_suspended D W r k cjm cj P =
     (let cjm = setReconciledFalse (Meta D) ReasonCronJobSuspended
                  [Lit ''referenced CronJob has suspend=true''] cjm;
          cjm = set_condition (Meta D) ConditionScheduleHealthy ConditionUnknown ReasonSuspended
                  [Lit ''CronJob is suspended; missed-run counter frozen''] cjm;
          cjm = (case listOwnedJobs (List_Jobs W) cj of
                   Inl lerr \<Rightarrow> cjm
                 | Inr owned \<Rightarrow> fst (pruneOrphanedRunning cjm owned cj (now r W AtPrune)))
      in finishEarlyReturn D W r k cjm (priorReconciled P) EventTypeWarning ReasonCronJobSuspended
           [Lit ''CronJob is suspended''])"

definition invalid_timezone ::
  "deps \<Rightarrow> answers \<Rightarrow> CronJobMonitorReconciler \<Rightarrow> key \<Rightarrow> CronJobMonitor \<Rightarrow> string \<Rightarrow> go_error \<Rightarrow>
   priors \<Rightarrow> pass option" where
  "invalid_timezone D W r k cjm tzName lerr P =
     (let message = [Lit ''timeZone '', Quoted tzName, Lit '' invalid: '', ErrText lerr];
          cjm = setReconciledFalse (Meta D) ReasonInvalidTimeZone message cjm;
          cjm = not_measuring (Meta D) ReasonInvalidTimeZone [Lit ''timeZone failed to load''] cjm
      in finishEarlyReturn D W r k cjm (priorReconciled P) EventTypeWarning ReasonInvalidTimeZone
           message)"

definition invalid_schedule ::
  "deps \<Rightarrow> answers \<Rightarrow> CronJobMonitorReconciler \<Rightarrow> key \<Rightarrow> CronJobMonitor \<Rightarrow> string \<Rightarrow> go_error \<Rightarrow>
   priors \<Rightarrow> pass option" where
  "invalid_schedule D W r k cjm scheduleExpr err P =
     (let message = [Lit ''schedule '', Quoted scheduleExpr, Lit '' invalid: '', ErrText err];
          cjm = setReconciledFalse (Meta D) ReasonInvalidSchedule message cjm;
          cjm = not_measuring (Meta D) ReasonInvalidSchedule
                  [Lit ''schedule expression failed to parse''] cjm
      in finishEarlyReturn D W r k cjm (priorReconciled P) EventTypeWarning ReasonInvalidSchedule
           message)"

definition unsatisfiable_schedule ::
  "deps \<Rightarrow> answers \<Rightarrow> CronJobMonitorReconciler \<Rightarrow> key \<Rightarrow> CronJobMonitor \<Rightarrow> string \<Rightarrow> priors \<Rightarrow>
   pass option" where
  "unsatisfiable_schedule D W r k cjm scheduleExpr P =
     (let cjm = setReconciledFalse (Meta D) ReasonUnsatisfiableSchedule
                  [Lit ''schedule '', Quoted scheduleExpr,
                   Lit '' parses but matches no date on the calendar; it will never run''] cjm;
          cjm = not_measuring (Meta D) ReasonUnsatisfiableSchedule
                  [Lit ''schedule matches no date on the calendar''] cjm
      in finishEarlyReturn D W r k cjm (priorReconciled P) EventTypeWarning
           ReasonUnsatisfiableSchedule
           [Lit ''schedule '', Quoted scheduleExpr, Lit '' matches no date on the calendar''])"

section \<open>The happy path\<close>

text \<open>\<open>RecentExecutions[0]\<close> is written in place.\<close>

fun upd_head :: "('a \<Rightarrow> 'a) \<Rightarrow> 'a list \<Rightarrow> 'a list" where
  "upd_head f [] = []"
| "upd_head f (x # xs) = f x # xs"

definition annotatable :: "CronJobMonitorStatus \<Rightarrow> gotime \<Rightarrow> bool" where
  "annotatable st lst =
     (case RecentExecutions st of [] \<Rightarrow> False | rec # _ \<Rightarrow> TimeEqual (StartTime rec) lst)"

definition measure_drift :: "Schedule \<Rightarrow> CronJobMonitor \<Rightarrow> CronJobMonitor option" where
  "measure_drift parsed cjm =
     (case LastScheduleTime (Status cjm) of
        None \<Rightarrow> Some cjm
      | Some lst \<Rightarrow>
          (case Prev parsed lst of
             None \<Rightarrow> None
           | Some (expected, found) \<Rightarrow>
               let ann = annotatable (Status cjm) lst in
               if found then
                 let driftSec = int32_of_float (Seconds (Drift lst expected)) in
                 Some (upd_status (\<lambda>s. s\<lparr>ScheduleDriftSeconds := driftSec,
                   RecentExecutions := if ann
                     then upd_head (\<lambda>rec. rec\<lparr>ExpectedStartTime := Some expected,
                                             DriftSeconds := Some driftSec\<rparr>) (RecentExecutions s)
                     else RecentExecutions s\<rparr>) cjm)
               else
                 Some (upd_status (\<lambda>s. s\<lparr>ScheduleDriftSeconds := 0,
                   RecentExecutions := if ann
                     then upd_head (\<lambda>rec. rec\<lparr>ExpectedStartTime := None, DriftSeconds := None\<rparr>)
                            (RecentExecutions s)
                     else RecentExecutions s\<rparr>) cjm)))"

definition missed_floor :: "CronJobMonitor \<Rightarrow> CronJob \<Rightarrow> bool \<Rightarrow> gotime \<Rightarrow> gotime" where
  "missed_floor cjm cj scheduleOverridden t =
     (let lastStart = (case LastScheduleTime (Status cjm) of
                         Some u \<Rightarrow> u | None \<Rightarrow> CreationTimestamp cjm)
      in case cjLastScheduleTime cj of
           None \<Rightarrow> lastStart
         | Some w \<Rightarrow>
             if \<not> scheduleOverridden \<and> SpecTimeZone (Spec cjm) = []
                \<and> After w lastStart \<and> \<not> After w t
             then w else lastStart)"

definition evaluate_all :: "meta_api \<Rightarrow> int \<Rightarrow> CronJobMonitor \<Rightarrow> CronJobMonitor" where
  "evaluate_all M missed cjm =
     (let cjm = evaluateScheduleHealthy M cjm missed;
          cjm = evaluateExecutionHealthy M cjm;
          cjm = evaluateDurationHealthy M cjm;
          cjm = set_condition M ConditionReconciled ConditionTrue ReasonReconcileSuccess
                  [Lit ''CronJob resolved, schedule parsed''] cjm;
          cjm = evaluateReady M cjm
      in upd_status (\<lambda>s. s\<lparr>ObservedGeneration := Generation cjm\<rparr>) cjm)"

definition requeue_interval :: "gotime \<Rightarrow> gotime \<Rightarrow> duration" where
  "requeue_interval nextExpected t =
     (let requeue = to_int64 (Sub nextExpected t + requeueLeadJitter)
      in if requeue < requeueAfterReconcileMin then requeueAfterReconcileMin else requeue)"

definition finish_measured ::
  "deps \<Rightarrow> answers \<Rightarrow> CronJobMonitorReconciler \<Rightarrow> key \<Rightarrow> CronJobMonitor \<Rightarrow> int \<Rightarrow> int \<Rightarrow> gotime \<Rightarrow>
   priors \<Rightarrow> pass option" where
  "finish_measured D W r k cjm missed prev nextExpected P =
     (let requeue = requeue_interval nextExpected (now r W AtRequeue);
          evs = emitTransitionEvents (Meta D) r cjm P;
          (writes, cjm, res, err) = patchStatus W cjm
      in if err \<noteq> None then
           Some \<lparr>pBaseline = lastMissed r, pTrace = evs @ writes, pLabel = ResultError,
                 pRequeue = 0, pErr = err\<rparr>
         else if 0 < res then
           Some \<lparr>pBaseline = lastMissed r, pTrace = evs @ writes, pLabel = ResultRequeue,
                 pRequeue = res, pErr = None\<rparr>
         else
           (case commitMissed k missed prev (lastMissed r) of
              None \<Rightarrow> None
            | Some (b, incs) \<Rightarrow>
                Some \<lparr>pBaseline = b, pTrace = evs @ writes @ incs, pLabel = ResultSuccess,
                      pRequeue = requeue, pErr = None\<rparr>))"

definition reconcile_measured ::
  "deps \<Rightarrow> answers \<Rightarrow> CronJobMonitorReconciler \<Rightarrow> key \<Rightarrow> CronJobMonitor \<Rightarrow> CronJob \<Rightarrow> Schedule \<Rightarrow>
   bool \<Rightarrow> Job list \<Rightarrow> gotime \<Rightarrow> gotime \<Rightarrow> priors \<Rightarrow> pass option" where
  "reconcile_measured D W r k cjm cj parsed scheduleOverridden owned t nextExpected P =
     (let cjm = upd_status (\<lambda>s. s\<lparr>NextExpectedTime := Some nextExpected\<rparr>) cjm
      in case measure_drift parsed cjm of
           None \<Rightarrow> None
         | Some cjm \<Rightarrow>
             let (cjm, names) = pruneOrphanedRunning cjm owned cj t;
                 lastStart = missed_floor cjm cj scheduleOverridden t;
                 missed = to_int32 (MissedRunsSince parsed lastStart t
                            (to_int64 (GracePeriodSeconds (Spec cjm) * Second)));
                 prev = (case map_get (lastMissed r) k of
                           None \<Rightarrow> MissedRuns (Status cjm) | Some v \<Rightarrow> v);
                 cjm = evaluate_all (Meta D) missed cjm
             in finish_measured D W r k cjm missed prev nextExpected P)"

section \<open>From the schedule on\<close>

definition history_limit :: "CronJobMonitor \<Rightarrow> int" where
  "history_limit cjm = (if HistoryLimit (Spec cjm) \<le> 0 then 10 else HistoryLimit (Spec cjm))"

definition merge_observed :: "CronJobMonitor \<Rightarrow> Job list \<Rightarrow> CronJobMonitor" where
  "merge_observed cjm owned =
     (let incoming = map jobToRecord owned
      in updateLastObservedTimes
           (upd_status (\<lambda>s. s\<lparr>RecentExecutions :=
              Merge (RecentExecutions s) incoming (history_limit cjm)\<rparr>) cjm))"

definition mismatch_events ::
  "CronJobMonitorReconciler \<Rightarrow> CronJobMonitor \<Rightarrow> CronJob \<Rightarrow> string \<Rightarrow> bool \<Rightarrow> effect list" where
  "mismatch_events r cjm cj scheduleExpr scheduleOverridden =
     (if scheduleOverridden \<and> Recorder r \<and> ObservedGeneration (Status cjm) \<noteq> Generation cjm
      then [Event EventTypeWarning ReasonScheduleMismatch
              [Lit ''spec.schedule '', Quoted scheduleExpr,
               Lit '' differs from CronJob.spec.schedule '', Quoted (cjSchedule cj),
               Lit ''; SLO computed against spec.schedule'']]
      else [])"

text \<open>Effects performed before a path are put in front of its trace.\<close>

definition after_effects :: "effect list \<Rightarrow> pass option \<Rightarrow> pass option" where
  "after_effects es = map_option (\<lambda>p. p\<lparr>pTrace := es @ pTrace p\<rparr>)"

definition reconcile_scheduled ::
  "deps \<Rightarrow> answers \<Rightarrow> CronJobMonitorReconciler \<Rightarrow> key \<Rightarrow> CronJobMonitor \<Rightarrow> CronJob \<Rightarrow> Schedule \<Rightarrow>
   string \<Rightarrow> string \<Rightarrow> bool \<Rightarrow> priors \<Rightarrow> pass option" where
  "reconcile_scheduled D W r k cjm cj parsed scheduleExpr resolvedTZ scheduleOverridden P =
     (let cjm = upd_status (\<lambda>s. s\<lparr>ResolvedSchedule := Some scheduleExpr,
                                  ResolvedTimeZone := Some resolvedTZ\<rparr>) cjm
      in after_effects (mismatch_events r cjm cj scheduleExpr scheduleOverridden)
        (case listOwnedJobs (List_Jobs W) cj of
           Inl err \<Rightarrow>
             Some \<lparr>pBaseline = lastMissed r, pTrace = [], pLabel = ResultError, pRequeue = 0,
                   pErr = Some (ListJobsErr err)\<rparr>
         | Inr jobs \<Rightarrow>
             let owned = sortJobsNewestFirst jobs;
                 cjm = merge_observed cjm owned;
                 t = now r W AtNow;
                 (nextExpected, satisfiable) = NextSlot parsed t
             in if \<not> satisfiable then unsatisfiable_schedule D W r k cjm scheduleExpr P
                else reconcile_measured D W r k cjm cj parsed scheduleOverridden owned t
                       nextExpected P))"

definition schedule_expr :: "CronJobMonitor \<Rightarrow> CronJob \<Rightarrow> string" where
  "schedule_expr cjm cj =
     (if SpecScheduleExpr (Spec cjm) = [] then cjSchedule cj else SpecScheduleExpr (Spec cjm))"

definition schedule_overridden :: "CronJobMonitor \<Rightarrow> CronJob \<Rightarrow> bool" where
  "schedule_overridden cjm cj \<longleftrightarrow>
     SpecScheduleExpr (Spec cjm) \<noteq> [] \<and> SpecScheduleExpr (Spec cjm) \<noteq> cjSchedule cj"

definition timezone_name :: "CronJobMonitor \<Rightarrow> CronJob \<Rightarrow> string" where
  "timezone_name cjm cj =
     (if SpecTimeZone (Spec cjm) = [] then (case cjTimeZone cj of Some z \<Rightarrow> z | None \<Rightarrow> [])
      else SpecTimeZone (Spec cjm))"

definition reconcile_resolved ::
  "deps \<Rightarrow> answers \<Rightarrow> CronJobMonitorReconciler \<Rightarrow> key \<Rightarrow> CronJobMonitor \<Rightarrow> CronJob \<Rightarrow> location \<Rightarrow>
   string \<Rightarrow> priors \<Rightarrow> pass option" where
  "reconcile_resolved D W r k cjm cj loc resolvedTZ P =
     (let scheduleExpr = schedule_expr cjm cj in
      case ParseInLocation (CronParser D) scheduleExpr (Some loc) of
        Inl err \<Rightarrow> invalid_schedule D W r k cjm scheduleExpr err P
      | Inr parsed \<Rightarrow>
          reconcile_scheduled D W r k cjm cj parsed scheduleExpr resolvedTZ
            (schedule_overridden cjm cj) P)"

definition reconcile_found ::
  "deps \<Rightarrow> answers \<Rightarrow> CronJobMonitorReconciler \<Rightarrow> key \<Rightarrow> CronJobMonitor \<Rightarrow> CronJob \<Rightarrow> priors \<Rightarrow>
   pass option" where
  "reconcile_found D W r k cjm cj P =
     (if cjSuspend cj = Some True then cronjob_suspended D W r k cjm cj P
      else
        let tzName = timezone_name cjm cj in
        if tzName = [] then reconcile_resolved D W r k cjm cj time_UTC ''UTC'' P
        else
          (case LoadLocation D tzName of
             Inl lerr \<Rightarrow> invalid_timezone D W r k cjm tzName lerr P
           | Inr loc \<Rightarrow> reconcile_resolved D W r k cjm cj loc tzName P))"

section \<open>Reconcile\<close>

definition snapshot_priors :: "meta_api \<Rightarrow> CronJobMonitor \<Rightarrow> priors" where
  "snapshot_priors M cjm =
     \<lparr>priorReconciled = snapshotCondition M cjm ConditionReconciled,
      priorScheduleHealthy = snapshotCondition M cjm ConditionScheduleHealthy,
      priorExecutionHealthy = snapshotCondition M cjm ConditionExecutionHealthy,
      priorDurationHealthy = snapshotCondition M cjm ConditionDurationHealthy\<rparr>"

definition reconcile_monitor ::
  "deps \<Rightarrow> answers \<Rightarrow> CronJobMonitorReconciler \<Rightarrow> key \<Rightarrow> CronJobMonitor \<Rightarrow> pass option" where
  "reconcile_monitor D W r k cjm =
     (case syncMissedBaseline k (MissedRuns (Status cjm)) (lastMissed r) of
        None \<Rightarrow> None
      | Some b \<Rightarrow>
          let r = r\<lparr>lastMissed := b\<rparr>;
              P = snapshot_priors (Meta D) cjm
          in case Get_CronJob W (Namespace cjm, CronJobRef (Spec cjm)) of
               Inl err \<Rightarrow>
                 if err \<noteq> NotFound then
                   Some \<lparr>pBaseline = lastMissed r, pTrace = [], pLabel = ResultError, pRequeue = 0,
                         pErr = Some (GetCronJobErr err)\<rparr>
                 else cronjob_not_found D W r k cjm P
             | Inr cj \<Rightarrow> reconcile_found D W r k cjm cj P)"

text \<open>The body of the function, with the \<open>deleted\<close> flag the deferred function looks at.\<close>

definition reconcile_body ::
  "deps \<Rightarrow> answers \<Rightarrow> CronJobMonitorReconciler \<Rightarrow> key \<Rightarrow> (pass \<times> bool) option" where
  "reconcile_body D W r k =
     (case Get_CronJobMonitor W k of
        Inl err \<Rightarrow>
          if err = NotFound then
            Some (\<lparr>pBaseline = map_delete (lastMissed r) k, pTrace = [MissedRunsTotal_Delete k],
                   pLabel = ResultSuccess, pRequeue = 0, pErr = None\<rparr>, True)
          else
            Some (\<lparr>pBaseline = lastMissed r, pTrace = [], pLabel = ResultError, pRequeue = 0,
                   pErr = Some (GetCronJobMonitorErr err)\<rparr>, False)
      | Inr cjm \<Rightarrow> map_option (\<lambda>p. (p, False)) (reconcile_monitor D W r k cjm))"

definition deferred_metrics ::
  "CronJobMonitorReconciler \<Rightarrow> answers \<Rightarrow> key \<Rightarrow> gotime \<Rightarrow> string \<Rightarrow> bool \<Rightarrow> effect list" where
  "deferred_metrics r W k start label deleted =
     (if deleted
      then ReconcileDuration_Delete k
           # map (ReconcileTotal_Delete k) [ResultSuccess, ResultError, ResultRequeue]
      else [ReconcileTotal_Inc k label,
            ReconcileDuration_Observe k (Seconds (Sub (now r W AtEnd) start))])"

definition Reconcile ::
  "deps \<Rightarrow> answers \<Rightarrow> CronJobMonitorReconciler \<Rightarrow> key \<Rightarrow> pass option" where
  "Reconcile D W r k =
     (let start = now r W AtStart in
      case reconcile_body D W r k of
        None \<Rightarrow> None
      | Some (p, deleted) \<Rightarrow>
          Some (p\<lparr>pTrace := pTrace p @ deferred_metrics r W k start (pLabel p) deleted\<rparr>))"

end
