(* ===== verification/Reconcile_Props.thy ===== *)
theory Reconcile_Props
  imports Reconcile
begin

text \<open>
  What every reconcile guarantees. A pass over a monitor that exists either fails before it
  writes, or ends on one of the early returns, or is measured; the three shapes are the cases of
  \<open>reconcile_monitor_cases\<close>, on which the properties rest.
\<close>

section \<open>The baseline\<close>

fun raised :: "int option \<Rightarrow> int \<Rightarrow> int" where
  "raised None v = v"
| "raised (Some cur) v = max cur v"

lemma syncMissedBaseline_GoMap [simp]:
  "syncMissedBaseline k v (GoMap m) = Some (GoMap (m(k \<mapsto> raised (m k) v)))"
  by (cases "m k") (auto simp: syncMissedBaseline_def max_def fun_upd_idem)

lemma commitMissed_GoMap [simp]:
  "commitMissed k missed prev (GoMap m) = Some (GoMap (m(k \<mapsto> missed)),
     if prev < missed then [MissedRunsTotal_Add k (to_int32 (missed - prev))] else [])"
  by (simp add: commitMissed_def)

section \<open>How a pass ends\<close>

text \<open>The status write decides the rest of a pass: only an accepted write reaches \<open>ok\<close>.\<close>

definition settled ::
  "answers \<Rightarrow> CronJobMonitor \<Rightarrow> effect list \<Rightarrow> go_map \<Rightarrow> (CronJobMonitor \<Rightarrow> pass) \<Rightarrow> pass" where
  "settled W c evs b ok =
     (case Status_Update W c of
        Inl e \<Rightarrow>
          \<lparr>pBaseline = b, pTrace = evs @ [StatusUpdate c],
           pLabel = if e = Conflict then ResultRequeue else ResultError,
           pRequeue = if e = Conflict then requeueAfterConflict else 0,
           pErr = if e = Conflict then None else Some (StatusUpdateErr e)\<rparr>
      | Inr s \<Rightarrow> ok s)"

definition early_written :: "meta_api \<Rightarrow> CronJobMonitor \<Rightarrow> CronJobMonitor" where
  "early_written M c0 = evaluateReady M (evaluateDurationHealthy M (evaluateExecutionHealthy M
     (upd_status (\<lambda>s. s\<lparr>NextExpectedTime := None\<rparr>) c0)))"

definition early_events ::
  "CronJobMonitorReconciler \<Rightarrow> Condition option \<Rightarrow> string \<Rightarrow> msg \<Rightarrow> effect list" where
  "early_events r prior reason message =
     (if Recorder r \<and> shouldEmitReconciledEvent prior reason
      then [Event EventTypeWarning reason message] else [])"

lemma requeue_pos [simp]: "0 < requeueAfterConflict" "0 < requeueAfterError"
  "0 < requeueAfterReconcileMin"
  by (simp_all add: requeue_defs Second_def Minute_def)

section \<open>What no pass undoes\<close>

text \<open>
  \<open>keeps M c c'\<close>: the identity and the spec are the same, the latched times have not moved back,
  a ring stays a ring, and the conditions have only been written through the condition helper.
\<close>

fun later :: "gotime option \<Rightarrow> gotime option \<Rightarrow> bool" where
  "later None b = True"
| "later (Some a) None = False"
| "later (Some a) (Some b) = (ns a \<le> ns b)"

lemma later_refl [simp]: "later a a" by (cases a) simp_all

lemma later_trans: "later a b \<Longrightarrow> later b c \<Longrightarrow> later a c"
  by (cases a; cases b; cases c) auto

lemma later_latch: "later a (latch a t)"
  by (cases a) (auto simp: latch_def After_def)

definition conditions_written :: "meta_api \<Rightarrow> Condition list \<Rightarrow> Condition list \<Rightarrow> bool" where
  "conditions_written M = (\<lambda>cs cs'. \<exists>x. cs' = SetStatusCondition M cs x)\<^sup>*\<^sup>*"

lemma conditions_written_refl [simp]: "conditions_written M cs cs"
  by (simp add: conditions_written_def)

lemma conditions_written_set [simp]: "conditions_written M cs (SetStatusCondition M cs x)"
  by (auto simp: conditions_written_def)

lemma conditions_written_trans:
  "conditions_written M a b \<Longrightarrow> conditions_written M b c \<Longrightarrow> conditions_written M a c"
  by (simp add: conditions_written_def)

definition keeps :: "meta_api \<Rightarrow> CronJobMonitor \<Rightarrow> CronJobMonitor \<Rightarrow> bool" where
  "keeps M c c' \<longleftrightarrow>
     Namespace c' = Namespace c \<and> Name c' = Name c \<and> Generation c' = Generation c
     \<and> CreationTimestamp c' = CreationTimestamp c \<and> Spec c' = Spec c
     \<and> later (LastScheduleTime (Status c)) (LastScheduleTime (Status c'))
     \<and> later (LastSuccessTime (Status c)) (LastSuccessTime (Status c'))
     \<and> later (LastFailureTime (Status c)) (LastFailureTime (Status c'))
     \<and> (ring_invar (history_limit c) (RecentExecutions (Status c)) \<longrightarrow>
          ring_invar (history_limit c) (RecentExecutions (Status c')))
     \<and> conditions_written M (Conditions (Status c)) (Conditions (Status c'))"

lemma history_limit_Spec: "Spec c' = Spec c \<Longrightarrow> history_limit c' = history_limit c"
  by (simp add: history_limit_def)

lemma history_limit_pos: "0 < history_limit c"
  by (simp add: history_limit_def)

lemma keeps_refl [intro]: "keeps M c c" by (simp add: keeps_def)

lemma keeps_trans [trans]: "keeps M a b \<Longrightarrow> keeps M b c \<Longrightarrow> keeps M a c"
  unfolding keeps_def using later_trans history_limit_Spec conditions_written_trans by metis

text \<open>An update of the status that leaves the ring and the latches alone.\<close>

lemma keeps_upd_status:
  assumes "RecentExecutions (f (Status c)) = RecentExecutions (Status c)"
    and "LastScheduleTime (f (Status c)) = LastScheduleTime (Status c)"
    and "LastSuccessTime (f (Status c)) = LastSuccessTime (Status c)"
    and "LastFailureTime (f (Status c)) = LastFailureTime (Status c)"
    and "Conditions (f (Status c)) = Conditions (Status c)"
  shows "keeps M c (upd_status f c)"
  using assms by (simp add: keeps_def)

lemma keeps_set_condition: "keeps M c (set_condition M ty st rs ms c)"
  by (simp add: keeps_def)

lemma keeps_then_set: "keeps M a c \<Longrightarrow> keeps M a (set_condition M ty st rs ms c)"
  by (rule keeps_trans [OF _ keeps_set_condition])

lemma keeps_evaluateExecutionHealthy: "keeps M c (evaluateExecutionHealthy M c)"
  unfolding evaluateExecutionHealthy_def
  by (auto simp: Let_def split: prod.split intro!: keeps_then_set keeps_upd_status)

lemma keeps_evaluateDurationHealthy: "keeps M c (evaluateDurationHealthy M c)"
  unfolding evaluateDurationHealthy_def
  by (auto split: option.split prod.split intro!: keeps_set_condition)

lemma keeps_evaluateReady: "keeps M c (evaluateReady M c)"
  unfolding evaluateReady_def by (auto split: prod.split intro!: keeps_set_condition)

lemma keeps_evaluateScheduleHealthy: "keeps M c (evaluateScheduleHealthy M c missed)"
  unfolding evaluateScheduleHealthy_def
  by (auto simp: Let_def intro!: keeps_then_set keeps_upd_status)

lemma keeps_prune: "keeps M c (fst (pruneOrphanedRunning c owned cj t))"
  by (simp add: prune_status keeps_def ring_invar_filter)

lemma keeps_setReconciledFalse: "keeps M c (setReconciledFalse M rs ms c)"
  unfolding setReconciledFalse_def Let_def
  by (rule keeps_trans [OF keeps_set_condition]) (rule keeps_upd_status; simp)

lemma keeps_not_measuring: "keeps M c (not_measuring M rs ms c)"
  unfolding not_measuring_def Let_def by (intro keeps_then_set keeps_upd_status) simp_all

lemma keeps_early_written: "keeps M c (early_written M c)"
  unfolding early_written_def
  by (rule keeps_trans [OF _ keeps_evaluateReady], rule keeps_trans [OF _ keeps_evaluateDurationHealthy],
      rule keeps_trans [OF _ keeps_evaluateExecutionHealthy]) (rule keeps_upd_status; simp)

lemma keeps_evaluate_all: "keeps M c (evaluate_all M missed c)"
proof -
  let ?d = "evaluateDurationHealthy M (evaluateExecutionHealthy M (evaluateScheduleHealthy M c missed))"
  have "keeps M c ?d"
    by (rule keeps_trans [OF keeps_trans [OF keeps_evaluateScheduleHealthy
            keeps_evaluateExecutionHealthy] keeps_evaluateDurationHealthy])
  then have "keeps M c (evaluateReady M (set_condition M ConditionReconciled ConditionTrue
      ReasonReconcileSuccess [Lit ''CronJob resolved, schedule parsed''] ?d))"
    by (intro keeps_trans [OF keeps_then_set keeps_evaluateReady])
  then show ?thesis
    unfolding evaluate_all_def Let_def by (rule keeps_trans) (rule keeps_upd_status; simp)
qed

text \<open>The records of the ring advance the latches.\<close>

lemma observe_record_Conditions [simp]: "Conditions (observe_record r st) = Conditions st"
  by (simp add: observe_record_def Let_def split: ExecutionPhase.split)

lemma observe_records_Conditions [simp]: "Conditions (observe_records rs st) = Conditions st"
  by (induction rs st rule: observe_records.induct) simp_all

lemma observe_record_latches:
  "later (LastScheduleTime st) (LastScheduleTime (observe_record r st))"
  "later (LastSuccessTime st) (LastSuccessTime (observe_record r st))"
  "later (LastFailureTime st) (LastFailureTime (observe_record r st))"
  "RecentExecutions (observe_record r st) = RecentExecutions st"
  by (auto simp: observe_record_def Let_def later_latch split: ExecutionPhase.split)

lemma observe_records_latches:
  "later (LastScheduleTime st) (LastScheduleTime (observe_records rs st))
   \<and> later (LastSuccessTime st) (LastSuccessTime (observe_records rs st))
   \<and> later (LastFailureTime st) (LastFailureTime (observe_records rs st))
   \<and> RecentExecutions (observe_records rs st) = RecentExecutions st"
proof (induction rs st rule: observe_records.induct)
  case (2 r rs st)
  then show ?case
    by (auto simp: observe_record_latches intro: later_trans observe_record_latches)
qed simp

lemma keeps_merge_observed: "keeps M c (merge_observed c owned)"
  using observe_records_latches [of "(Status c)\<lparr>RecentExecutions :=
      Merge (RecentExecutions (Status c)) (map jobToRecord owned) (history_limit c)\<rparr>"]
  by (simp add: keeps_def merge_observed_def updateLastObservedTimes_def Let_def Merge_invar)

lemma merge_observed_ring:
  "ring_invar (history_limit c) (RecentExecutions (Status (merge_observed c owned)))"
  using observe_records_latches
  by (simp add: merge_observed_def updateLastObservedTimes_def Let_def Merge_invar)

text \<open>The outcomes of the finished runs, newest first; pruning and annotating leave them alone.\<close>

definition outcomes :: "CronJobMonitor \<Rightarrow> ExecutionPhase list" where
  "outcomes c = map Phase (finished (RecentExecutions (Status c)))"

lemma outcomes_upd_head:
  "(\<And>x. Phase (f x) = Phase x) \<Longrightarrow> map Phase (finished (upd_head f rs)) = map Phase (finished rs)"
  by (cases rs) (simp_all add: finished_def)

lemma outcomes_prune [simp]: "outcomes (fst (pruneOrphanedRunning c owned cj t)) = outcomes c"
  by (auto simp: outcomes_def prune_status finished_def orphaned_def isTerminal_def
      intro!: arg_cong [where f = "map Phase"] filter_cong)

lemma outcomes_measure_drift: "measure_drift parsed c = Some c' \<Longrightarrow> outcomes c' = outcomes c"
  unfolding measure_drift_def
  by (auto simp: Let_def outcomes_def outcomes_upd_head split: option.splits if_splits)

text \<open>Annotating the newest record changes neither its name nor its start.\<close>

lemma ring_invar_upd_head:
  assumes "\<And>x. JobName (f x) = JobName x" "\<And>x. StartTime (f x) = StartTime x"
    and "ring_invar limit rs"
  shows "ring_invar limit (upd_head f rs)"
  using assms by (cases rs) (auto simp: ring_invar_def newer_def)

lemma keeps_measure_drift: "measure_drift parsed c = Some c' \<Longrightarrow> keeps M c c'"
  unfolding measure_drift_def
  by (auto simp: Let_def keeps_def split: option.splits if_splits
      intro!: ring_invar_upd_head)

section \<open>What the evaluators leave alone\<close>

lemma evaluator_frame [simp]:
  "NextExpectedTime (Status (evaluateExecutionHealthy M c)) = NextExpectedTime (Status c)"
  "MissedRuns (Status (evaluateExecutionHealthy M c)) = MissedRuns (Status c)"
  "ObservedGeneration (Status (evaluateExecutionHealthy M c)) = ObservedGeneration (Status c)"
  "Generation (evaluateExecutionHealthy M c) = Generation c"
  "NextExpectedTime (Status (evaluateDurationHealthy M c)) = NextExpectedTime (Status c)"
  "MissedRuns (Status (evaluateDurationHealthy M c)) = MissedRuns (Status c)"
  "ObservedGeneration (Status (evaluateDurationHealthy M c)) = ObservedGeneration (Status c)"
  "Generation (evaluateDurationHealthy M c) = Generation c"
  "NextExpectedTime (Status (evaluateReady M c)) = NextExpectedTime (Status c)"
  "MissedRuns (Status (evaluateReady M c)) = MissedRuns (Status c)"
  "ObservedGeneration (Status (evaluateReady M c)) = ObservedGeneration (Status c)"
  "Generation (evaluateReady M c) = Generation c"
  "NextExpectedTime (Status (evaluateScheduleHealthy M c n)) = NextExpectedTime (Status c)"
  "MissedRuns (Status (evaluateScheduleHealthy M c n)) = n"
  "Generation (evaluateScheduleHealthy M c n) = Generation c"
  by (simp_all add: evaluateExecutionHealthy_def evaluateDurationHealthy_def evaluateReady_def
      evaluateScheduleHealthy_def Let_def split: prod.split option.split)

lemma written_frame [simp]:
  "NextExpectedTime (Status (early_written M c)) = None"
  "MissedRuns (Status (early_written M c)) = MissedRuns (Status c)"
  "ObservedGeneration (Status (early_written M c)) = ObservedGeneration (Status c)"
  "Generation (early_written M c) = Generation c"
  "NextExpectedTime (Status (evaluate_all M n c)) = NextExpectedTime (Status c)"
  "MissedRuns (Status (evaluate_all M n c)) = n"
  "ObservedGeneration (Status (evaluate_all M n c)) = Generation c"
  "Generation (evaluate_all M n c) = Generation c"
  by (simp_all add: early_written_def evaluate_all_def Let_def)

lemma now_lastMissed [simp]: "now (r\<lparr>lastMissed := b\<rparr>) W = now r W"
  by (simp add: now_def fun_eq_iff)

lemma emitTransitionEvents_lastMissed [simp]:
  "emitTransitionEvents M (r\<lparr>lastMissed := b\<rparr>) c P = emitTransitionEvents M r c P"
  "early_events (r\<lparr>lastMissed := b\<rparr>) prior reason message = early_events r prior reason message"
  "mismatch_events (r\<lparr>lastMissed := b\<rparr>) cjm cj e ov = mismatch_events r cjm cj e ov"
  by (simp_all add: emitTransitionEvents_def early_events_def mismatch_events_def)

section \<open>The state an early return writes\<close>

definition early_state :: "meta_api \<Rightarrow> CronJobMonitor \<Rightarrow> CronJobMonitor \<Rightarrow> string \<Rightarrow> bool" where
  "early_state M cjm c reason \<longleftrightarrow>
     keeps M cjm c \<and> ObservedGeneration (Status c) = Generation cjm
     \<and> (\<exists>ms. axis M c ConditionReconciled = Some (ConditionFalse, reason, ms, Generation cjm))
     \<and> (\<exists>rs ms. axis M c ConditionScheduleHealthy = Some (ConditionUnknown, rs, ms, Generation cjm))
     \<and> MissedRuns (Status c) \<in> {0, MissedRuns (Status cjm)}"

context condition_store
begin

lemma axis_setReconciledFalse [simp]:
  "axis M (setReconciledFalse M reason message c) t =
     (if t = ConditionReconciled then Some (ConditionFalse, reason, message, Generation c)
      else axis M c t)"
  by (simp add: setReconciledFalse_def Let_def)

lemma axis_not_measuring [simp]:
  "axis M (not_measuring M reason message c) t =
     (if t = ConditionScheduleHealthy then Some (ConditionUnknown, reason, message, Generation c)
      else axis M c t)"
  by (simp add: not_measuring_def Let_def)

lemma early_state_not_measuring:
  assumes "keeps M cjm c"
  shows "early_state M cjm (not_measuring M rs ms (setReconciledFalse M reason message c)) reason"
proof -
  have "keeps M cjm (not_measuring M rs ms (setReconciledFalse M reason message c))"
    by (rule keeps_trans [OF keeps_trans [OF assms keeps_setReconciledFalse] keeps_not_measuring])
  moreover have "Generation c = Generation cjm" using assms by (simp add: keeps_def)
  ultimately show ?thesis
    by (simp add: early_state_def) (simp add: not_measuring_def setReconciledFalse_def Let_def)
qed

lemma early_state_suspended:
  "early_state M cjm (set_condition M ConditionScheduleHealthy ConditionUnknown rs ms
     (setReconciledFalse M reason message cjm)) reason"
  using keeps_then_set [OF keeps_setReconciledFalse [of M cjm reason message],
      of ConditionScheduleHealthy ConditionUnknown rs ms]
  by (simp add: early_state_def del: set_condition_frame)
    (simp add: setReconciledFalse_def Let_def)

lemma early_state_prune:
  "early_state M cjm c reason \<Longrightarrow>
   early_state M cjm (fst (pruneOrphanedRunning c owned cj t)) reason"
  unfolding early_state_def using keeps_trans [OF _ keeps_prune] by (simp add: prune_status)

lemma axis_early_written:
  "t \<in> {ConditionReconciled, ConditionScheduleHealthy} \<Longrightarrow> axis M (early_written M c) t = axis M c t"
  by (auto simp: early_written_def axis_Ready_other axis_DurationHealthy_other
      axis_ExecutionHealthy_other)

lemma axis_evaluate_all:
  "axis M (evaluate_all M n c) ConditionReconciled
     = Some (ConditionTrue, ReasonReconcileSuccess, [Lit ''CronJob resolved, schedule parsed''],
             Generation c)"
  "axis M (evaluate_all M n c) ConditionScheduleHealthy
     = axis M (evaluateScheduleHealthy M c n) ConditionScheduleHealthy"
  "axis M (evaluate_all M n c) ConditionExecutionHealthy
     = axis M (evaluateExecutionHealthy M (evaluateScheduleHealthy M c n)) ConditionExecutionHealthy"
  by (simp_all add: evaluate_all_def Let_def axis_Ready_other axis_DurationHealthy_other
      axis_ExecutionHealthy_other)

end

section \<open>The shapes of a pass\<close>

definition early_pass ::
  "answers \<Rightarrow> key \<Rightarrow> (key \<rightharpoonup> int) \<Rightarrow> effect list \<Rightarrow> CronJobMonitor \<Rightarrow> pass" where
  "early_pass W k m evs c =
     settled W c evs (GoMap m)
       (\<lambda>s. \<lparr>pBaseline = GoMap (m(k \<mapsto> raised (m k) (MissedRuns (Status s)))),
             pTrace = evs @ [StatusUpdate c], pLabel = ResultRequeue,
             pRequeue = requeueAfterError, pErr = None\<rparr>)"

definition measured_pass ::
  "answers \<Rightarrow> key \<Rightarrow> (key \<rightharpoonup> int) \<Rightarrow> effect list \<Rightarrow> CronJobMonitor \<Rightarrow> int \<Rightarrow> int \<Rightarrow> duration \<Rightarrow> pass" where
  "measured_pass W k m evs c missed prev requeue =
     settled W c evs (GoMap m)
       (\<lambda>s. \<lparr>pBaseline = GoMap (m(k \<mapsto> missed)),
             pTrace = evs @ [StatusUpdate c] @
               (if prev < missed then [MissedRunsTotal_Add k (to_int32 (missed - prev))] else []),
             pLabel = ResultSuccess, pRequeue = requeue, pErr = None\<rparr>)"

definition failed_pass :: "(key \<rightharpoonup> int) \<Rightarrow> effect list \<Rightarrow> reconcile_error \<Rightarrow> pass" where
  "failed_pass m evs e = \<lparr>pBaseline = GoMap m, pTrace = evs, pLabel = ResultError, pRequeue = 0,
                          pErr = Some e\<rparr>"

lemma finishEarlyReturn_pass:
  "lastMissed r = GoMap m \<Longrightarrow>
   finishEarlyReturn D W r k c0 prior EventTypeWarning reason message
   = Some (early_pass W k m (early_events r prior reason message) (early_written (Meta D) c0))"
  by (simp add: finishEarlyReturn_def settled_def patchStatus_def early_written_def early_events_def
      early_pass_def Let_def split: sum.split)

lemma finish_measured_pass:
  "lastMissed r = GoMap m \<Longrightarrow>
   finish_measured D W r k c missed prev nextExpected P
   = Some (measured_pass W k m (emitTransitionEvents (Meta D) r c P) c missed prev
            (requeue_interval nextExpected (now r W AtRequeue)))"
  by (simp add: finish_measured_def settled_def patchStatus_def measured_pass_def Let_def
      split: sum.split)

lemma after_effects_pass [simp]:
  "after_effects es (Some (early_pass W k m evs c)) = Some (early_pass W k m (es @ evs) c)"
  "after_effects es (Some (measured_pass W k m evs c missed prev q))
     = Some (measured_pass W k m (es @ evs) c missed prev q)"
  "after_effects es (Some (failed_pass m evs e)) = Some (failed_pass m (es @ evs) e)"
  by (simp_all add: after_effects_def early_pass_def measured_pass_def failed_pass_def settled_def
      split: sum.split)

text \<open>A measured pass: what the reconcile computed before it evaluates the conditions.\<close>

definition measured_state :: "meta_api \<Rightarrow> CronJobMonitor \<Rightarrow> CronJobMonitor \<Rightarrow> int \<Rightarrow> gotime \<Rightarrow> bool" where
  "measured_state M cjm c missed nextExpected \<longleftrightarrow>
     keeps M cjm c \<and> NextExpectedTime (Status c) = Some nextExpected
     \<and> ring_invar (history_limit cjm) (RecentExecutions (Status c))
     \<and> 0 \<le> missed \<and> missed \<le> 100001"

definition prelude_events :: "CronJobMonitor \<Rightarrow> effect list \<Rightarrow> bool" where
  "prelude_events cjm evs \<longleftrightarrow>
     list_all is_event evs \<and> (ObservedGeneration (Status cjm) = Generation cjm \<longrightarrow> evs = [])"

lemma measure_drift_total: "\<exists>c'. measure_drift parsed c = Some c'"
proof (cases "LastScheduleTime (Status c)")
  case (Some lst)
  with Prev_cases [of parsed lst] show ?thesis by (auto simp: measure_drift_def Let_def)
qed (simp add: measure_drift_def)

lemma measure_drift_NextExpectedTime:
  "measure_drift parsed c = Some c' \<Longrightarrow> NextExpectedTime (Status c') = NextExpectedTime (Status c)"
  by (auto simp: measure_drift_def Let_def split: option.splits if_splits)

lemma to_int32_MissedRunsSince [simp]:
  "to_int32 (MissedRunsSince s a t g) = MissedRunsSince s a t g"
  using MissedRunsSince_bounds [of s a t g] by (intro to_int32_id) simp_all

lemma reconcile_measured_pass:
  assumes "lastMissed r = GoMap m" and "m k = Some prev" and "keeps (Meta D) cjm c0"
    and "ring_invar (history_limit cjm) (RecentExecutions (Status c0))"
  obtains c missed where "measured_state (Meta D) cjm c missed nextExpected"
    and "missed = MissedRunsSince parsed (missed_floor c cj ov t) t
           (to_int64 (GracePeriodSeconds (Spec c) * Second))"
    and "outcomes c = outcomes c0"
    and "reconcile_measured D W r k c0 cj parsed ov owned t nextExpected P
         = Some (measured_pass W k m (emitTransitionEvents (Meta D) r (evaluate_all (Meta D) missed c) P)
             (evaluate_all (Meta D) missed c) missed prev
             (requeue_interval nextExpected (now r W AtRequeue)))"
proof -
  let ?c0 = "upd_status (\<lambda>s. s\<lparr>NextExpectedTime := Some nextExpected\<rparr>) c0"
  obtain c1 where c1: "measure_drift parsed ?c0 = Some c1" using measure_drift_total by blast
  define c where "c = fst (pruneOrphanedRunning c1 owned cj t)"
  define missed where "missed = to_int32 (MissedRunsSince parsed (missed_floor c cj ov t) t
      (to_int64 (GracePeriodSeconds (Spec c) * Second)))"
  have k0: "keeps (Meta D) cjm ?c0" using assms(3) by (rule keeps_trans) (rule keeps_upd_status; simp)
  have "keeps (Meta D) ?c0 c1" by (rule keeps_measure_drift [OF c1])
  then have k1: "keeps (Meta D) ?c0 c" unfolding c_def by (rule keeps_trans [OF _ keeps_prune])
  have "NextExpectedTime (Status c) = Some nextExpected"
    using measure_drift_NextExpectedTime [OF c1] by (simp add: c_def prune_status)
  moreover have "ring_invar (history_limit cjm) (RecentExecutions (Status c))"
    using k0 k1 assms(4) history_limit_Spec [of ?c0 cjm] by (simp add: keeps_def)
  moreover have "0 \<le> missed \<and> missed \<le> 100001"
    using MissedRunsSince_bounds by (simp add: missed_def)
  ultimately have "measured_state (Meta D) cjm c missed nextExpected"
    using keeps_trans [OF k0 k1] by (simp add: measured_state_def)
  moreover have "reconcile_measured D W r k c0 cj parsed ov owned t nextExpected P
      = finish_measured D W r k (evaluate_all (Meta D) missed c) missed prev nextExpected P"
    using assms(1,2) c1
    by (simp add: reconcile_measured_def Let_def c_def missed_def case_prod_beta)
  moreover have "missed = MissedRunsSince parsed (missed_floor c cj ov t) t
      (to_int64 (GracePeriodSeconds (Spec c) * Second))"
    by (simp add: missed_def)
  moreover have "outcomes c = outcomes c0"
    using outcomes_measure_drift [OF c1] by (simp add: c_def) (simp add: outcomes_def)
  ultimately show thesis using that finish_measured_pass [OF assms(1)] by metis
qed

section \<open>The cases of a pass\<close>

text \<open>The baseline after the checkpoint that was read has been taken into account.\<close>

definition seeded :: "(key \<rightharpoonup> int) \<Rightarrow> key \<Rightarrow> CronJobMonitor \<Rightarrow> (key \<rightharpoonup> int)" where
  "seeded m k cjm = m(k \<mapsto> raised (m k) (MissedRuns (Status cjm)))"

definition early_shape ::
  "deps \<Rightarrow> answers \<Rightarrow> CronJobMonitorReconciler \<Rightarrow> key \<Rightarrow> (key \<rightharpoonup> int) \<Rightarrow> CronJobMonitor \<Rightarrow> pass \<Rightarrow> bool" where
  "early_shape D W r k m cjm p \<longleftrightarrow>
     (\<exists>c reason message evs. early_state (Meta D) cjm c reason \<and> prelude_events cjm evs
        \<and> p = early_pass W k (seeded m k cjm)
            (evs @ early_events r (find_condition (Meta D) cjm ConditionReconciled) reason message)
            (early_written (Meta D) c))"

definition measured_shape ::
  "deps \<Rightarrow> answers \<Rightarrow> CronJobMonitorReconciler \<Rightarrow> key \<Rightarrow> (key \<rightharpoonup> int) \<Rightarrow> CronJobMonitor \<Rightarrow> pass \<Rightarrow> bool" where
  "measured_shape D W r k m cjm p \<longleftrightarrow>
     (\<exists>c missed nextExpected evs. measured_state (Meta D) cjm c missed nextExpected \<and> prelude_events cjm evs
        \<and> p = measured_pass W k (seeded m k cjm)
            (evs @ emitTransitionEvents (Meta D) r (evaluate_all (Meta D) missed c)
                     (snapshot_priors (Meta D) cjm))
            (evaluate_all (Meta D) missed c) missed (raised (m k) (MissedRuns (Status cjm)))
            (requeue_interval nextExpected (now r W AtRequeue)))"

definition failed_shape :: "key \<Rightarrow> (key \<rightharpoonup> int) \<Rightarrow> CronJobMonitor \<Rightarrow> pass \<Rightarrow> bool" where
  "failed_shape k m cjm p \<longleftrightarrow>
     (\<exists>evs e. prelude_events cjm evs \<and> p = failed_pass (seeded m k cjm) evs e)"

lemma prelude_Nil [simp]: "prelude_events cjm []"
  by (simp add: prelude_events_def)

lemma prelude_mismatch:
  "prelude_events cjm (mismatch_events r (upd_status (\<lambda>s. s\<lparr>ResolvedSchedule := a, ResolvedTimeZone := b\<rparr>) cjm)
     cj e ov)"
  by (simp add: prelude_events_def mismatch_events_def)

lemma priorReconciled_find:
  "priorReconciled (snapshot_priors M cjm) = find_condition M cjm ConditionReconciled"
  by (simp add: snapshot_priors_def snapshotCondition_def find_condition_def)

lemma early_shapeI:
  assumes "finishEarlyReturn D W (r\<lparr>lastMissed := GoMap (seeded m k cjm)\<rparr>) k c
      (priorReconciled (snapshot_priors (Meta D) cjm)) EventTypeWarning reason message = x"
    and "early_state (Meta D) cjm c reason" and "prelude_events cjm evs"
  shows "\<exists>p. after_effects evs x = Some p \<and> early_shape D W r k m cjm p"
proof -
  let ?p = "early_pass W k (seeded m k cjm)
      (evs @ early_events r (find_condition (Meta D) cjm ConditionReconciled) reason message)
      (early_written (Meta D) c)"
  have "after_effects evs x = Some ?p"
    using assms(1) by (auto simp: finishEarlyReturn_pass priorReconciled_find)
  moreover have "early_shape D W r k m cjm ?p"
    unfolding early_shape_def using assms(2,3) by blast
  ultimately show ?thesis by blast
qed

lemma after_no_effects [simp]: "after_effects [] x = x"
  by (cases x) (simp_all add: after_effects_def)

lemma unsatisfiable_shape:
  assumes "condition_store (Meta D)" and "keeps (Meta D) cjm c" and "prelude_events cjm evs"
  shows "\<exists>p. after_effects evs (unsatisfiable_schedule D W (r\<lparr>lastMissed := GoMap (seeded m k cjm)\<rparr>) k c e
           (snapshot_priors (Meta D) cjm)) = Some p \<and> early_shape D W r k m cjm p"
  unfolding unsatisfiable_schedule_def Let_def
  by (rule early_shapeI [OF refl condition_store.early_state_not_measuring [OF assms(1,2)] assms(3)])

lemma reconcile_scheduled_shape:
  assumes "condition_store (Meta D)"
  shows "\<exists>p. reconcile_scheduled D W (r\<lparr>lastMissed := GoMap (seeded m k cjm)\<rparr>) k cjm cj parsed e z ov
               (snapshot_priors (Meta D) cjm) = Some p
           \<and> (failed_shape k m cjm p \<or> early_shape D W r k m cjm p \<or> measured_shape D W r k m cjm p)"
proof -
  let ?r = "r\<lparr>lastMissed := GoMap (seeded m k cjm)\<rparr>" and ?P = "snapshot_priors (Meta D) cjm"
  let ?c = "upd_status (\<lambda>s. s\<lparr>ResolvedSchedule := Some e, ResolvedTimeZone := Some z\<rparr>) cjm"
  let ?evs = "mismatch_events r ?c cj e ov"
  have k: "keeps (Meta D) cjm ?c" by (rule keeps_upd_status) simp_all
  show ?thesis
  proof (cases "listOwnedJobs (List_Jobs W) cj")
    case (Inl err)
    then have "reconcile_scheduled D W ?r k cjm cj parsed e z ov ?P
        = Some (failed_pass (seeded m k cjm) ?evs (ListJobsErr err))"
      by (simp add: reconcile_scheduled_def after_effects_def failed_pass_def)
    then show ?thesis using prelude_mismatch unfolding failed_shape_def by blast
  next
    case (Inr jobs)
    let ?o = "sortJobsNewestFirst jobs" and ?t = "now r W AtNow"
    let ?c1 = "merge_observed ?c ?o"
    have k1: "keeps (Meta D) cjm ?c1" by (rule keeps_trans [OF k keeps_merge_observed])
    obtain n sat where n: "NextSlot parsed ?t = (n, sat)" by force
    have eq: "reconcile_scheduled D W ?r k cjm cj parsed e z ov ?P = after_effects ?evs
        (if \<not> sat then unsatisfiable_schedule D W ?r k ?c1 e ?P
         else reconcile_measured D W ?r k ?c1 cj parsed ov ?o ?t n ?P)"
      using Inr n by (simp add: reconcile_scheduled_def Let_def)
    show ?thesis
    proof (cases sat)
      case False
      have "\<exists>p. after_effects ?evs (unsatisfiable_schedule D W ?r k ?c1 e ?P) = Some p
          \<and> early_shape D W r k m cjm p"
        by (rule unsatisfiable_shape [OF assms k1 prelude_mismatch])
      with False eq show ?thesis by auto
    next
      case True
      have ring: "ring_invar (history_limit cjm) (RecentExecutions (Status ?c1))"
        using merge_observed_ring [of ?c ?o] history_limit_Spec [of ?c cjm] by simp
      obtain c missed where "measured_state (Meta D) cjm c missed n"
        "reconcile_measured D W ?r k ?c1 cj parsed ov ?o ?t n ?P
         = Some (measured_pass W k (seeded m k cjm)
             (emitTransitionEvents (Meta D) ?r (evaluate_all (Meta D) missed c) ?P)
             (evaluate_all (Meta D) missed c) missed (raised (m k) (MissedRuns (Status cjm)))
             (requeue_interval n (now ?r W AtRequeue)))"
        by (rule reconcile_measured_pass [where r = ?r and m = "seeded m k cjm" and k = k and cjm = cjm
              and ?c0.0 = ?c1 and nextExpected = n and D = D and W = W and cj = cj and parsed = parsed
              and ov = ov and owned = ?o and t = ?t and P = ?P])
          (use k1 ring in \<open>simp_all add: seeded_def\<close>)
      with True eq prelude_mismatch show ?thesis unfolding measured_shape_def by fastforce
    qed
  qed
qed

definition shape ::
  "deps \<Rightarrow> answers \<Rightarrow> CronJobMonitorReconciler \<Rightarrow> key \<Rightarrow> (key \<rightharpoonup> int) \<Rightarrow> CronJobMonitor \<Rightarrow> pass \<Rightarrow> bool" where
  "shape D W r k m cjm p \<longleftrightarrow>
     failed_shape k m cjm p \<or> early_shape D W r k m cjm p \<or> measured_shape D W r k m cjm p"

lemma early_path_shape:
  assumes "finishEarlyReturn D W (r\<lparr>lastMissed := GoMap (seeded m k cjm)\<rparr>) k c
      (priorReconciled (snapshot_priors (Meta D) cjm)) EventTypeWarning reason message = x"
    and "early_state (Meta D) cjm c reason"
  shows "\<exists>p. x = Some p \<and> shape D W r k m cjm p"
  using early_shapeI [OF assms prelude_Nil] by (auto simp: shape_def)

lemma reconcile_resolved_shape:
  assumes "condition_store (Meta D)"
  shows "\<exists>p. reconcile_resolved D W (r\<lparr>lastMissed := GoMap (seeded m k cjm)\<rparr>) k cjm cj loc z
               (snapshot_priors (Meta D) cjm) = Some p \<and> shape D W r k m cjm p"
proof (cases "ParseInLocation (CronParser D) (schedule_expr cjm cj) (Some loc)")
  case (Inl err)
  show ?thesis
    using early_path_shape [OF _ condition_store.early_state_not_measuring [OF assms keeps_refl]]
    by (simp add: reconcile_resolved_def Let_def Inl invalid_schedule_def)
next
  case (Inr parsed)
  then show ?thesis
    using reconcile_scheduled_shape [OF assms] by (simp add: reconcile_resolved_def Let_def shape_def)
qed

lemma reconcile_found_shape:
  assumes "condition_store (Meta D)"
  shows "\<exists>p. reconcile_found D W (r\<lparr>lastMissed := GoMap (seeded m k cjm)\<rparr>) k cjm cj
               (snapshot_priors (Meta D) cjm) = Some p \<and> shape D W r k m cjm p"
proof (cases "cjSuspend cj = Some True")
  case True
  have "early_state (Meta D) cjm (case listOwnedJobs (List_Jobs W) cj of
        Inl lerr \<Rightarrow> set_condition (Meta D) ConditionScheduleHealthy ConditionUnknown rs ms
                     (setReconciledFalse (Meta D) reason message cjm)
      | Inr owned \<Rightarrow> fst (pruneOrphanedRunning (set_condition (Meta D) ConditionScheduleHealthy
            ConditionUnknown rs ms (setReconciledFalse (Meta D) reason message cjm)) owned cj t)) reason"
    for rs ms reason message t
    using condition_store.early_state_suspended [OF assms]
      condition_store.early_state_prune [OF assms] by (auto split: sum.split)
  from early_path_shape [OF refl this] True show ?thesis
    by (simp add: reconcile_found_def cronjob_suspended_def Let_def)
next
  case False
  show ?thesis
  proof (cases "timezone_name cjm cj = []")
    case True
    with False reconcile_resolved_shape [OF assms] show ?thesis by (simp add: reconcile_found_def)
  next
    case tz: False
    show ?thesis
    proof (cases "LoadLocation D (timezone_name cjm cj)")
      case (Inl lerr)
      show ?thesis
        using early_path_shape [OF refl condition_store.early_state_not_measuring [OF assms keeps_refl]]
          False tz by (simp add: reconcile_found_def Let_def Inl invalid_timezone_def)
    next
      case (Inr loc)
      with False tz reconcile_resolved_shape [OF assms] show ?thesis
        by (simp add: reconcile_found_def Let_def)
    qed
  qed
qed

text \<open>Every pass over an existing monitor returns and has one of the three shapes.\<close>

lemma reconcile_monitor_shape:
  assumes "condition_store (Meta D)" and "lastMissed r = GoMap m"
  shows "\<exists>p. reconcile_monitor D W r k cjm = Some p \<and> shape D W r k m cjm p"
proof -
  have s: "syncMissedBaseline k (MissedRuns (Status cjm)) (lastMissed r) = Some (GoMap (seeded m k cjm))"
    by (simp add: assms(2) seeded_def)
  show ?thesis
  proof (cases "Get_CronJob W (Namespace cjm, CronJobRef (Spec cjm))")
    case (Inr cj)
    then show ?thesis
      using reconcile_found_shape [OF assms(1)] by (simp add: reconcile_monitor_def s Let_def)
  next
    case (Inl err)
    show ?thesis
    proof (cases "err = NotFound")
      case True
      have "keeps (Meta D) cjm (fst (pruneOrphanedRunning cjm [] empty_CronJob (now r W AtPrune)))"
        by (rule keeps_prune)
      from early_path_shape [OF refl condition_store.early_state_not_measuring [OF assms(1) this]]
      show ?thesis using Inl True
        by (simp add: reconcile_monitor_def s Let_def cronjob_not_found_def case_prod_beta)
    next
      case False
      then have "reconcile_monitor D W r k cjm = Some (failed_pass (seeded m k cjm) [] (GetCronJobErr err))"
        using Inl by (simp add: reconcile_monitor_def s Let_def failed_pass_def)
      then show ?thesis using prelude_Nil unfolding shape_def failed_shape_def by blast
    qed
  qed
qed

end
