(* ===== verification/Reconcile_Local.thy ===== *)
theory Reconcile_Local
  imports Reconcile_Props
begin

text \<open>
  A reconcile reads and writes the shared baseline at its own key only. So a pass never hangs or
  panics on a map that \<open>SetupWithManager\<close> has made, and passes over different monitors commute,
  which is what running several workers on one map needs.
\<close>

section \<open>Setting up\<close>

definition SetupWithManager :: "CronJobMonitorReconciler \<Rightarrow> CronJobMonitorReconciler" where
  "SetupWithManager r =
     (if lastMissed r = NilMap then r\<lparr>lastMissed := GoMap Map.empty\<rparr> else r)"

definition controllerOptions :: "CronJobMonitorReconciler \<Rightarrow> int" where
  "controllerOptions r =
     (let workers = MaxConcurrentReconciles r in if workers < 1 then 1 else workers)"

lemma SetupWithManager_GoMap: "\<exists>m. lastMissed (SetupWithManager r) = GoMap m"
  by (cases "lastMissed r") (simp_all add: SetupWithManager_def)

section \<open>Locality\<close>

text \<open>\<open>relocate k m p\<close>: the pass \<open>p\<close> with its entry for \<open>k\<close> put into the map \<open>m\<close>.\<close>

definition relocate :: "key \<Rightarrow> (key \<rightharpoonup> int) \<Rightarrow> pass \<Rightarrow> pass" where
  "relocate k m p = p\<lparr>pBaseline := GoMap (m(k := map_get (pBaseline p) k))\<rparr>"

lemma local_finishEarlyReturn:
  assumes "m' k = m k"
  shows "finishEarlyReturn D W (r\<lparr>lastMissed := GoMap m'\<rparr>) k c prior EventTypeWarning rs ms
     = map_option (relocate k m')
         (finishEarlyReturn D W (r\<lparr>lastMissed := GoMap m\<rparr>) k c prior EventTypeWarning rs ms)"
  using assms
  by (auto simp: finishEarlyReturn_pass early_pass_def settled_def relocate_def fun_upd_idem
      split: sum.split)

lemma local_finish_measured:
  assumes "m' k = m k"
  shows "finish_measured D W (r\<lparr>lastMissed := GoMap m'\<rparr>) k c missed prev n P
     = map_option (relocate k m')
         (finish_measured D W (r\<lparr>lastMissed := GoMap m\<rparr>) k c missed prev n P)"
  using assms
  by (auto simp: finish_measured_pass measured_pass_def settled_def relocate_def fun_upd_idem
      split: sum.split)

lemma local_reconcile_measured:
  assumes "m' k = m k"
  shows "reconcile_measured D W (r\<lparr>lastMissed := GoMap m'\<rparr>) k c cj s ov owned t n P
     = map_option (relocate k m')
         (reconcile_measured D W (r\<lparr>lastMissed := GoMap m\<rparr>) k c cj s ov owned t n P)"
  by (simp add: reconcile_measured_def Let_def local_finish_measured [of m' k m, OF assms] assms case_prod_beta
      split: option.split)

lemma relocate_after_effects:
  "after_effects es (map_option (relocate k m) x) = map_option (relocate k m) (after_effects es x)"
  by (cases x) (simp_all add: after_effects_def relocate_def)

lemma local_reconcile_scheduled:
  assumes "m' k = m k"
  shows "reconcile_scheduled D W (r\<lparr>lastMissed := GoMap m'\<rparr>) k c cj s e z ov P
     = map_option (relocate k m')
         (reconcile_scheduled D W (r\<lparr>lastMissed := GoMap m\<rparr>) k c cj s e z ov P)"
proof (cases "listOwnedJobs (List_Jobs W) cj")
  case (Inl err)
  with assms show ?thesis
    by (simp add: reconcile_scheduled_def Let_def after_effects_def relocate_def fun_upd_idem)
next
  case (Inr jobs)
  then show ?thesis
    by (simp add: reconcile_scheduled_def Let_def unsatisfiable_schedule_def
        local_finishEarlyReturn [of m' k m, OF assms] local_reconcile_measured [of m' k m, OF assms]
        relocate_after_effects case_prod_beta)
qed

lemma local_reconcile_found:
  assumes "m' k = m k"
  shows "reconcile_found D W (r\<lparr>lastMissed := GoMap m'\<rparr>) k c cj P
     = map_option (relocate k m') (reconcile_found D W (r\<lparr>lastMissed := GoMap m\<rparr>) k c cj P)"
  by (simp add: reconcile_found_def reconcile_resolved_def cronjob_suspended_def invalid_timezone_def
      invalid_schedule_def Let_def local_finishEarlyReturn [of m' k m, OF assms]
      local_reconcile_scheduled [of m' k m, OF assms] split: sum.split)

lemma local_reconcile_monitor:
  assumes "m' k = m k"
  shows "reconcile_monitor D W (r\<lparr>lastMissed := GoMap m'\<rparr>) k c
     = map_option (relocate k m') (reconcile_monitor D W (r\<lparr>lastMissed := GoMap m\<rparr>) k c)"
proof -
  let ?s = "\<lambda>m. m(k \<mapsto> raised (m k) (MissedRuns (Status c)))"
  have s: "?s m' k = ?s m k" by (simp add: assms)
  have rel: "relocate k (?s m') = relocate k m'"
    by (simp add: relocate_def fun_eq_iff)
  show ?thesis
    using local_reconcile_found [of "?s m'" k "?s m", OF s]
      local_finishEarlyReturn [of "?s m'" k "?s m", OF s]
    by (simp add: reconcile_monitor_def cronjob_not_found_def Let_def rel case_prod_beta split: sum.split)
      (simp add: relocate_def assms)
qed

lemma local_Reconcile:
  assumes "m' k = m k"
  shows "Reconcile D W (r\<lparr>lastMissed := GoMap m'\<rparr>) k
     = map_option (relocate k m') (Reconcile D W (r\<lparr>lastMissed := GoMap m\<rparr>) k)"
proof (cases "Get_CronJobMonitor W k")
  case (Inl err)
  with assms show ?thesis
    by (simp add: Reconcile_def reconcile_body_def relocate_def deferred_metrics_def Let_def fun_upd_idem)
next
  case (Inr c)
  then show ?thesis
    by (cases "reconcile_monitor D W (r\<lparr>lastMissed := GoMap m\<rparr>) k c")
      (simp_all add: Reconcile_def reconcile_body_def local_reconcile_monitor [of m' k m, OF assms] Let_def
        relocate_def deferred_metrics_def)
qed

section \<open>Totality\<close>

lemma finish_total:
  "lastMissed r = GoMap m \<Longrightarrow> \<exists>p. finishEarlyReturn D W r k c prior EventTypeWarning rs ms = Some p"
  "lastMissed r = GoMap m \<Longrightarrow> \<exists>p. finish_measured D W r k c missed prev n P = Some p"
  by (simp_all add: finishEarlyReturn_pass finish_measured_pass)

lemma reconcile_measured_total:
  assumes "lastMissed r = GoMap m"
  shows "\<exists>p. reconcile_measured D W r k c cj s ov owned t n P = Some p"
  using measure_drift_total [of s "upd_status (\<lambda>s. s\<lparr>NextExpectedTime := Some n\<rparr>) c"]
  by (auto simp: reconcile_measured_def Let_def case_prod_beta finish_measured_pass [OF assms])

lemma after_effects_total: "(\<exists>p. after_effects es x = Some p) = (\<exists>p. x = Some p)"
  by (cases x) (simp_all add: after_effects_def)

lemma reconcile_scheduled_total:
  assumes "lastMissed r = GoMap m"
  shows "\<exists>p. reconcile_scheduled D W r k c cj s e z ov P = Some p"
  using reconcile_measured_total [OF assms]
  by (auto simp: reconcile_scheduled_def Let_def after_effects_total unsatisfiable_schedule_def
      finishEarlyReturn_pass [OF assms] case_prod_beta split: sum.split)

lemma reconcile_found_total:
  assumes "lastMissed r = GoMap m"
  shows "\<exists>p. reconcile_found D W r k c cj P = Some p"
  using reconcile_scheduled_total [OF assms]
  by (auto simp: reconcile_found_def reconcile_resolved_def cronjob_suspended_def invalid_timezone_def
      invalid_schedule_def Let_def finishEarlyReturn_pass [OF assms] split: sum.split)

lemma reconcile_monitor_total:
  assumes "lastMissed r = GoMap m"
  shows "\<exists>p. reconcile_monitor D W r k c = Some p"
proof -
  let ?r = "r\<lparr>lastMissed := GoMap (m(k \<mapsto> raised (m k) (MissedRuns (Status c))))\<rparr>"
  have l: "lastMissed ?r = GoMap (m(k \<mapsto> raised (m k) (MissedRuns (Status c))))" by simp
  show ?thesis
    using reconcile_found_total [OF l]
    by (auto simp: reconcile_monitor_def assms cronjob_not_found_def Let_def case_prod_beta
        finishEarlyReturn_pass [OF l] split: sum.split)
qed

lemma Reconcile_total:
  assumes "lastMissed r = GoMap m"
  shows "\<exists>p. Reconcile D W r k = Some p"
proof (cases "Get_CronJobMonitor W k")
  case (Inr c)
  obtain p where "reconcile_monitor D W r k c = Some p"
    using reconcile_monitor_total [OF assms] by blast
  with Inr show ?thesis by (simp add: Reconcile_def reconcile_body_def)
qed (simp add: Reconcile_def reconcile_body_def)

text \<open>What a reconcile does alone it does on every map that has the same entry for its key.\<close>

lemma Reconcile_alone:
  assumes "lastMissed r = GoMap m"
  obtains p v where "Reconcile D W r k = Some p" and "pBaseline p = GoMap (m(k := v))"
    and "\<forall>m'. m' k = m k \<longrightarrow> Reconcile D W (r\<lparr>lastMissed := GoMap m'\<rparr>) k
             = Some (p\<lparr>pBaseline := GoMap (m'(k := v))\<rparr>)"
proof -
  have r: "r\<lparr>lastMissed := GoMap m\<rparr> = r" using assms by simp
  obtain p where p: "Reconcile D W r k = Some p" using Reconcile_total [OF assms] by blast
  then have "p = relocate k m p" using local_Reconcile [of m k m D W r] by (simp add: r)
  then have "pBaseline p = GoMap (m(k := map_get (pBaseline p) k))"
    by (metis pass.select_convs(1) pass.surjective pass.update_convs(1) relocate_def)
  with p show thesis
    using local_Reconcile [of _ k m D W r] by (intro that allI impI) (auto simp: r relocate_def)
qed

end
