(* ===== verification/Schedule_Props.thy ===== *)
theory Schedule_Props
  imports Cron_Schedule
begin

text \<open>
  A schedule that meets the contract \<open>cron_slots\<close>, and the properties of \<open>internal/schedule\<close>.
  The schedule is the sparsest one the grammar admits, \<open>0 0 29 2 *\<close> in UTC, with a \<open>Next\<close> that
  gives up after five calendar years as the library's does; the gap from 2096 to 2104 is wider
  than that reach.
\<close>

section \<open>The leap-day schedule\<close>

definition leap_slot :: "int \<Rightarrow> gotime" where
  "leap_slot y = Date y 2 29 0 0 time_UTC"

definition leap_next :: "gotime \<Rightarrow> gotime" where
  "leap_next t =
     (let y0 = Year (In t time_UTC) in
      case filter (\<lambda>y. leap y \<and> ns t < ns (leap_slot y)) [y0..y0 + 5] of
        [] \<Rightarrow> zero_time
      | y # _ \<Rightarrow> leap_slot y)"

definition leap_day_schedule :: Schedule where
  "leap_day_schedule = Schedule (SpecSchedule leap_next (Some time_UTC))"

definition is_leap_slot :: "int \<Rightarrow> bool" where
  "is_leap_slot u \<longleftrightarrow>
     (let y = Year (GoTime u time_UTC) in leap y \<and> u = ns (leap_slot y))"

lemma wall_UTC: "wall (GoTime u time_UTC) = u div Second"
  by (simp add: wall_def unix_sec_def time_UTC_def)

lemma ns_leap_slot: "ns (leap_slot y) = (days_before y + 59 - epoch_day) * 86400 * Second"
  by (simp add: leap_slot_def Date_def unix_of_wall_def time_UTC_def month_start_def)

lemma leap_slot_eq: "leap_slot y = GoTime (ns (leap_slot y)) time_UTC"
  by (simp add: leap_slot_def Date_def)

lemma Year_leap_slot [simp]: "Year (GoTime (ns (leap_slot y)) time_UTC) = y"
proof -
  have "wall_day (GoTime (ns (leap_slot y)) time_UTC) = days_before y + 59"
    by (simp add: wall_day_def wall_UTC ns_leap_slot)
  then show ?thesis
    by (simp add: Year_def year_of_day_unique days_before_Suc)
qed

lemma leap_slot_mono: "y < z \<Longrightarrow> ns (leap_slot y) < ns (leap_slot z)"
  using days_before_strict [of y z] by (simp add: ns_leap_slot)

lemma leap_slot_nonzero [simp]: "\<not> IsZero (leap_slot y)"
proof
  assume "IsZero (leap_slot y)"
  then have z: "ns (leap_slot y) = zero_ns" by (simp add: IsZero_def)
  then have "Year (GoTime zero_ns time_UTC) = y" using Year_leap_slot [of y] by simp
  moreover have "wall_day (GoTime zero_ns time_UTC) = 0"
    by (simp add: wall_day_def wall_UTC zero_ns_def epoch_day_def Second_def)
  then have "Year (GoTime zero_ns time_UTC) = 1"
    by (simp add: Year_def year_of_day_unique days_before_def)
  ultimately have "y = 1" by simp
  from z show False
    unfolding \<open>y = 1\<close> by (simp add: ns_leap_slot days_before_def epoch_day_def zero_ns_def Second_def)
qed

lemma is_leap_slot_iff: "is_leap_slot u \<longleftrightarrow> (\<exists>y. leap y \<and> u = ns (leap_slot y))"
  by (auto simp: is_leap_slot_def Let_def)

lemma Year_mono_UTC: "ns a \<le> u \<Longrightarrow> Year (In a time_UTC) \<le> Year (GoTime u time_UTC)"
  unfolding Year_le_iff
  using Year_bounds(2) [of "GoTime u time_UTC"] zdiv_mono1 [of "ns a" u Second]
  by (simp add: In_def wall_UTC)

lemma filter_upto_first:
  assumes "filter P [a..b] = y # ys"
  shows "P y" "a \<le> y" "y \<le> b" "\<And>z. a \<le> z \<Longrightarrow> z \<le> b \<Longrightarrow> P z \<Longrightarrow> y \<le> z"
proof -
  have "y \<in> set (filter P [a..b])" using assms by simp
  then show "P y" "a \<le> y" "y \<le> b" by auto
  have "sorted (y # ys)" using sorted_wrt_filter_keep [OF sorted_upto [of a b], of P] assms by simp
  then show "y \<le> z" if "a \<le> z" "z \<le> b" "P z" for z
  proof -
    have "z \<in> set (filter P [a..b])" using that by simp
    with assms \<open>sorted (y # ys)\<close> show ?thesis by auto
  qed
qed

lemma leap_next_cases:
  "leap_next x = zero_time
     \<and> (\<forall>y. leap y \<and> ns x < ns (leap_slot y) \<longrightarrow> Year (In x time_UTC) + 5 < y)
   \<or> (\<exists>y. leap_next x = leap_slot y \<and> leap y \<and> ns x < ns (leap_slot y)
        \<and> (\<forall>z. leap z \<and> ns x < ns (leap_slot z) \<longrightarrow> y \<le> z))"
proof -
  define y0 where "y0 = Year (In x time_UTC)"
  let ?P = "\<lambda>y. leap y \<and> ns x < ns (leap_slot y)"
  have lo: "y0 \<le> y" if "?P y" for y
    using Year_mono_UTC [of x "ns (leap_slot y)"] that by (simp add: y0_def)
  show ?thesis
  proof (cases "filter ?P [y0..y0 + 5]")
    case Nil
    then have "\<not> ?P y" if "y0 \<le> y" "y \<le> y0 + 5" for y
      using that by (auto simp: filter_empty_conv)
    then have "\<forall>y. ?P y \<longrightarrow> y0 + 5 < y" using lo by force
    with Nil show ?thesis by (simp add: leap_next_def y0_def [symmetric] Let_def)
  next
    case (Cons y ys)
    from filter_upto_first [OF Cons] lo
    have "?P y" "\<forall>z. ?P z \<longrightarrow> y \<le> z" by (simp, meson linear order_trans)
    with Cons show ?thesis by (auto simp: leap_next_def y0_def [symmetric] Let_def)
  qed
qed

lemma zero_time_zero [simp]: "IsZero zero_time"
  by (simp add: IsZero_def zero_time_def)

lemma leap_schedule_simps [simp]:
  "Next leap_day_schedule x = leap_next x"
  "cron_Next (expr leap_day_schedule) x = leap_next x"
  "schedule_location leap_day_schedule = time_UTC"
  "\<not> is_local time_UTC" "loc_offset time_UTC u = 0"
  by (simp_all add: Next_def leap_day_schedule_def schedule_location_def time_UTC_def)

interpretation leap_day: cron_slots leap_day_schedule is_leap_slot
proof unfold_locales
  fix x u
  assume nz: "\<not> IsZero (Next leap_day_schedule x)"
  then obtain y where y: "leap_next x = leap_slot y" "leap y" "ns x < ns (leap_slot y)"
    "\<forall>z. leap z \<and> ns x < ns (leap_slot z) \<longrightarrow> y \<le> z"
    using leap_next_cases [of x] by auto
  from y show "ns x < ns (Next leap_day_schedule x)" by simp
  from y show "is_leap_slot (ns (Next leap_day_schedule x))"
    by (auto simp: is_leap_slot_iff)
  assume "is_leap_slot u" "ns x < u"
  with y show "ns (Next leap_day_schedule x) \<le> u"
    by (auto simp: is_leap_slot_iff) (metis leap_slot_mono order_le_less order_refl)
next
  fix x u
  assume "IsZero (Next leap_day_schedule x)" "is_leap_slot u" "ns x < u"
  then show "Year (In x (schedule_location leap_day_schedule)) + 5
      < Year (GoTime u (schedule_location leap_day_schedule))"
    using leap_next_cases [of x] by (auto simp: is_leap_slot_iff)
qed (auto simp: is_leap_slot_iff ns_leap_slot)

section \<open>Evaluating the leap-day schedule\<close>

definition utc :: "int \<Rightarrow> gotime" where
  "utc secs = GoTime (secs * Second) time_UTC"

lemma ns_utc [simp]: "ns (utc a) = a * Second"
  by (simp add: utc_def)

lemma Year_utc: "Year (In (utc a) time_UTC) = year_of_day (a div 86400 + 719162)"
  by (simp add: utc_def In_def Year_def wall_day_def wall_UTC epoch_day_def)

lemmas leap_eval = leap_next_def Year_utc year_of_day_def Let_def leap_def ns_leap_slot
  days_before_def epoch_day_def

lemma leap_next_2096: "leap_next (utc 3981398400) = zero_time"
  by (simp add: leap_eval)

lemma leap_next_2101: "leap_next (Date 2101 12 31 0 0 time_UTC) = leap_slot 2104"
proof -
  have "Date 2101 12 31 0 0 time_UTC = utc 4165430400"
    by (simp add: Date_def utc_def unix_of_wall_def month_start_def leap_def days_before_def
        epoch_day_def)
  then show ?thesis by (simp add: leap_eval)
qed

lemma NextSlot_2096: "NextSlot leap_day_schedule (utc 3981398400) = (leap_slot 2104, True)"
proof -
  have r: "reachFrom (utc 3981398400) time_UTC = Date 2101 12 31 0 0 time_UTC"
    by (simp add: reachFrom_def robfigReachYears_def leap_eval)
  have l: "AddDate (In (utc 3981398400) time_UTC) prevLookbackYears = utc 4265308800"
    by (simp add: AddDate_def Month_def Day_def YearDay_def month_of_yday_def prevLookbackYears_def
        Date_def unix_of_wall_def month_start_def wall_day_def wall_UTC In_def utc_def Year_def
        leap_eval months_list)
  have b: "Before (Date 2101 12 31 0 0 time_UTC) (utc 4265308800)"
    by (simp add: Before_def Date_def unix_of_wall_def month_start_def leap_def days_before_def
        epoch_day_def)
  show ?thesis
    unfolding NextSlot_def Let_def leap_schedule_simps l
    by (subst NextSlot_loop.simps, simp add: leap_next_2096 r b)
      (subst NextSlot_loop.simps, simp add: leap_next_2101)
qed

section \<open>Properties of the schedule package\<close>

text \<open>
  C2. \<open>MissedRunsSince\<close> counts exactly the slots in \<open>(lastStart, now - grace]\<close>, up to the
  safety rail of 100001, also across gaps wider than one call of the library's \<open>Next\<close> can see.
  The slots are those of a schedule that meets \<open>cron_slots\<close>: in a named zone that never moved across
  the date line and whose clock changes by whole hours, where the library skips no slot.
\<close>

theorem MissedRunsSince_counts_slots:
  assumes "cron_slots s slot"
  shows "MissedRunsSince s lastStart now grace
           = min 100001 (int (card {u. slot u \<and> ns lastStart < u \<and> u \<le> ns now - grace}))"
  by (rule cron_slots.MissedRunsSince_card [OF assms])

theorem MissedRunsSince_counts_slots_witness:
  "cron_slots leap_day_schedule is_leap_slot
   \<and> MissedRunsSince leap_day_schedule (utc 3981398400) (utc 4260211200) (60 * Second)
      = min 100001 (int (card {u. is_leap_slot u \<and> 3981398400 * Second < u
                                \<and> u \<le> 4260211140 * Second}))"
  using MissedRunsSince_counts_slots [OF leap_day.cron_slots_axioms,
      of "utc 3981398400" "utc 4260211200" "60 * Second"]
    leap_day.cron_slots_axioms by (simp add: left_diff_distrib [symmetric])

text \<open>
  C7. \<open>Prev\<close> always returns, and it returns the most recent slot at or before its argument:
  found means the greatest slot not after it, not found means that no slot lies between the
  start of the lookback window and it. (For the schedules of the contract \<open>cron_slots\<close>.)
\<close>

theorem Prev_most_recent_slot:
  assumes "cron_slots s slot" and "prevLookbackYears < Year (In t (schedule_location s))"
  shows "(\<exists>n. Prev s t = Some (n, True) \<and> slot (ns n) \<and> ns n \<le> ns t
            \<and> ns (prev_floor s t) < ns n \<and> (\<forall>u. slot u \<and> u \<le> ns t \<longrightarrow> u \<le> ns n))
       \<or> (Prev s t = Some (zero_time, False)
            \<and> (\<forall>u. slot u \<and> ns (prev_floor s t) < u \<longrightarrow> ns t < u))"
  using assms by (rule cron_slots.Prev_spec)

theorem Prev_most_recent_slot_witness:
  "\<exists>n. Prev leap_day_schedule (utc 4210099200) = Some (n, True) \<and> is_leap_slot (ns n)
     \<and> ns n \<le> 4210099200 * Second
     \<and> (\<forall>u. is_leap_slot u \<and> u \<le> 4210099200 * Second \<longrightarrow> u \<le> ns n)"
proof -
  have y: "Year (In (utc 4210099200) time_UTC) = 2103"
    by (simp add: Year_utc year_of_day_def Let_def)
  have f: "ns (prev_floor leap_day_schedule (utc 4210099200)) < ns (leap_slot 2096)"
    by (simp add: prev_floor_def y prevLookbackYears_def Date_def unix_of_wall_def month_start_def
        ns_leap_slot days_before_def epoch_day_def)
  moreover have "ns (leap_slot 2096) \<le> 4210099200 * Second"
    by (simp add: ns_leap_slot days_before_def epoch_day_def)
  moreover have "is_leap_slot (ns (leap_slot 2096))"
    by (auto simp: is_leap_slot_iff leap_def intro!: exI [of _ 2096])
  ultimately show ?thesis
    using Prev_most_recent_slot [OF leap_day.cron_slots_axioms, of "utc 4210099200"]
    by (auto simp: y prevLookbackYears_def)
qed

text \<open>
  C14. \<open>NextSlot\<close> returns the first slot strictly after its argument, however far away it is;
  when it reports none, no slot lies within the nine-year horizon. (For the schedules of the contract
  \<open>cron_slots\<close>.)
\<close>

theorem NextSlot_first_slot:
  assumes "cron_slots s slot"
  shows "case NextSlot s from of
           (n, found) \<Rightarrow>
             if found
             then slot (ns n) \<and> ns from < ns n \<and> (\<forall>u. slot u \<and> ns from < u \<longrightarrow> ns n \<le> u)
             else (\<forall>u. slot u \<and> ns from < u \<longrightarrow>
                     ns (AddDate (In from (schedule_location s)) prevLookbackYears) < u)"
  unfolding NextSlot_def Let_def by (rule cron_slots.NextSlot_loop_spec [OF assms])

theorem NextSlot_first_slot_witness:
  "NextSlot leap_day_schedule (utc 3981398400) = (leap_slot 2104, True)
   \<and> IsZero (Next leap_day_schedule (utc 3981398400))
   \<and> {u. is_leap_slot u \<and> 3981398400 * Second < u \<and> u < ns (leap_slot 2104)} = {}"
  using NextSlot_first_slot [OF leap_day.cron_slots_axioms, of "utc 3981398400"]
  by (auto simp: NextSlot_2096 leap_next_2096)

text \<open>
  C31. \<open>Prev\<close> and \<open>Next\<close> agree: the previous slot of the instant \<open>Next\<close> returns is that
  instant itself, at any distance. (For the schedules of the contract \<open>cron_slots\<close>.)
\<close>

theorem Prev_of_Next:
  assumes c: "cron_slots s slot" and nz: "\<not> IsZero (Next s t)"
    and y: "prevLookbackYears < Year (In (Next s t) (schedule_location s))"
  shows "\<exists>n. Prev s (Next s t) = Some (n, True) \<and> ns n = ns (Next s t)"
proof -
  have sl: "slot (ns (Next s t))" by (rule cron_slots.next_slot [OF c nz])
  have "ns (prev_floor s (Next s t)) < ns (Next s t)"
    using prev_floor_window(1) [of s "Next s t"] Truncate_bounds(1) [of "Next s t"] by simp
  with cron_slots.Prev_spec [OF c y] sl show ?thesis by force
qed

theorem Prev_of_Next_witness:
  "\<exists>n. Prev leap_day_schedule (leap_slot 2104) = Some (n, True) \<and> ns n = ns (leap_slot 2104)"
proof -
  have n: "Next leap_day_schedule (Date 2101 12 31 0 0 time_UTC) = leap_slot 2104"
    by (simp add: leap_next_2101)
  have "Year (In (leap_slot 2104) time_UTC) = 2104"
    by (subst leap_slot_eq) (simp add: In_def)
  then show ?thesis
    using Prev_of_Next [OF leap_day.cron_slots_axioms, of "Date 2101 12 31 0 0 time_UTC"]
    unfolding n by (simp add: prevLookbackYears_def)
qed

text \<open>
  C32. Whatever the cron library answers, \<open>Prev\<close> returns: the bisection ends because both ends
  stay whole seconds. An expression that never fires cannot hang a worker.
\<close>

theorem Prev_always_returns: "\<exists>n found. Prev s t = Some (n, found)"
  using Prev_cases [of s t] by blast

text \<open>
  C37. Whatever the cron library answers, the missed-run count is between 0 and 100001, so its
  conversion to int32 never wraps.
\<close>

theorem MissedRunsSince_fits_int32:
  "0 \<le> MissedRunsSince s lastStart now grace
   \<and> MissedRunsSince s lastStart now grace \<le> 100001
   \<and> to_int32 (MissedRunsSince s lastStart now grace) = MissedRunsSince s lastStart now grace"
  using MissedRunsSince_bounds [of s lastStart now grace] by (simp add: to_int32_id)

text \<open>
  C38. Parsing never fails in an unexpected way: an empty expression is \<open>ErrEmpty\<close>; a panic of
  the parser comes back as an error that is \<open>ErrMalformed\<close>; an interval schedule is
  \<open>ErrRelativeSchedule\<close>; what is accepted is what the parser built and never an interval. An
  expression with its own zone prefix is handed over unchanged, any other is bound to the zone.
\<close>

definition zone_bound :: "string \<Rightarrow> location option \<Rightarrow> string" where
  "zone_bound e loc =
     (if HasPrefix e ''CRON_TZ='' \<or> HasPrefix e ''TZ='' then e
      else ''CRON_TZ='' @ loc_name (case loc of None \<Rightarrow> time_UTC | Some l \<Rightarrow> l) @ '' '' @ e)"

theorem ParseInLocation_outcome:
  "case ParseInLocation parser e loc of
     Inl err \<Rightarrow>
       (if e = [] then err = ErrEmpty
        else case parser (zone_bound e loc) of
               Rejected err' \<Rightarrow> errors_Is err err'
             | Panicked \<Rightarrow> errors_Is err ErrMalformed
             | Parsed c \<Rightarrow> (\<exists>f. c = ConstantDelaySchedule f) \<and> errors_Is err ErrRelativeSchedule)
   | Inr s \<Rightarrow>
       e \<noteq> [] \<and> parser (zone_bound e loc) = Parsed (expr s)
       \<and> (\<forall>f. expr s \<noteq> ConstantDelaySchedule f)"
proof -
  have i: "errors_Is x x" for x by (cases x) simp_all
  show ?thesis
    by (cases "parser (zone_bound e loc)")
      (auto simp: ParseInLocation_def parse_def zone_bound_def i Let_def
        split: cron_schedule.splits if_splits parse_outcome.splits)
qed

text \<open>From any year there is a later leap year at most eight years away.\<close>

lemma leap_gap: "\<exists>z. leap z \<and> y < z \<and> z \<le> y + 8"
proof -
  define a where "a = y + 4 - y mod 4"
  have a: "a mod 4 = 0" "y < a" "a \<le> y + 4" unfolding a_def by presburger+
  have "leap a \<or> leap (a + 4)"
  proof (cases "100 dvd a")
    case True
    then have "\<not> 100 dvd a + 4" by (simp add: dvd_add_right_iff)
    with a show ?thesis by (simp add: leap_dvd dvd_eq_mod_eq_0)
  qed (use a in \<open>simp add: leap_dvd dvd_eq_mod_eq_0\<close>)
  with a show ?thesis by (auto intro: exI [of _ a] exI [of _ "a + 4"])
qed

text \<open>Where a leap day lies, seen from an instant of another year in the same zone.\<close>

definition leap_midnight :: "int \<Rightarrow> location \<Rightarrow> gotime" where
  "leap_midnight y l = Date y 2 29 0 0 l"

definition leap_wall :: "int \<Rightarrow> int" where
  "leap_wall y = (days_before y + 59 - epoch_day) * 86400"

lemma ns_leap_midnight: "ns (leap_midnight y l) = unix_of_wall l (leap_wall y) * Second"
proof -
  have "days_before y + 31 + 28 - epoch_day = days_before y + 59 - epoch_day" by simp
  then show ?thesis
    by (simp only: leap_midnight_def Date_def leap_wall_def) (simp add: month_start_def add.commute)
qed

text \<open>Wall clocks two days apart are in the same order as the instants, whatever the offsets.\<close>

lemma unix_of_wall_far: "v + 172800 \<le> w \<Longrightarrow> unix_of_wall l v < unix_of_wall l w"
  using unix_of_wall_bounds [of v l] unix_of_wall_bounds [of w l] by linarith

lemma days_before_far: "y < z \<Longrightarrow> days_before y + 365 \<le> days_before z"
  using days_before_add [of "nat (z - y)" y] by simp

lemma leap_midnight_before:
  assumes "z < Year (In t l)"
  shows "ns (leap_midnight z l) \<le> ns t"
proof -
  have "unix_of_wall l (leap_wall z) \<le> unix_sec (In t l)"
    using unix_of_wall_bounds [of "leap_wall z" l] wall_bounds [of "In t l"] Year_bounds(1) [of "In t l"]
      days_before_far [OF assms] unfolding leap_wall_def left_diff_distrib distrib_right by linarith
  then have "unix_of_wall l (leap_wall z) * Second \<le> unix_sec (In t l) * Second" by simp
  also have "\<dots> \<le> ns t" using unix_sec_bounds(1) [of "In t l"] by (simp add: In_def)
  finally show ?thesis by (simp add: ns_leap_midnight)
qed

lemma leap_midnight_after:
  assumes "Year (In t l) < z"
  shows "ns t < ns (leap_midnight z l)"
proof -
  have "days_before (Year (In t l) + 1) \<le> days_before z"
    using assms by (intro days_before_mono) simp
  then have "unix_sec (In t l) + 1 \<le> unix_of_wall l (leap_wall z)"
    using unix_of_wall_bounds [of "leap_wall z" l] wall_bounds [of "In t l"] Year_bounds(2) [of "In t l"]
    unfolding leap_wall_def left_diff_distrib distrib_right by linarith
  then have "(unix_sec (In t l) + 1) * Second \<le> ns (leap_midnight z l)" by (simp add: ns_leap_midnight)
  moreover have "ns t < (unix_sec (In t l) + 1) * Second"
    using unix_sec_bounds(2) [of "In t l"] by (simp add: In_def)
  ultimately show ?thesis by linarith
qed

lemma leap_midnight_above_floor:
  assumes "Year (In t (schedule_location s)) - prevLookbackYears \<le> z"
  shows "ns (prev_floor s t) < ns (leap_midnight z (schedule_location s))"
proof -
  let ?l = "schedule_location s" and ?y = "Year (In t (schedule_location s)) - prevLookbackYears"
  have "days_before ?y \<le> days_before z" using assms by (rule days_before_mono)
  then have "unix_of_wall ?l ((days_before ?y - epoch_day) * 86400) < unix_of_wall ?l (leap_wall z)"
    by (intro unix_of_wall_far) (simp add: leap_wall_def)
  then show ?thesis
    by (simp add: ns_leap_midnight prev_floor_def Date_def month_start_def)
qed

lemma leap_midnight_below_horizon:
  assumes "z < Year (In t l) + prevLookbackYears"
  shows "ns (leap_midnight z l) \<le> ns (AddDate (In t l) prevLookbackYears)"
proof -
  let ?t = "In t l" and ?y = "Year (In t l) + prevLookbackYears"
  define a where "a = days_before ?y + month_start (leap ?y) (Month ?t) + (Day ?t - 1)"
  define v where "v = (a - epoch_day) * 86400 + wall ?t mod 86400"
  have "days_before (Year ?t) \<le> wall_day ?t"
    using year_of_day_bounds [of "wall_day ?t"] by (simp add: Year_def)
  then have "-1 \<le> month_start (leap ?y) (Month ?t) + (Day ?t - 1)"
    by (simp add: Day_def YearDay_def month_start_def)
  then have "days_before z + 364 \<le> a" using days_before_far [OF assms] by (simp add: a_def)
  then have "leap_wall z + 172800 \<le> v"
    using pos_mod_sign [of 86400 "wall ?t"] by (simp add: v_def leap_wall_def)
  then have "unix_of_wall l (leap_wall z) * Second \<le> unix_of_wall l v * Second"
    using unix_of_wall_far [of "leap_wall z" v l] by simp
  moreover have "ns (AddDate ?t prevLookbackYears) = unix_of_wall l v * Second + ns ?t mod Second"
    by (simp add: AddDate_def Date_def v_def a_def In_def)
  moreover have "0 \<le> ns ?t mod Second" by simp
  ultimately show ?thesis unfolding ns_leap_midnight by linarith
qed



end
