(* ===== verification/Reconcile_Safety.thy ===== *)
theory Reconcile_Safety
  imports Reconcile_Local Schedule_Props
begin

text \<open>The properties of one reconcile, for any answers of the API server and any clock.\<close>

section \<open>What a pass looks like from outside\<close>

lemma events_only_append [simp]:
  "list_all is_event (early_events r prior rs ms)"
  "list_all is_event (emitTransitionEvents M r c P)"
proof -
  have "list_all is_event (axis_events M c axes)" for axes
    by (induction M c axes rule: axis_events.induct) (auto split: option.split)
  then show "list_all is_event (emitTransitionEvents M r c P)"
    by (simp add: emitTransitionEvents_def split: option.split)
qed (simp add: early_events_def)

lemma prelude_no_metrics [simp]:
  "prelude_events cjm evs \<Longrightarrow> list_all is_event evs" by (simp add: prelude_events_def)

definition deferred :: "CronJobMonitorReconciler \<Rightarrow> answers \<Rightarrow> key \<Rightarrow> pass \<Rightarrow> effect list" where
  "deferred r W k p = deferred_metrics r W k (now r W AtStart) (pLabel p) False"

lemma deferred_trace [simp]:
  "events (deferred r W k p) = []" "emitted (deferred r W k p) = []"
  "status_writes (deferred r W k p) = []"
  by (simp_all add: deferred_def deferred_metrics_def)

lemma Reconcile_existing:
  assumes "condition_store (Meta D)" and "lastMissed r = GoMap m"
    and "Get_CronJobMonitor W k = Inr cjm"
  obtains p where "Reconcile D W r k = Some (p\<lparr>pTrace := pTrace p @ deferred r W k p\<rparr>)"
    and "shape D W r k m cjm p"
proof -
  obtain p where p: "reconcile_monitor D W r k cjm = Some p" "shape D W r k m cjm p"
    using reconcile_monitor_shape [OF assms(1,2)] by blast
  have "Reconcile D W r k = Some (p\<lparr>pTrace := pTrace p @ deferred r W k p\<rparr>)"
    using p(1) assms(3) by (simp add: Reconcile_def reconcile_body_def deferred_def)
  then show thesis using p(2) by (rule that)
qed

text \<open>The three shapes, seen through what a pass leaves behind.\<close>

definition succeeded :: "answers \<Rightarrow> key \<Rightarrow> (key \<rightharpoonup> int) \<Rightarrow> int \<Rightarrow> pass \<Rightarrow> bool" where
  "succeeded W k m prev p \<longleftrightarrow>
     pLabel p = ResultSuccess \<and> pErr p = None \<and> Minute \<le> pRequeue p
     \<and> (\<exists>c s. status_writes (pTrace p) = [c] \<and> Status_Update W c = Inr s
          \<and> 0 \<le> MissedRuns (Status c) \<and> MissedRuns (Status c) \<le> 100001
          \<and> pBaseline p = GoMap (m(k \<mapsto> MissedRuns (Status c)))
          \<and> (\<exists>xs ys. pTrace p = xs @ StatusUpdate c # ys \<and> emitted xs = [])
          \<and> emitted (pTrace p) = (if prev < MissedRuns (Status c)
               then [(k, to_int32 (MissedRuns (Status c) - prev))] else []))"

definition requeued :: "answers \<Rightarrow> key \<Rightarrow> (key \<rightharpoonup> int) \<Rightarrow> int \<Rightarrow> pass \<Rightarrow> bool" where
  "requeued W k m prev p \<longleftrightarrow>
     pLabel p = ResultRequeue \<and> pErr p = None \<and> emitted (pTrace p) = []
     \<and> (\<exists>c. status_writes (pTrace p) = [c]
          \<and> (case Status_Update W c of
               Inl e \<Rightarrow> e = Conflict \<and> pRequeue p = requeueAfterConflict
                      \<and> pBaseline p = GoMap (m(k \<mapsto> prev))
             | Inr s \<Rightarrow> pRequeue p = requeueAfterError
                      \<and> pBaseline p = GoMap (m(k \<mapsto> max prev (MissedRuns (Status s))))))"

definition errored :: "key \<Rightarrow> (key \<rightharpoonup> int) \<Rightarrow> int \<Rightarrow> pass \<Rightarrow> bool" where
  "errored k m prev p \<longleftrightarrow>
     pLabel p = ResultError \<and> pErr p \<noteq> None \<and> pRequeue p = 0 \<and> emitted (pTrace p) = []
     \<and> pBaseline p = GoMap (m(k \<mapsto> prev))"

lemma requeuedE:
  assumes "requeued W k m prev p"
  obtains (conflict) c where "status_writes (pTrace p) = [c]" "Status_Update W c = Inl Conflict"
      "pRequeue p = requeueAfterConflict" "pBaseline p = GoMap (m(k \<mapsto> prev))"
  | (stored) c s where "status_writes (pTrace p) = [c]" "Status_Update W c = Inr s"
      "pRequeue p = requeueAfterError" "pBaseline p = GoMap (m(k \<mapsto> max prev (MissedRuns (Status s))))"
proof -
  obtain c where c: "status_writes (pTrace p) = [c]" using assms by (auto simp: requeued_def)
  show thesis
    using assms c that by (cases "Status_Update W c") (auto simp: requeued_def)
qed

lemma measured_outcome:
  assumes "measured_shape D W r k m cjm p"
  defines "prev \<equiv> raised (m k) (MissedRuns (Status cjm))"
  shows "succeeded W k m prev p \<or> requeued W k m prev p \<or> errored k m prev p"
proof -
  obtain c missed n evs where ms: "measured_state (Meta D) cjm c missed n" and pe: "prelude_events cjm evs"
    and p: "p = measured_pass W k (seeded m k cjm)
        (evs @ emitTransitionEvents (Meta D) r (evaluate_all (Meta D) missed c)
           (snapshot_priors (Meta D) cjm)) (evaluate_all (Meta D) missed c) missed prev
        (requeue_interval n (now r W AtRequeue))"
    using assms unfolding measured_shape_def by blast
  show ?thesis
  proof (cases "Status_Update W (evaluate_all (Meta D) missed c)")
    case (Inl e)
    with p pe show ?thesis
      by (simp add: requeued_def errored_def measured_pass_def settled_def seeded_def prev_def)
  next
    case (Inr s)
    have "Minute \<le> requeue_interval n (now r W AtRequeue)"
      by (simp add: requeue_interval_def Let_def requeueAfterReconcileMin_def)
    moreover have "\<exists>xs ys. pTrace p = xs @ StatusUpdate (evaluate_all (Meta D) missed c) # ys \<and> emitted xs = []"
      using Inr p pe
      by (intro exI [of _ "evs @ emitTransitionEvents (Meta D) r (evaluate_all (Meta D) missed c)
            (snapshot_priors (Meta D) cjm)"] exI conjI)
        (simp add: measured_pass_def settled_def, simp)
    ultimately have "succeeded W k m prev p"
      unfolding succeeded_def using Inr p pe ms
      by (intro conjI, simp_all add: measured_pass_def settled_def seeded_def measured_state_def)
    then show ?thesis ..
  qed
qed

lemma early_outcome:
  assumes "early_shape D W r k m cjm p"
  defines "prev \<equiv> raised (m k) (MissedRuns (Status cjm))"
  shows "requeued W k m prev p \<or> errored k m prev p"
proof -
  obtain c reason message evs where "prelude_events cjm evs"
    and "p = early_pass W k (seeded m k cjm)
        (evs @ early_events r (find_condition (Meta D) cjm ConditionReconciled) reason message)
        (early_written (Meta D) c)"
    using assms unfolding early_shape_def by blast
  then show ?thesis
    by (cases "Status_Update W (early_written (Meta D) c)")
      (simp_all add: requeued_def errored_def early_pass_def settled_def seeded_def prev_def)
qed

lemma shape_outcome:
  assumes "shape D W r k m cjm p"
  defines "prev \<equiv> raised (m k) (MissedRuns (Status cjm))"
  shows "succeeded W k m prev p \<or> requeued W k m prev p \<or> errored k m prev p"
  using assms(1) unfolding shape_def
proof (elim disjE)
  assume "failed_shape k m cjm p"
  then show ?thesis
    by (auto simp: failed_shape_def failed_pass_def errored_def seeded_def prev_def)
next
  assume "early_shape D W r k m cjm p"
  then show ?thesis unfolding prev_def by (intro disjI2 early_outcome)
next
  assume "measured_shape D W r k m cjm p"
  then show ?thesis unfolding prev_def by (rule measured_outcome)
qed

lemma outcome_deferred:
  "succeeded W k m prev p \<Longrightarrow> succeeded W k m prev (p\<lparr>pTrace := pTrace p @ deferred r W' k' q\<rparr>)"
  "requeued W k m prev p \<Longrightarrow> requeued W k m prev (p\<lparr>pTrace := pTrace p @ deferred r W' k' q\<rparr>)"
  "errored k m prev p \<Longrightarrow> errored k m prev (p\<lparr>pTrace := pTrace p @ deferred r W' k' q\<rparr>)"
  by (fastforce simp: succeeded_def, simp_all add: requeued_def errored_def cong: sum.case_cong)

lemma Reconcile_outcome:
  assumes "condition_store (Meta D)" and "lastMissed r = GoMap m"
    and "Get_CronJobMonitor W k = Inr cjm"
  defines "prev \<equiv> raised (m k) (MissedRuns (Status cjm))"
  shows "\<exists>p. Reconcile D W r k = Some p
           \<and> (succeeded W k m prev p \<or> requeued W k m prev p \<or> errored k m prev p)"
proof -
  obtain p where p: "Reconcile D W r k = Some (p\<lparr>pTrace := pTrace p @ deferred r W k p\<rparr>)"
    and s: "shape D W r k m cjm p"
    using Reconcile_existing [OF assms(1-3)] .
  show ?thesis
    unfolding prev_def
    by (intro exI conjI, rule p) (use shape_outcome [OF s] in \<open>auto intro: outcome_deferred\<close>)
qed

section \<open>Properties\<close>

text \<open>
  C8. Once the reconciler is set up, every reconcile returns, whatever the API server, the clock,
  the cron library and the condition helpers answer: no write hits a nil map and the search for
  the previous slot ends. It changes the shared baseline at its own key only.
\<close>

theorem Reconcile_always_returns:
  "\<exists>p m v. Reconcile D W (SetupWithManager r) k = Some p
     \<and> lastMissed (SetupWithManager r) = GoMap m \<and> pBaseline p = GoMap (m(k := v))"
proof -
  obtain m where "lastMissed (SetupWithManager r) = GoMap m" using SetupWithManager_GoMap by blast
  then show ?thesis using Reconcile_alone [of "SetupWithManager r" m D W k] by metis
qed

text \<open>
  C15. Reconciles of different monitors commute: in either order both do what they would have done
  alone (the same effects, label, requeue and error), and the baseline ends up the same. Several
  workers sharing the map are as good as one.
\<close>

theorem Reconcile_workers_commute:
  assumes "k1 \<noteq> k2" and "lastMissed r = GoMap m"
  shows "\<exists>p1 p2 b. Reconcile D W1 r k1 = Some p1 \<and> Reconcile D W2 r k2 = Some p2
     \<and> Reconcile D W2 (r\<lparr>lastMissed := pBaseline p1\<rparr>) k2 = Some (p2\<lparr>pBaseline := b\<rparr>)
     \<and> Reconcile D W1 (r\<lparr>lastMissed := pBaseline p2\<rparr>) k1 = Some (p1\<lparr>pBaseline := b\<rparr>)"
proof -
  obtain p1 v1 where 1: "Reconcile D W1 r k1 = Some p1" "pBaseline p1 = GoMap (m(k1 := v1))"
    "\<forall>m'. m' k1 = m k1 \<longrightarrow> Reconcile D W1 (r\<lparr>lastMissed := GoMap m'\<rparr>) k1
             = Some (p1\<lparr>pBaseline := GoMap (m'(k1 := v1))\<rparr>)"
    by (rule Reconcile_alone [OF assms(2), of D W1 k1])
  obtain p2 v2 where 2: "Reconcile D W2 r k2 = Some p2" "pBaseline p2 = GoMap (m(k2 := v2))"
    "\<forall>m'. m' k2 = m k2 \<longrightarrow> Reconcile D W2 (r\<lparr>lastMissed := GoMap m'\<rparr>) k2
             = Some (p2\<lparr>pBaseline := GoMap (m'(k2 := v2))\<rparr>)"
    by (rule Reconcile_alone [OF assms(2), of D W2 k2])
  show ?thesis
    using 1 2 assms(1)
    by (intro exI [of _ p1] exI [of _ p2] exI [of _ "GoMap (m(k1 := v1, k2 := v2))"])
      (simp add: fun_upd_twist)
qed

text \<open>
  A concrete setting for the witnesses: a monitor of the leap-day CronJob, an API server that
  stores what it is sent, and the documented condition helpers.
\<close>

definition sample_deps :: deps where
  "sample_deps = \<lparr>Meta = k8s_meta zero_time, LoadLocation = (\<lambda>z. Inl (ErrExternal ''unknown time zone'')),
                  CronParser = (\<lambda>e. Parsed (expr leap_day_schedule))\<rparr>"

definition sample_cronjob :: CronJob where
  "sample_cronjob = \<lparr>cjName = ''nightly'', cjNamespace = ''ns'', cjUID = ''u1'', cjSuspend = None,
     cjSchedule = ''0 0 29 2 *'', cjTimeZone = None, cjActive = [], cjLastScheduleTime = None\<rparr>"

definition sample_answers :: "CronJobMonitor \<Rightarrow> api_error + CronJob \<Rightarrow> answers" where
  "sample_answers cjm cj = \<lparr>Get_CronJobMonitor = (\<lambda>k. Inr cjm), Get_CronJob = (\<lambda>k. cj),
     List_Jobs = (\<lambda>n. Inr []), Status_Update = (\<lambda>c. Inr c), time_Now = (\<lambda>p. utc 4260211200)\<rparr>"

definition sample_reconciler :: "(key \<rightharpoonup> int) \<Rightarrow> CronJobMonitorReconciler" where
  "sample_reconciler m = \<lparr>Recorder = True, Clock = None, lastMissed = GoMap m,
                          MaxConcurrentReconciles = 1\<rparr>"

lemma sample_simps [simp]:
  "condition_store (Meta sample_deps)" "lastMissed (sample_reconciler m) = GoMap m"
  "Get_CronJobMonitor (sample_answers cjm cj) k = Inr cjm"
  "MissedRuns (Status (sample_monitor b rs)) = 0"
  by (simp_all add: sample_deps_def k8s.condition_store_axioms sample_reconciler_def
      sample_answers_def sample_monitor_def)

theorem Reconcile_workers_commute_witness:
  "\<exists>p1 p2 b.
     Reconcile sample_deps (sample_answers (sample_monitor None []) (Inl NotFound))
       (sample_reconciler Map.empty) (''ns'', ''a'') = Some p1
     \<and> Reconcile sample_deps (sample_answers (sample_monitor None []) (Inr sample_cronjob))
       (sample_reconciler Map.empty) (''ns'', ''b'') = Some p2
     \<and> Reconcile sample_deps (sample_answers (sample_monitor None []) (Inr sample_cronjob))
         ((sample_reconciler Map.empty)\<lparr>lastMissed := pBaseline p1\<rparr>) (''ns'', ''b'')
         = Some (p2\<lparr>pBaseline := b\<rparr>)
     \<and> Reconcile sample_deps (sample_answers (sample_monitor None []) (Inl NotFound))
         ((sample_reconciler Map.empty)\<lparr>lastMissed := pBaseline p2\<rparr>) (''ns'', ''a'')
         = Some (p1\<lparr>pBaseline := b\<rparr>)"
  by (rule Reconcile_workers_commute) simp_all

text \<open>
  C6. A miss is counted once, and only after it is durable. A reconcile adds to the burn counter
  only if its status write was accepted, after the write and never on a conflict, an error or an
  early return; it adds the increase over the larger of the in-memory baseline and the stored
  checkpoint, and the new baseline is the written number. In all other passes the baseline only
  rises.
\<close>

theorem Reconcile_counts_new_misses_once:
  assumes "condition_store (Meta D)" and "lastMissed r = GoMap m"
    and "Get_CronJobMonitor W k = Inr cjm" and "0 \<le> MissedRuns (Status cjm)"
  shows "\<exists>p. Reconcile D W r k = Some p
     \<and> (if pLabel p = ResultSuccess
        then \<exists>c s xs ys. Status_Update W c = Inr s
               \<and> pTrace p = xs @ StatusUpdate c # ys \<and> emitted xs = []
               \<and> map_get (pBaseline p) k = Some (MissedRuns (Status c))
               \<and> set (emitted ys) \<subseteq> {k} \<times> UNIV
               \<and> sum_list (map snd (emitted ys))
                  = max 0 (MissedRuns (Status c) - raised (m k) (MissedRuns (Status cjm)))
        else emitted (pTrace p) = []
             \<and> (\<exists>v. map_get (pBaseline p) k = Some v \<and> raised (m k) (MissedRuns (Status cjm)) \<le> v))"
proof -
  let ?prev = "raised (m k) (MissedRuns (Status cjm))"
  obtain p where p: "Reconcile D W r k = Some p"
    and o: "succeeded W k m ?prev p \<or> requeued W k m ?prev p \<or> errored k m ?prev p"
    using Reconcile_outcome [OF assms(1-3)] by blast
  have prev: "0 \<le> ?prev" using assms(4) by (cases "m k") auto
  from o show ?thesis
  proof (elim disjE)
    assume s: "succeeded W k m ?prev p"
    then obtain c st xs ys where c: "Status_Update W c = Inr st" "0 \<le> MissedRuns (Status c)"
      "MissedRuns (Status c) \<le> 100001" "pBaseline p = GoMap (m(k \<mapsto> MissedRuns (Status c)))"
      "pTrace p = xs @ StatusUpdate c # ys" "emitted xs = []"
      "emitted (pTrace p) = (if ?prev < MissedRuns (Status c)
          then [(k, to_int32 (MissedRuns (Status c) - ?prev))] else [])"
      unfolding succeeded_def by blast
    have "?prev < MissedRuns (Status c) \<Longrightarrow>
        to_int32 (MissedRuns (Status c) - ?prev) = MissedRuns (Status c) - ?prev"
      using c prev by (intro to_int32_id) simp_all
    then have e: "emitted ys = (if ?prev < MissedRuns (Status c)
        then [(k, MissedRuns (Status c) - ?prev)] else [])"
      using c(5-7) by simp
    have "map_get (pBaseline p) k = Some (MissedRuns (Status c)) \<and> set (emitted ys) \<subseteq> {k} \<times> UNIV
        \<and> sum_list (map snd (emitted ys)) = max 0 (MissedRuns (Status c) - ?prev)"
      using c(4) by (simp add: e)
    moreover have "pLabel p = ResultSuccess" using s by (simp add: succeeded_def)
    ultimately show ?thesis using p c(1,5,6) by (intro exI [of _ p]) auto
  next
    assume "requeued W k m ?prev p"
    moreover from this have "\<exists>v. map_get (pBaseline p) k = Some v \<and> ?prev \<le> v"
      by (cases rule: requeuedE) simp_all
    ultimately show ?thesis using p by (intro exI [of _ p]) (simp add: requeued_def)
  next
    assume "errored k m ?prev p"
    then show ?thesis using p by (intro exI [of _ p]) (simp add: errored_def)
  qed
qed

theorem Reconcile_counts_new_misses_once_witness:
  "\<exists>p. Reconcile sample_deps (sample_answers (sample_monitor None []) (Inl NotFound))
         (sample_reconciler [(''ns'', ''mon'') \<mapsto> 5]) (''ns'', ''mon'') = Some p
     \<and> (if pLabel p = ResultSuccess
        then \<exists>c s xs ys. Status_Update (sample_answers (sample_monitor None []) (Inl NotFound)) c = Inr s
               \<and> pTrace p = xs @ StatusUpdate c # ys \<and> emitted xs = []
               \<and> map_get (pBaseline p) (''ns'', ''mon'') = Some (MissedRuns (Status c))
               \<and> set (emitted ys) \<subseteq> {(''ns'', ''mon'')} \<times> UNIV
               \<and> sum_list (map snd (emitted ys)) = max 0 (MissedRuns (Status c) - 5)
        else emitted (pTrace p) = []
             \<and> (\<exists>v. map_get (pBaseline p) (''ns'', ''mon'') = Some v \<and> 5 \<le> v))"
proof -
  have "raised ([(''ns'', ''mon'') \<mapsto> 5] (''ns'', ''mon'')) (MissedRuns (Status (sample_monitor None []))) = 5"
    by simp
  then show ?thesis
    using Reconcile_counts_new_misses_once [of sample_deps "sample_reconciler [(''ns'', ''mon'') \<mapsto> 5]"
        "[(''ns'', ''mon'') \<mapsto> 5]" "sample_answers (sample_monitor None []) (Inl NotFound)"
        "(''ns'', ''mon'')" "sample_monitor None []"] by (simp only: sample_simps simp_thms order_refl)
qed

text \<open>The delay of a measured pass: five seconds after the next slot, and a minute at least.\<close>

lemma requeue_interval_exact:
  assumes "\<bar>ns n - ns t\<bar> \<le> 2 ^ 62"
  shows "requeue_interval n t = max (60 * Second) (ns n - ns t + 5 * Second)"
proof -
  have "Sub n t = ns n - ns t" using assms by (intro Sub_exact) simp
  moreover have "to_int64 (ns n - ns t + 5 * Second) = ns n - ns t + 5 * Second"
    using assms by (intro to_int64_id) (simp_all add: Second_def abs_le_iff)
  ultimately show ?thesis
    by (simp add: requeue_interval_def Let_def requeue_defs Minute_def max_def)
qed

lemma requeue_interval_min: "60 * Second \<le> requeue_interval n t"
  by (simp add: requeue_interval_def Let_def requeue_defs Minute_def)

definition requeue_policy :: "CronJobMonitorReconciler \<Rightarrow> answers \<Rightarrow> pass \<Rightarrow> bool" where
  "requeue_policy r W p \<longleftrightarrow>
     (if pLabel p = ResultError then pErr p \<noteq> None \<and> pRequeue p = 0
      else pErr p = None \<and> (\<exists>c. status_writes (pTrace p) = [c]
        \<and> (case Status_Update W c of
             Inl e \<Rightarrow> e = Conflict \<and> pLabel p = ResultRequeue \<and> pRequeue p = Second
           | Inr c' \<Rightarrow>
               (case NextExpectedTime (Status c) of
                  None \<Rightarrow> pLabel p = ResultRequeue \<and> pRequeue p = 30 * Second
                | Some n \<Rightarrow> pLabel p = ResultSuccess
                    \<and> pRequeue p = requeue_interval n (now r W AtRequeue)))))"

lemma shape_requeue:
  assumes "shape D W r k m cjm p"
  shows "requeue_policy r W p"
  using assms unfolding shape_def
proof (elim disjE)
  assume "failed_shape k m cjm p"
  then show ?thesis by (auto simp: failed_shape_def failed_pass_def requeue_policy_def)
next
  assume "early_shape D W r k m cjm p"
  then obtain c evs where "list_all is_event evs"
    and "p = early_pass W k (seeded m k cjm) evs (early_written (Meta D) c)"
    unfolding early_shape_def prelude_events_def by (metis events_only_append(1) list_all_append)
  then show ?thesis
    by (cases "Status_Update W (early_written (Meta D) c)")
      (simp_all add: early_pass_def settled_def requeue_policy_def requeue_defs)
next
  assume "measured_shape D W r k m cjm p"
  then obtain c missed prev n evs where "list_all is_event evs" and n: "NextExpectedTime (Status c) = Some n"
    and "p = measured_pass W k (seeded m k cjm) evs (evaluate_all (Meta D) missed c) missed prev
           (requeue_interval n (now r W AtRequeue))"
    unfolding measured_shape_def prelude_events_def measured_state_def
    by (metis events_only_append(2) list_all_append)
  then show ?thesis
    by (cases "Status_Update W (evaluate_all (Meta D) missed c)")
      (simp_all add: measured_pass_def settled_def requeue_policy_def requeue_defs)
qed

text \<open>
  C24. The requeue policy. A pass over an existing monitor that fails returns an error and leaves the
  retry to the queue. Otherwise it has sent one status, and what became of it decides the delay:
  after a conflict the pass comes back in one second; an early return (a status without a next run)
  comes back in thirty; a measured pass comes back five seconds after the next run, but not before a
  minute has passed. The result label says which. (The exact delay is stated for a next run within
  146 years of the clock, where \<open>time.Duration\<close> does not saturate; the minute holds always.)
\<close>

theorem Reconcile_requeue_policy:
  assumes "condition_store (Meta D)" and "lastMissed r = GoMap m"
    and "Get_CronJobMonitor W k = Inr cjm"
  shows "\<exists>p. Reconcile D W r k = Some p
     \<and> (pErr p \<noteq> None \<longleftrightarrow> pLabel p = ResultError)
     \<and> (if pLabel p = ResultError then pRequeue p = 0
        else \<exists>c. status_writes (pTrace p) = [c]
          \<and> (case Status_Update W c of
               Inl e \<Rightarrow> e = Conflict \<and> pLabel p = ResultRequeue \<and> pRequeue p = Second
             | Inr c' \<Rightarrow>
                 (case NextExpectedTime (Status c) of
                    None \<Rightarrow> pLabel p = ResultRequeue \<and> pRequeue p = 30 * Second
                  | Some n \<Rightarrow> pLabel p = ResultSuccess \<and> 60 * Second \<le> pRequeue p
                      \<and> (\<bar>ns n - ns (now r W AtRequeue)\<bar> \<le> 2 ^ 62 \<longrightarrow>
                          pRequeue p = max (60 * Second)
                            (ns n - ns (now r W AtRequeue) + 5 * Second)))))"
proof -
  obtain q where q: "Reconcile D W r k = Some (q\<lparr>pTrace := pTrace q @ deferred r W k q\<rparr>)"
    "shape D W r k m cjm q"
    using Reconcile_existing [OF assms] .
  define p where "p = q\<lparr>pTrace := pTrace q @ deferred r W k q\<rparr>"
  have "requeue_policy r W p"
    using shape_requeue [OF q(2)] by (simp add: p_def requeue_policy_def cong: sum.case_cong option.case_cong)
  then show ?thesis
    using q(1) unfolding p_def [symmetric] requeue_policy_def
    by (cases "pLabel p = ResultError")
      (auto simp: requeue_interval_exact requeue_interval_min cong: sum.case_cong option.case_cong
        split: sum.splits option.splits)
qed

theorem Reconcile_requeue_policy_witness:
  "\<exists>p. Reconcile sample_deps (sample_answers (sample_monitor None []) (Inr sample_cronjob))
         (sample_reconciler Map.empty) (''ns'', ''mon'') = Some p
     \<and> (if pLabel p = ResultError then pRequeue p = 0
        else \<exists>c. status_writes (pTrace p) = [c]
          \<and> (case NextExpectedTime (Status c) of
               None \<Rightarrow> pLabel p = ResultRequeue \<and> pRequeue p = 30 * Second
             | Some n \<Rightarrow> pLabel p = ResultSuccess \<and> 60 * Second \<le> pRequeue p))"
proof -
  let ?W = "sample_answers (sample_monitor None []) (Inr sample_cronjob)"
  have upd: "Status_Update ?W c = Inr c" for c by (simp add: sample_answers_def)
  have "condition_store (Meta sample_deps)" "lastMissed (sample_reconciler Map.empty) = GoMap Map.empty"
    "Get_CronJobMonitor ?W (''ns'', ''mon'') = Inr (sample_monitor None [])" by simp_all
  from Reconcile_requeue_policy [OF this] obtain p where
    p: "Reconcile sample_deps ?W (sample_reconciler Map.empty) (''ns'', ''mon'') = Some p"
    and pol: "if pLabel p = ResultError then pRequeue p = 0
        else \<exists>c. status_writes (pTrace p) = [c]
          \<and> (case NextExpectedTime (Status c) of
               None \<Rightarrow> pLabel p = ResultRequeue \<and> pRequeue p = 30 * Second
             | Some n \<Rightarrow> pLabel p = ResultSuccess \<and> 60 * Second \<le> pRequeue p
                 \<and> (\<bar>ns n - ns (now (sample_reconciler Map.empty) ?W AtRequeue)\<bar> \<le> 2 ^ 62 \<longrightarrow>
                     pRequeue p = max (60 * Second)
                       (ns n - ns (now (sample_reconciler Map.empty) ?W AtRequeue) + 5 * Second)))"
    unfolding upd sum.case by blast
  show ?thesis
    using p pol by (intro exI [of _ p] conjI) (auto split: option.split_asm)
qed

end
