(* ===== verification/Reconcile_Status.thy ===== *)
theory Reconcile_Status
  imports Reconcile_Safety
begin

text \<open>The status a reconcile writes, the events it sends, and what a deletion cleans up.\<close>

section \<open>What is written\<close>

abbreviation axes :: "string list" where
  "axes \<equiv> [ConditionReconciled, ConditionScheduleHealthy, ConditionExecutionHealthy,
           ConditionDurationHealthy]"

definition well_reported :: "meta_api \<Rightarrow> CronJobMonitor \<Rightarrow> bool" where
  "well_reported M c \<longleftrightarrow>
     ObservedGeneration (Status c) = Generation c
     \<and> (\<forall>t \<in> set (ConditionReady # axes). \<exists>st rs ms. axis M c t = Some (st, rs, ms, Generation c))
     \<and> axis_status M c ConditionReady = Some (ready_status M c axes)
     \<and> (if NextExpectedTime (Status c) = None
        then axis_status M c ConditionReconciled = Some ConditionFalse
             \<and> axis_status M c ConditionScheduleHealthy = Some ConditionUnknown
        else axis_status M c ConditionReconciled = Some ConditionTrue)"

context condition_store
begin

lemma axis_ExecutionHealthy_some:
  "\<exists>st rs ms. axis M (evaluateExecutionHealthy M c) ConditionExecutionHealthy
     = Some (st, rs, ms, Generation c)"
  by (simp add: evaluateExecutionHealthy_def Let_def split: prod.split)

lemma axis_DurationHealthy_some:
  "\<exists>st rs ms. axis M (evaluateDurationHealthy M c) ConditionDurationHealthy
     = Some (st, rs, ms, Generation c)"
  by (simp add: evaluateDurationHealthy_def split: prod.split option.split)

lemma axis_ScheduleHealthy_some:
  "\<exists>st rs ms. axis M (evaluateScheduleHealthy M c n) ConditionScheduleHealthy
     = Some (st, rs, ms, Generation c)"
  by (simp add: evaluateScheduleHealthy_def Let_def)

lemma Ready_some:
  "\<exists>rs ms. axis M (evaluateReady M c) ConditionReady
     = Some (ready_status M (evaluateReady M c) axes, rs, ms, Generation c)"
proof -
  have "ready_status M (evaluateReady M c) axes = ready_status M c axes"
    by (simp add: ready_status_def axis_status_axis axis_Ready_other)
  then show ?thesis using Ready_spec [of c] by metis
qed

lemma well_reported_early:
  assumes "early_state M cjm c reason"
  shows "well_reported M (early_written M c)"
proof -
  let ?e = "evaluateExecutionHealthy M (upd_status (\<lambda>s. s\<lparr>NextExpectedTime := None\<rparr>) c)"
  have w: "early_written M c = evaluateReady M (evaluateDurationHealthy M ?e)"
    by (simp add: early_written_def)
  have g: "Generation c = Generation cjm" using assms by (simp add: early_state_def keeps_def)
  have e: "axis M (early_written M c) ConditionExecutionHealthy = axis M ?e ConditionExecutionHealthy"
    "axis M (early_written M c) ConditionDurationHealthy
       = axis M (evaluateDurationHealthy M ?e) ConditionDurationHealthy"
    by (simp_all add: w axis_Ready_other axis_DurationHealthy_other)
  obtain rs ms where "axis M (early_written M c) ConditionReady
      = Some (ready_status M (early_written M c) axes, rs, ms, Generation c)"
    using Ready_some [of "evaluateDurationHealthy M ?e"] unfolding w by auto
  then show ?thesis
    using assms axis_ExecutionHealthy_some [of "upd_status (\<lambda>s. s\<lparr>NextExpectedTime := None\<rparr>) c"]
      axis_DurationHealthy_some [of ?e]
    by (auto simp: well_reported_def early_state_def axis_early_written axis_status_axis e g)
qed

lemma well_reported_measured:
  assumes "measured_state M cjm c n nextExpected"
  shows "well_reported M (evaluate_all M n c)"
proof -
  let ?s = "evaluateScheduleHealthy M c n"
  let ?d = "evaluateDurationHealthy M (evaluateExecutionHealthy M ?s)"
  let ?c = "set_condition M ConditionReconciled ConditionTrue ReasonReconcileSuccess
      [Lit ''CronJob resolved, schedule parsed''] ?d"
  have a: "axis M (evaluate_all M n c) t = axis M (evaluateReady M ?c) t" for t
    by (simp add: evaluate_all_def Let_def)
  have r: "ready_status M (evaluate_all M n c) axes = ready_status M (evaluateReady M ?c) axes"
    by (simp add: ready_status_def axis_status_axis a)
  obtain rs ms where "axis M (evaluate_all M n c) ConditionReady
      = Some (ready_status M (evaluate_all M n c) axes, rs, ms, Generation c)"
    using Ready_some [of ?c] unfolding r a by auto
  moreover have "axis M (evaluate_all M n c) ConditionDurationHealthy = axis M ?d ConditionDurationHealthy"
    by (simp add: a axis_Ready_other)
  ultimately show ?thesis
    using assms axis_ExecutionHealthy_some [of ?s]
      axis_DurationHealthy_some [of "evaluateExecutionHealthy M ?s"] axis_ScheduleHealthy_some [of c n]
    by (auto simp: well_reported_def measured_state_def axis_evaluate_all axis_status_axis)
qed

end

text \<open>A status write of a pass is the end of an early return or of a measurement.\<close>

lemma shape_written:
  assumes "shape D W r k m cjm p" and "status_writes (pTrace p) = [c]"
  obtains (early) c0 reason message evs where "early_state (Meta D) cjm c0 reason"
      "c = early_written (Meta D) c0" "prelude_events cjm evs"
      "events (pTrace p) = events (evs @
         early_events r (find_condition (Meta D) cjm ConditionReconciled) reason message)"
  | (measured) c0 missed n evs where "measured_state (Meta D) cjm c0 missed n"
      "c = evaluate_all (Meta D) missed c0" "prelude_events cjm evs"
      "events (pTrace p) = events (evs @
         emitTransitionEvents (Meta D) r c (snapshot_priors (Meta D) cjm))"
proof -
  have "False" if "failed_shape k m cjm p"
    using that assms(2) by (auto simp: failed_shape_def failed_pass_def)
  then show thesis
    using assms that unfolding shape_def early_shape_def measured_shape_def
    by (elim disjE exE conjE)
      (auto simp: early_pass_def measured_pass_def settled_def split: sum.splits if_splits)
qed

lemma Reconcile_written:
  assumes "condition_store (Meta D)" and "lastMissed r = GoMap m"
    and "Get_CronJobMonitor W k = Inr cjm" and "Reconcile D W r k = Some p"
    and "status_writes (pTrace p) = [c]"
  obtains q where "shape D W r k m cjm q" "status_writes (pTrace q) = [c]"
    "events (pTrace p) = events (pTrace q)"
proof -
  obtain q where "Reconcile D W r k = Some (q\<lparr>pTrace := pTrace q @ deferred r W k q\<rparr>)"
    and q: "shape D W r k m cjm q"
    using Reconcile_existing [OF assms(1-3)] .
  with assms(4,5) show thesis by (intro that [OF q]) auto
qed

lemma state_keeps:
  "early_state M cjm c reason \<Longrightarrow> keeps M cjm c" "measured_state M cjm c missed n \<Longrightarrow> keeps M cjm c"
  by (simp_all add: early_state_def measured_state_def)

lemma written_reported_and_kept:
  assumes "condition_store (Meta D)" and "shape D W r k m cjm q" and "status_writes (pTrace q) = [c]"
  shows "well_reported (Meta D) c \<and> keeps (Meta D) cjm c"
  using assms(2,3)
proof (cases rule: shape_written)
  case (early c0 reason message evs)
  then show ?thesis
    using condition_store.well_reported_early [OF assms(1)]
      keeps_trans [OF state_keeps(1) keeps_early_written] by auto
next
  case (measured c0 missed n evs)
  then show ?thesis
    using condition_store.well_reported_measured [OF assms(1)]
      keeps_trans [OF state_keeps(2) keeps_evaluate_all] by auto
qed

section \<open>Events\<close>

text \<open>What an event recorder compares: the status and the reason of a condition.\<close>

definition state_of :: "meta_api \<Rightarrow> CronJobMonitor \<Rightarrow> string \<Rightarrow> (ConditionStatus \<times> string) option" where
  "state_of M c t = map_option (\<lambda>x. (cStatus x, cReason x)) (find_condition M c t)"

lemma is_false_state: "is_false (find_condition M c t) \<longleftrightarrow> map_option fst (state_of M c t) = Some ConditionFalse"
  by (cases "find_condition M c t") (simp_all add: is_false_def state_of_def)

lemma axis_events_silent:
  "list_all (\<lambda>(t, prior). prior = find_condition M cjm t \<and> state_of M cjm t = state_of M c t) ax \<Longrightarrow>
   axis_events M c ax = []"
proof (induction M c ax rule: axis_events.induct)
  case (2 M c t prior ax)
  then show ?case
    by (cases "find_condition M c t")
      (auto simp: is_false_state, auto simp: state_of_def)
qed simp

lemma emitTransitionEvents_silent:
  assumes "\<forall>t \<in> set axes. state_of M cjm t = state_of M c t"
  shows "emitTransitionEvents M r c (snapshot_priors M cjm) = []"
proof -
  have "axis_events M c
          [(ConditionScheduleHealthy, find_condition M cjm ConditionScheduleHealthy),
           (ConditionExecutionHealthy, find_condition M cjm ConditionExecutionHealthy),
           (ConditionDurationHealthy, find_condition M cjm ConditionDurationHealthy)] = []"
    using assms by (intro axis_events_silent [of M cjm]) simp
  moreover have "\<not> (is_false (find_condition M cjm ConditionReconciled)
      \<and> (\<exists>x. find_condition M c ConditionReconciled = Some x \<and> cStatus x = ConditionTrue))"
    using assms by (auto simp: is_false_state) (auto simp: state_of_def)
  ultimately show ?thesis
    by (auto simp: emitTransitionEvents_def snapshot_priors_def snapshotCondition_def
        find_condition_def split: option.split)
qed

lemma early_events_silent:
  assumes "state_of M cjm ConditionReconciled = Some (ConditionFalse, reason)"
  shows "early_events r (find_condition M cjm ConditionReconciled) reason message = []"
  using assms by (auto simp: early_events_def shouldEmitReconciledEvent_def state_of_def)

lemma state_of_axis: "state_of M c t = map_option (\<lambda>(st, rs, _). (st, rs)) (axis M c t)"
  by (cases "find_condition M c t") (simp_all add: state_of_def axis_def view_def)

section \<open>Properties\<close>

text \<open>What the sample monitor is left with when its CronJob is gone.\<close>

definition orphaned_monitor :: "CronJobMonitor \<Rightarrow> CronJobMonitor" where
  "orphaned_monitor cjm = early_written (k8s_meta zero_time)
     (not_measuring (k8s_meta zero_time) ReasonNoSchedule [Lit ''no schedule available'']
       (setReconciledFalse (k8s_meta zero_time) ReasonCronJobNotFound
         [Lit ''CronJob '', Quoted ''nightly'', Lit '' not found in namespace '', Quoted ''ns'']
         (fst (pruneOrphanedRunning cjm [] empty_CronJob (utc 4260211200)))))"

lemma sample_projections [simp]:
  "Meta sample_deps = k8s_meta zero_time" "now (sample_reconciler m) (sample_answers cjm cj) t = utc 4260211200"
  "Get_CronJob (sample_answers cjm cj) key = cj" "Status_Update (sample_answers cjm cj) c = Inr c"
  "condition_store (k8s_meta t')"
  by (simp_all add: sample_deps_def now_def sample_reconciler_def sample_answers_def
      k8s.condition_store_axioms)

lemma sample_not_found:
  assumes "Spec cjm = sample_spec b" and "Namespace cjm = ''ns''"
  obtains p where "Reconcile sample_deps (sample_answers cjm (Inl NotFound)) (sample_reconciler m) k = Some p"
    and "status_writes (pTrace p) = [orphaned_monitor cjm]"
proof -
  let ?W = "sample_answers cjm (Inl NotFound)" and ?r = "sample_reconciler m"
  obtain evs where evs: "list_all is_event evs" "reconcile_monitor sample_deps ?W ?r k cjm
      = Some (early_pass ?W k (seeded m k cjm) evs (orphaned_monitor cjm))"
  proof
    show "list_all is_event (early_events ?r (priorReconciled (snapshot_priors (k8s_meta zero_time) cjm))
        ReasonCronJobNotFound [Lit ''CronJob '', Quoted ''nightly'', Lit '' not found''])"
      by (rule events_only_append(1))
    show "reconcile_monitor sample_deps ?W ?r k cjm = Some (early_pass ?W k (seeded m k cjm)
       (early_events ?r (priorReconciled (snapshot_priors (k8s_meta zero_time) cjm))
        ReasonCronJobNotFound [Lit ''CronJob '', Quoted ''nightly'', Lit '' not found''])
       (orphaned_monitor cjm))"
      using assms
      by (simp add: reconcile_monitor_def cronjob_not_found_def finishEarlyReturn_pass case_prod_beta
          orphaned_monitor_def Let_def seeded_def prune_status sample_spec_def not_measuring_def
          setReconciledFalse_def)
  qed
  then show thesis
    using that by (simp add: Reconcile_def reconcile_body_def early_pass_def settled_def
        deferred_metrics_def)
qed

text \<open>
  C4. Every status a reconcile writes is coherent: all five conditions are there and carry the
  generation that was read, \<open>observedGeneration\<close> included; \<open>Ready\<close> is the aggregate of the other
  four; and what cannot be measured is never reported as health: without a next run
  \<open>Reconciled\<close> and \<open>Ready\<close> are False and \<open>ScheduleHealthy\<close> is Unknown.
\<close>

theorem Reconcile_reports_coherently:
  assumes "condition_store (Meta D)" and "lastMissed r = GoMap m"
    and "Get_CronJobMonitor W k = Inr cjm" and "Reconcile D W r k = Some p"
    and "status_writes (pTrace p) = [c]"
  shows "ObservedGeneration (Status c) = Generation cjm
     \<and> (\<forall>t \<in> set (ConditionReady # axes).
          \<exists>st rs ms. axis (Meta D) c t = Some (st, rs, ms, Generation cjm))
     \<and> axis_status (Meta D) c ConditionReady = Some (ready_status (Meta D) c axes)
     \<and> (if NextExpectedTime (Status c) = None
        then axis_status (Meta D) c ConditionReconciled = Some ConditionFalse
             \<and> axis_status (Meta D) c ConditionScheduleHealthy = Some ConditionUnknown
             \<and> axis_status (Meta D) c ConditionReady = Some ConditionFalse
        else axis_status (Meta D) c ConditionReconciled = Some ConditionTrue)"
proof -
  obtain q where "shape D W r k m cjm q" "status_writes (pTrace q) = [c]"
    using Reconcile_written [OF assms] by blast
  from written_reported_and_kept [OF assms(1) this] show ?thesis
    by (auto simp: well_reported_def keeps_def ready_status_def)
qed

lemma sample_monitor_simps [simp]:
  "Spec (sample_monitor b rs) = sample_spec b" "Namespace (sample_monitor b rs) = ''ns''"
  "RecentExecutions (Status (sample_monitor b rs)) = rs"
  by (simp_all add: sample_monitor_def)

theorem Reconcile_reports_coherently_witness:
  "\<exists>p. Reconcile sample_deps (sample_answers (sample_monitor None []) (Inl NotFound))
         (sample_reconciler Map.empty) (''ns'', ''mon'') = Some p
     \<and> status_writes (pTrace p) = [orphaned_monitor (sample_monitor None [])]
     \<and> axis_status (k8s_meta zero_time) (orphaned_monitor (sample_monitor None [])) ConditionReady
        = Some ConditionFalse"
proof -
  let ?W = "sample_answers (sample_monitor None []) (Inl NotFound)"
  obtain p where p: "Reconcile sample_deps ?W (sample_reconciler Map.empty) (''ns'', ''mon'') = Some p"
    "status_writes (pTrace p) = [orphaned_monitor (sample_monitor None [])]"
    by (rule sample_not_found [of "sample_monitor None []" None]) simp_all
  moreover have "NextExpectedTime (Status (orphaned_monitor (sample_monitor None []))) = None"
    by (simp add: orphaned_monitor_def)
  ultimately show ?thesis
    using Reconcile_reports_coherently [OF _ _ _ p, of Map.empty "sample_monitor None []"] by auto
qed

text \<open>
  C9. No pass undoes what was observed: the last start, success and failure times of the written
  status are not before those that were read, the spec and the identity are untouched, and a
  history that was a ring of at most \<open>historyLimit\<close> records (newest first, one per Job) still is
  one.
\<close>

theorem Reconcile_never_forgets:
  assumes "condition_store (Meta D)" and "lastMissed r = GoMap m"
    and "Get_CronJobMonitor W k = Inr cjm" and "Reconcile D W r k = Some p"
    and "status_writes (pTrace p) = [c]"
    and "ring_invar (history_limit cjm) (RecentExecutions (Status cjm))"
  shows "later (LastScheduleTime (Status cjm)) (LastScheduleTime (Status c))
     \<and> later (LastSuccessTime (Status cjm)) (LastSuccessTime (Status c))
     \<and> later (LastFailureTime (Status cjm)) (LastFailureTime (Status c))
     \<and> ring_invar (history_limit cjm) (RecentExecutions (Status c))
     \<and> Spec c = Spec cjm \<and> Namespace c = Namespace cjm \<and> Name c = Name cjm"
proof -
  obtain q where "shape D W r k m cjm q" "status_writes (pTrace q) = [c]"
    using Reconcile_written [OF assms(1-5)] by blast
  from written_reported_and_kept [OF assms(1) this] assms(6) show ?thesis
    by (simp add: keeps_def)
qed

theorem Reconcile_never_forgets_witness:
  "\<exists>p. Reconcile sample_deps (sample_answers (sample_monitor None
           [sample_record ''a'' 10 ExecutionPhaseFailed]) (Inl NotFound))
         (sample_reconciler Map.empty) (''ns'', ''mon'') = Some p
     \<and> status_writes (pTrace p)
        = [orphaned_monitor (sample_monitor None [sample_record ''a'' 10 ExecutionPhaseFailed])]
     \<and> ring_invar 10 (RecentExecutions (Status
          (orphaned_monitor (sample_monitor None [sample_record ''a'' 10 ExecutionPhaseFailed]))))"
proof -
  let ?m = "sample_monitor None [sample_record ''a'' 10 ExecutionPhaseFailed]"
  obtain p where p: "Reconcile sample_deps (sample_answers ?m (Inl NotFound))
      (sample_reconciler Map.empty) (''ns'', ''mon'') = Some p"
    "status_writes (pTrace p) = [orphaned_monitor ?m]"
    by (rule sample_not_found [of ?m None]) simp_all
  moreover have "history_limit ?m = 10" "ring_invar 10 (RecentExecutions (Status ?m))"
    by (simp_all add: history_limit_def sample_spec_def ring_invar_def)
  ultimately show ?thesis
    using Reconcile_never_forgets [OF _ _ _ p, of Map.empty ?m] by simp
qed

text \<open>
  C25. Deleting a monitor leaves nothing behind: its counter, its result counters and its latency
  series are gone from the registry and its baseline from the map, the deferred metrics do not
  bring them back, other monitors keep theirs, and nothing is written or requeued.
\<close>

theorem Reconcile_deletion_cleans_up:
  assumes "Get_CronJobMonitor W k = Inl NotFound"
  shows "\<exists>p. Reconcile D W r k = Some p \<and> pErr p = None \<and> pRequeue p = 0
     \<and> status_writes (pTrace p) = [] \<and> events (pTrace p) = []
     \<and> map_get (pBaseline p) = (map_get (lastMissed r))(k := None)
     \<and> MissedRunsTotal (observe_all (pTrace p) g) = (MissedRunsTotal g)(k := None)
     \<and> ReconcileDurationSeconds (observe_all (pTrace p) g) = (ReconcileDurationSeconds g)(k := None)
     \<and> ReconcileTotal (observe_all (pTrace p) g)
        = (ReconcileTotal g)((k, ResultSuccess) := None, (k, ResultError) := None,
            (k, ResultRequeue) := None)"
proof -
  have "map_get (map_delete b k) = (map_get b)(k := None)" for b
    by (cases b) (simp_all add: fun_eq_iff)
  with assms show ?thesis
    by (simp add: Reconcile_def reconcile_body_def deferred_metrics_def)
qed

theorem Reconcile_deletion_cleans_up_witness:
  "\<exists>p. Reconcile sample_deps ((sample_answers (sample_monitor None []) (Inl NotFound))
          \<lparr>Get_CronJobMonitor := \<lambda>k. Inl NotFound\<rparr>)
          (sample_reconciler [(''ns'', ''mon'') \<mapsto> 5, (''ns'', ''other'') \<mapsto> 2]) (''ns'', ''mon'') = Some p
     \<and> map_get (pBaseline p) (''ns'', ''mon'') = None \<and> map_get (pBaseline p) (''ns'', ''other'') = Some 2
     \<and> MissedRunsTotal (observe_all (pTrace p)
          (empty_registry\<lparr>MissedRunsTotal := [(''ns'', ''mon'') \<mapsto> 5]\<rparr>)) = Map.empty"
  using Reconcile_deletion_cleans_up [of "(sample_answers (sample_monitor None []) (Inl NotFound))
      \<lparr>Get_CronJobMonitor := \<lambda>k. Inl NotFound\<rparr>" "(''ns'', ''mon'')" sample_deps
      "sample_reconciler [(''ns'', ''mon'') \<mapsto> 5, (''ns'', ''other'') \<mapsto> 2]"
      "empty_registry\<lparr>MissedRunsTotal := [(''ns'', ''mon'') \<mapsto> 5]\<rparr>"]
  by auto

text \<open>
  C23. Events mark changes. If the generation was already observed and the four axes keep their
  status and reason, the reconcile sends no event: a monitor that stays broken, however long, is
  reported once.
\<close>

theorem Reconcile_silent_when_unchanged:
  assumes "condition_store (Meta D)" and "lastMissed r = GoMap m"
    and "Get_CronJobMonitor W k = Inr cjm" and "Reconcile D W r k = Some p"
    and "status_writes (pTrace p) = [c]"
    and "ObservedGeneration (Status cjm) = Generation cjm"
    and "\<forall>t \<in> set axes. state_of (Meta D) cjm t = state_of (Meta D) c t"
  shows "events (pTrace p) = []"
proof -
  obtain q where q: "shape D W r k m cjm q" "status_writes (pTrace q) = [c]"
    and e: "events (pTrace p) = events (pTrace q)"
    using Reconcile_written [OF assms(1-5)] by blast
  from q show ?thesis
  proof (cases rule: shape_written)
    case (early c0 reason message evs)
    then have "state_of (Meta D) c ConditionReconciled = Some (ConditionFalse, reason)"
      by (auto simp: state_of_axis early_state_def
          condition_store.axis_early_written [OF assms(1)])
    with early assms(6,7) early_events_silent show ?thesis
      by (simp add: e prelude_events_def)
  next
    case (measured c0 missed n evs)
    with assms(6,7) emitTransitionEvents_silent show ?thesis by (simp add: e prelude_events_def)
  qed
qed

text \<open>The second visit to a monitor whose CronJob is gone finds what the first one wrote.\<close>

lemma orphaned_state:
  assumes "Spec cjm = sample_spec None" and "RecentExecutions (Status cjm) = []" and "t \<in> set axes"
  shows "state_of (k8s_meta zero_time) (orphaned_monitor cjm) t = Some
    (if t = ConditionReconciled then (ConditionFalse, ReasonCronJobNotFound)
     else if t = ConditionScheduleHealthy then (ConditionUnknown, ReasonNoSchedule)
     else if t = ConditionExecutionHealthy then (ConditionUnknown, ReasonNoRuns)
     else (ConditionUnknown, ReasonCheckDisabled))"
  using assms
  by (auto simp: state_of_axis orphaned_monitor_def early_written_def k8s.axis_Ready_other
      k8s.axis_DurationHealthy_other k8s.axis_ExecutionHealthy_other prune_status
      evaluateDurationHealthy_def evaluateExecutionHealthy_def sample_spec_def not_measuring_def
      setReconciledFalse_def Let_def)

lemma orphaned_monitor_simps [simp]:
  "Spec (orphaned_monitor cjm) = Spec cjm" "Namespace (orphaned_monitor cjm) = Namespace cjm"
  "Name (orphaned_monitor cjm) = Name cjm"
  "Generation (orphaned_monitor cjm) = Generation cjm"
  "ObservedGeneration (Status (orphaned_monitor cjm)) = Generation cjm"
  "RecentExecutions (Status cjm) = [] \<Longrightarrow> RecentExecutions (Status (orphaned_monitor cjm)) = []"
proof -
  have "early_state (k8s_meta zero_time) cjm (not_measuring (k8s_meta zero_time) ReasonNoSchedule
      [Lit ''no schedule available''] (setReconciledFalse (k8s_meta zero_time) ReasonCronJobNotFound
         [Lit ''CronJob '', Quoted ''nightly'', Lit '' not found in namespace '', Quoted ''ns'']
         (fst (pruneOrphanedRunning cjm [] empty_CronJob (utc 4260211200))))) ReasonCronJobNotFound"
    by (rule k8s.early_state_not_measuring [OF keeps_prune])
  note e = this
  have "keeps (k8s_meta zero_time) cjm (orphaned_monitor cjm)"
    unfolding orphaned_monitor_def by (rule keeps_trans [OF state_keeps(1) [OF e] keeps_early_written])
  moreover have "ObservedGeneration (Status (orphaned_monitor cjm)) = Generation cjm"
    using e by (simp add: orphaned_monitor_def early_state_def)
  ultimately show "Spec (orphaned_monitor cjm) = Spec cjm" "Namespace (orphaned_monitor cjm) = Namespace cjm"
    "Name (orphaned_monitor cjm) = Name cjm"
    "Generation (orphaned_monitor cjm) = Generation cjm"
    "ObservedGeneration (Status (orphaned_monitor cjm)) = Generation cjm"
    by (simp_all add: keeps_def)
  show "RecentExecutions (Status cjm) = [] \<Longrightarrow> RecentExecutions (Status (orphaned_monitor cjm)) = []"
    by (simp add: orphaned_monitor_def early_written_def evaluateReady_def evaluateDurationHealthy_def
        evaluateExecutionHealthy_def not_measuring_def setReconciledFalse_def Let_def prune_status
        split: prod.split option.split)
qed

theorem Reconcile_silent_when_unchanged_witness:
  "\<exists>p. Reconcile sample_deps (sample_answers (orphaned_monitor (sample_monitor None [])) (Inl NotFound))
         (sample_reconciler Map.empty) (''ns'', ''mon'') = Some p
     \<and> events (pTrace p) = []"
proof -
  let ?m = "orphaned_monitor (sample_monitor None [])"
  obtain p where p: "Reconcile sample_deps (sample_answers ?m (Inl NotFound))
      (sample_reconciler Map.empty) (''ns'', ''mon'') = Some p"
    "status_writes (pTrace p) = [orphaned_monitor ?m]"
    by (rule sample_not_found [of ?m None]) simp_all
  moreover have "\<forall>t \<in> set axes. state_of (k8s_meta zero_time) ?m t
      = state_of (k8s_meta zero_time) (orphaned_monitor ?m) t"
    using orphaned_state [of "sample_monitor None []"] orphaned_state [of ?m] by simp
  ultimately show ?thesis
    using Reconcile_silent_when_unchanged [OF _ _ _ p, of Map.empty ?m] by simp
qed

end
