(* ===== verification/Reconcile_Measure.thy ===== *)
theory Reconcile_Measure
  imports Reconcile_Status
begin

text \<open>
  What a reconcile measures when nothing stands in its way: the missed runs, end to end from the
  cron slots to the written status, the floor they are counted from, and the drift of the last
  run.
\<close>

section \<open>The floor\<close>

definition last_observed_start :: "CronJobMonitor \<Rightarrow> gotime" where
  "last_observed_start c = (case LastScheduleTime (Status c) of Some u \<Rightarrow> u | None \<Rightarrow> CreationTimestamp c)"

lemma missed_floor_cases:
  "missed_floor c cj ov t = last_observed_start c
   \<or> (\<exists>w. cjLastScheduleTime cj = Some w \<and> missed_floor c cj ov t = w \<and> \<not> ov
        \<and> SpecTimeZone (Spec c) = [] \<and> ns (last_observed_start c) < ns w \<and> ns w \<le> ns t)"
  by (auto simp: missed_floor_def last_observed_start_def Let_def After_def split: option.split)

text \<open>
  C22. The scheduler's own record can only forgive. Taking the CronJob's \<open>lastScheduleTime\<close> into
  account never adds a missed run, never moves the floor past the present unless it was there
  already, and is ignored when the monitor has a schedule or a zone of its own.
\<close>

theorem scheduler_record_only_forgives:
  assumes "cron_slots s slot"
  shows "MissedRunsSince s (missed_floor c cj ov t) t grace
           \<le> MissedRunsSince s (last_observed_start c) t grace
     \<and> ns (last_observed_start c) \<le> ns (missed_floor c cj ov t)
     \<and> ns (missed_floor c cj ov t) \<le> max (ns (last_observed_start c)) (ns t)
     \<and> (if ov \<or> SpecTimeZone (Spec c) \<noteq> [] then missed_floor c cj ov t = last_observed_start c
        else True)"
proof -
  have f: "ns (last_observed_start c) \<le> ns (missed_floor c cj ov t)"
    using missed_floor_cases [of c cj ov t] by auto
  have "card {u. slot u \<and> ns (missed_floor c cj ov t) < u \<and> u \<le> ns t - grace}
      \<le> card {u. slot u \<and> ns (last_observed_start c) < u \<and> u \<le> ns t - grace}"
    by (rule card_mono [OF cron_slots.finite_slots [OF assms]]) (use f in auto)
  then show ?thesis
    using f missed_floor_cases [of c cj ov t]
    by (auto simp: cron_slots.MissedRunsSince_card [OF assms])
qed

theorem scheduler_record_only_forgives_witness:
  "MissedRunsSince leap_day_schedule
      (missed_floor (sample_monitor None []) (sample_cronjob\<lparr>cjLastScheduleTime := Some (utc 4233600000)\<rparr>)
        False (utc 4260211200)) (utc 4260211200) 0
     \<le> MissedRunsSince leap_day_schedule (last_observed_start (sample_monitor None [])) (utc 4260211200) 0
   \<and> ns (missed_floor (sample_monitor None [])
        (sample_cronjob\<lparr>cjLastScheduleTime := Some (utc 4233600000)\<rparr>) False (utc 4260211200))
      = 4233600000 * Second"
  using scheduler_record_only_forgives [OF leap_day.cron_slots_axioms, of "sample_monitor None []"
      "sample_cronjob\<lparr>cjLastScheduleTime := Some (utc 4233600000)\<rparr>" False "utc 4260211200" 0]
  by (simp add: missed_floor_def sample_monitor_def sample_spec_def sample_cronjob_def After_def
      Second_def)

section \<open>The missed runs\<close>

lemma evaluator_latch [simp]:
  "LastScheduleTime (Status (evaluateExecutionHealthy M c)) = LastScheduleTime (Status c)"
  "LastScheduleTime (Status (evaluateDurationHealthy M c)) = LastScheduleTime (Status c)"
  "LastScheduleTime (Status (evaluateReady M c)) = LastScheduleTime (Status c)"
  "LastScheduleTime (Status (evaluateScheduleHealthy M c n)) = LastScheduleTime (Status c)"
  by (simp_all add: evaluateExecutionHealthy_def evaluateDurationHealthy_def evaluateReady_def
      evaluateScheduleHealthy_def Let_def split: prod.split option.split)

lemma evaluate_all_base [simp]:
  "LastScheduleTime (Status (evaluate_all M n c)) = LastScheduleTime (Status c)"
  "Spec (evaluate_all M n c) = Spec c" "CreationTimestamp (evaluate_all M n c) = CreationTimestamp c"
  using keeps_evaluate_all [of M c n] by (simp_all add: evaluate_all_def Let_def keeps_def)

lemma missed_floor_evaluate_all [simp]:
  "missed_floor (evaluate_all M n c) cj ov t = missed_floor c cj ov t"
  by (simp add: missed_floor_def Let_def split: option.split)

text \<open>Everything a measurement needs is available.\<close>

definition measurable ::
  "deps \<Rightarrow> answers \<Rightarrow> CronJobMonitorReconciler \<Rightarrow> CronJobMonitor \<Rightarrow> CronJob \<Rightarrow> Schedule \<Rightarrow> gotime \<Rightarrow> bool" where
  "measurable D W r cjm cj s n \<longleftrightarrow>
     Get_CronJob W (Namespace cjm, CronJobRef (Spec cjm)) = Inr cj
     \<and> cjSuspend cj \<noteq> Some True
     \<and> (\<exists>loc. (if timezone_name cjm cj = [] then loc = time_UTC
              else LoadLocation D (timezone_name cjm cj) = Inr loc)
          \<and> ParseInLocation (CronParser D) (schedule_expr cjm cj) (Some loc) = Inr s)
     \<and> (\<exists>jobs. List_Jobs W (cjNamespace cj) = Inr jobs)
     \<and> NextSlot s (now r W AtNow) = (n, True)"

lemma merge_observed_executions:
  "RecentExecutions (Status (merge_observed c owned))
   = Merge (RecentExecutions (Status c)) (map jobToRecord owned) (history_limit c)"
  using observe_records_latches
  by (simp add: merge_observed_def updateLastObservedTimes_def Let_def)

lemma reconcile_monitor_measured:
  assumes "lastMissed r = GoMap m" and "measurable D W r cjm cj s n"
  obtains c missed evs jobs where "measured_state (Meta D) cjm c missed n" and "list_all is_event evs"
    and "listOwnedJobs (List_Jobs W) cj = Inr jobs"
    and "outcomes c = outcomes (merge_observed cjm (sortJobsNewestFirst jobs))"
    and "missed = MissedRunsSince s (missed_floor c cj (schedule_overridden cjm cj) (now r W AtNow))
           (now r W AtNow) (to_int64 (GracePeriodSeconds (Spec cjm) * Second))"
    and "reconcile_monitor D W r k cjm
         = Some (measured_pass W k (seeded m k cjm) evs (evaluate_all (Meta D) missed c) missed
             (raised (m k) (MissedRuns (Status cjm))) (requeue_interval n (now r W AtRequeue)))"
proof -
  let ?r = "r\<lparr>lastMissed := GoMap (seeded m k cjm)\<rparr>" and ?P = "snapshot_priors (Meta D) cjm"
  let ?t = "now r W AtNow" and ?ov = "schedule_overridden cjm cj"
  obtain loc jobs where loc: "if timezone_name cjm cj = [] then loc = time_UTC
        else LoadLocation D (timezone_name cjm cj) = Inr loc"
    "ParseInLocation (CronParser D) (schedule_expr cjm cj) (Some loc) = Inr s"
    and jobs: "listOwnedJobs (List_Jobs W) cj = Inr jobs"
    using assms(2) by (auto simp: measurable_def listOwnedJobs_def)
  define z where "z = (if timezone_name cjm cj = [] then ''UTC'' else timezone_name cjm cj)"
  let ?c = "upd_status (\<lambda>s. s\<lparr>ResolvedSchedule := Some (schedule_expr cjm cj), ResolvedTimeZone := Some z\<rparr>) cjm"
  let ?o = "sortJobsNewestFirst jobs"
  let ?e = "mismatch_events r ?c cj (schedule_expr cjm cj) ?ov"
  have "reconcile_monitor D W r k cjm = reconcile_scheduled D W ?r k cjm cj s (schedule_expr cjm cj) z ?ov ?P"
    using assms loc
    by (auto simp: measurable_def reconcile_monitor_def reconcile_found_def reconcile_resolved_def
        z_def seeded_def Let_def)
  also have "\<dots> = after_effects ?e
      (reconcile_measured D W ?r k (merge_observed ?c ?o) cj s ?ov ?o ?t n ?P)"
    using assms(2) jobs by (simp add: measurable_def reconcile_scheduled_def Let_def)
  finally have eq: "reconcile_monitor D W r k cjm = after_effects ?e
      (reconcile_measured D W ?r k (merge_observed ?c ?o) cj s ?ov ?o ?t n ?P)" .
  have k: "keeps (Meta D) cjm (merge_observed ?c ?o)"
    by (rule keeps_trans [OF keeps_upd_status keeps_merge_observed]) simp_all
  have ring: "ring_invar (history_limit cjm) (RecentExecutions (Status (merge_observed ?c ?o)))"
    using merge_observed_ring [of ?c ?o] history_limit_Spec [of ?c cjm] by simp
  obtain c missed where c: "measured_state (Meta D) cjm c missed n"
    "missed = MissedRunsSince s (missed_floor c cj ?ov ?t) ?t (to_int64 (GracePeriodSeconds (Spec c) * Second))"
    "outcomes c = outcomes (merge_observed ?c ?o)"
    "reconcile_measured D W ?r k (merge_observed ?c ?o) cj s ?ov ?o ?t n ?P
     = Some (measured_pass W k (seeded m k cjm)
         (emitTransitionEvents (Meta D) ?r (evaluate_all (Meta D) missed c) ?P)
         (evaluate_all (Meta D) missed c) missed (raised (m k) (MissedRuns (Status cjm)))
         (requeue_interval n (now ?r W AtRequeue)))"
    by (rule reconcile_measured_pass [where r = ?r and m = "seeded m k cjm" and k = k and cjm = cjm
          and ?c0.0 = "merge_observed ?c ?o" and nextExpected = n and D = D and W = W and cj = cj
          and parsed = s and ov = ?ov and owned = ?o and t = ?t and P = ?P]) (use k ring in \<open>simp_all add: seeded_def\<close>)
  have "Spec c = Spec cjm" using c(1) by (simp add: measured_state_def keeps_def)
  moreover have "list_all is_event ?e" by (simp add: mismatch_events_def)
  moreover have "outcomes c = outcomes (merge_observed cjm ?o)"
    using c(3) by (simp add: outcomes_def merge_observed_executions history_limit_def)
  ultimately show thesis using c jobs eq by (intro that [of c missed]) simp_all
qed

lemma Reconcile_of_monitor:
  "Get_CronJobMonitor W k = Inr cjm \<Longrightarrow> reconcile_monitor D W r k cjm = Some p \<Longrightarrow>
   Reconcile D W r k = Some (p\<lparr>pTrace := pTrace p @ deferred r W k p\<rparr>)"
  by (simp add: Reconcile_def reconcile_body_def deferred_def)

lemma status_writes_measured_pass:
  "list_all is_event evs \<Longrightarrow> status_writes (pTrace (measured_pass W k m evs c missed prev q)) = [c]"
  by (cases "Status_Update W c") (simp_all add: measured_pass_def settled_def)

text \<open>
  C1. The missed runs a monitor reports are the slots that were missed. When nothing stands in the
  way of the measurement, the written status says how many slots of the schedule lie after the
  floor and at or before the present less the grace period (up to the rail of 100001), the next
  expected time, and a \<open>ScheduleHealthy\<close> that is False exactly if the alert threshold is reached.
  (For the schedules of the contract \<open>cron_slots\<close>: named zones, whole-hour clock changes.)
\<close>

theorem Reconcile_reports_missed_slots:
  assumes "condition_store (Meta D)" and "cron_slots s slot" and "lastMissed r = GoMap m"
    and "Get_CronJobMonitor W k = Inr cjm" and "measurable D W r cjm cj s n"
    and "0 \<le> GracePeriodSeconds (Spec cjm)" and "GracePeriodSeconds (Spec cjm) < 86400"
  shows "\<exists>p c. Reconcile D W r k = Some p \<and> status_writes (pTrace p) = [c]
     \<and> MissedRuns (Status c) = min 100001 (int (card {u. slot u
          \<and> ns (missed_floor c cj (schedule_overridden cjm cj) (now r W AtNow)) < u
          \<and> u \<le> ns (now r W AtNow) - GracePeriodSeconds (Spec cjm) * Second}))
     \<and> NextExpectedTime (Status c) = Some n
     \<and> axis_status (Meta D) c ConditionScheduleHealthy = Some
          (if 0 < AlertAfterMissedRuns (Spec cjm) \<and> AlertAfterMissedRuns (Spec cjm) \<le> MissedRuns (Status c)
           then ConditionFalse else ConditionTrue)"
proof -
  let ?t = "now r W AtNow" and ?ov = "schedule_overridden cjm cj"
  obtain c missed evs where c: "measured_state (Meta D) cjm c missed n" and evs: "list_all is_event evs"
    and m: "missed = MissedRunsSince s (missed_floor c cj ?ov ?t) ?t
        (to_int64 (GracePeriodSeconds (Spec cjm) * Second))"
    and rm: "reconcile_monitor D W r k cjm
         = Some (measured_pass W k (seeded m k cjm) evs (evaluate_all (Meta D) missed c) missed
             (raised (m k) (MissedRuns (Status cjm))) (requeue_interval n (now r W AtRequeue)))"
    using reconcile_monitor_measured [OF assms(3,5)] by blast
  let ?c = "evaluate_all (Meta D) missed c"
  have "to_int64 (GracePeriodSeconds (Spec cjm) * Second) = GracePeriodSeconds (Spec cjm) * Second"
    using assms(6,7) by (intro to_int64_id) (simp_all add: Second_def)
  then have "missed = min 100001 (int (card {u. slot u \<and> ns (missed_floor ?c cj ?ov ?t) < u
      \<and> u \<le> ns ?t - GracePeriodSeconds (Spec cjm) * Second}))"
    by (simp add: m cron_slots.MissedRunsSince_card [OF assms(2)])
  moreover have "axis_status (Meta D) ?c ConditionScheduleHealthy = Some
      (if 0 < AlertAfterMissedRuns (Spec cjm) \<and> AlertAfterMissedRuns (Spec cjm) \<le> missed
       then ConditionFalse else ConditionTrue)"
    using condition_store.ScheduleHealthy_spec [OF assms(1), of c missed] c
    by (simp add: axis_status_axis condition_store.axis_evaluate_all [OF assms(1)] measured_state_def
        keeps_def)
  moreover have "NextExpectedTime (Status ?c) = Some n" using c by (simp add: measured_state_def)
  moreover obtain q where "Reconcile D W r k = Some q" "status_writes (pTrace q) = [?c]"
    using Reconcile_of_monitor [OF assms(4) rm] status_writes_measured_pass [OF evs] by auto
  ultimately show ?thesis by (intro exI [of _ q] exI [of _ ?c]) simp
qed

text \<open>The sample monitor on the leap-day schedule, at the end of 2104.\<close>

lemma NextSlot_2104: "NextSlot leap_day_schedule (utc 4260211200) = (leap_slot 2108, True)"
proof -
  have "leap_next (utc 4260211200) = leap_slot 2108" by (simp add: leap_eval)
  then show ?thesis
    unfolding NextSlot_def Let_def leap_schedule_simps
    by (subst NextSlot_loop.simps) simp
qed

lemma sample_measurable:
  "measurable sample_deps (sample_answers (sample_monitor None rs) (Inr sample_cronjob))
     (sample_reconciler m) (sample_monitor None rs) sample_cronjob leap_day_schedule (leap_slot 2108)"
proof -
  have "ParseInLocation (CronParser sample_deps)
      (schedule_expr (sample_monitor None rs) sample_cronjob) (Some time_UTC) = Inr leap_day_schedule"
    by (simp add: ParseInLocation_def parse_def sample_deps_def schedule_expr_def sample_spec_def
        Let_def leap_day_schedule_def)
  then show ?thesis
    by (simp add: measurable_def timezone_name_def sample_spec_def sample_cronjob_def
        sample_answers_def now_def sample_reconciler_def NextSlot_2104)
qed

theorem Reconcile_reports_missed_slots_witness:
  "\<exists>p c. Reconcile sample_deps (sample_answers (sample_monitor None []) (Inr sample_cronjob))
       (sample_reconciler Map.empty) (''ns'', ''mon'') = Some p
     \<and> status_writes (pTrace p) = [c]
     \<and> MissedRuns (Status c) = min 100001 (int (card {u. is_leap_slot u
          \<and> ns (missed_floor c sample_cronjob False (utc 4260211200)) < u \<and> u \<le> 4260211140 * Second}))
     \<and> NextExpectedTime (Status c) = Some (leap_slot 2108)"
proof -
  let ?W = "sample_answers (sample_monitor None []) (Inr sample_cronjob)"
  have "schedule_overridden (sample_monitor None []) sample_cronjob = False"
    by (simp add: schedule_overridden_def sample_spec_def sample_cronjob_def)
  then show ?thesis
    using Reconcile_reports_missed_slots [OF _ leap_day.cron_slots_axioms _ _ sample_measurable
        [of "[]" Map.empty], of Map.empty "(''ns'', ''mon'')"]
    by (simp add: sample_spec_def left_diff_distrib [symmetric]) blast
qed

section \<open>The drift\<close>

lemma drift_seconds:
  assumes "Second dvd ns lst" and "Second dvd ns e" and "ns e \<le> ns lst" and "ns (prev_floor s lst) < ns e"
  shows "int32_of_float (Seconds (Drift lst e)) = (ns lst - ns e) div Second"
proof -
  have "ns (Truncate lst Second) = ns lst" using assms(1) by (simp add: Truncate_Second)
  then have d: "ns lst - ns e < 400000000 * Second"
    using prev_floor_window(3) [of lst s] assms(4) by simp
  then have "Sub lst e = ns lst - ns e"
    using assms(3) by (intro Sub_exact) (simp add: Second_def)
  moreover have "int32_of_float (Seconds (ns lst - ns e)) = (ns lst - ns e) div Second"
  proof (rule int32_of_Seconds)
    show "Second dvd ns lst - ns e" using assms(1,2) by simp
    then obtain q where "ns lst - ns e = Second * q" by blast
    then show "- (2 ^ 31) \<le> (ns lst - ns e) div Second" "(ns lst - ns e) div Second < 2 ^ 31"
      using d assms(3) by (simp_all add: Second_def)
  qed
  ultimately show ?thesis by (simp add: Drift_def)
qed

definition drift_noted ::
  "gotime \<Rightarrow> gotime option \<Rightarrow> int option \<Rightarrow> int \<Rightarrow> CronJobMonitor \<Rightarrow> CronJobMonitor" where
  "drift_noted lst e d n c = upd_status (\<lambda>st. st\<lparr>ScheduleDriftSeconds := n,
     RecentExecutions := (case RecentExecutions st of
        [] \<Rightarrow> []
      | q # qs \<Rightarrow> (if ns (StartTime q) = ns lst
                  then q\<lparr>ExpectedStartTime := e, DriftSeconds := d\<rparr> else q) # qs)\<rparr>) c"

lemma measure_drift_noted:
  assumes "LastScheduleTime (Status c) = Some lst" and "Prev s lst = Some (x, found)"
  shows "measure_drift s c = Some (if found
     then drift_noted lst (Some x) (Some (int32_of_float (Seconds (Drift lst x))))
            (int32_of_float (Seconds (Drift lst x))) c
     else drift_noted lst None None 0 c)"
proof (cases "RecentExecutions (Status c)")
  case Nil
  with assms show ?thesis
    by (simp add: measure_drift_def drift_noted_def annotatable_def upd_status_def Let_def)
next
  case (Cons q qs)
  with assms show ?thesis
    by (simp add: measure_drift_def drift_noted_def annotatable_def TimeEqual_def upd_status_def Let_def)
qed

text \<open>
  C10. The drift of the last run is measured against its own slot: the most recent slot at or
  before the start, to the second and never negative. The newest record is annotated with that slot
  and drift exactly if it started at the latched start; other records keep what they have. A start
  with no slot in the lookback reports zero instead of an old value, and the record of that start
  loses its annotation. Nothing else of the monitor changes. (For the schedules of the
  contract \<open>cron_slots\<close>.)
\<close>

theorem drift_against_own_slot:
  assumes "cron_slots s slot" and "LastScheduleTime (Status c) = Some lst" and "Second dvd ns lst"
    and "prevLookbackYears < Year (In lst (schedule_location s))"
  shows "\<exists>c' e d. measure_drift s c = Some c'
     \<and> c' = upd_status (\<lambda>st. st\<lparr>ScheduleDriftSeconds := ScheduleDriftSeconds (Status c'),
               RecentExecutions := (case RecentExecutions st of
                  [] \<Rightarrow> []
                | q # qs \<Rightarrow> (if ns (StartTime q) = ns lst
                            then q\<lparr>ExpectedStartTime := e, DriftSeconds := d\<rparr> else q) # qs)\<rparr>) c
     \<and> (if {u. slot u \<and> ns (prev_floor s lst) < u \<and> u \<le> ns lst} = {}
        then ScheduleDriftSeconds (Status c') = 0 \<and> e = None \<and> d = None
        else \<exists>x. slot (ns x) \<and> ns x \<le> ns lst \<and> {u. slot u \<and> ns x < u \<and> u \<le> ns lst} = {}
               \<and> ScheduleDriftSeconds (Status c') * Second = ns lst - ns x
               \<and> e = Some x \<and> d = Some (ScheduleDriftSeconds (Status c')))"
  using cron_slots.Prev_spec [OF assms(1,4)]
proof (elim disjE exE conjE)
  fix x
  assume e: "Prev s lst = Some (x, True)" "slot (ns x)" "ns x \<le> ns lst" "ns (prev_floor s lst) < ns x"
    "\<forall>u. slot u \<and> u \<le> ns lst \<longrightarrow> u \<le> ns x"
  have w: "Second dvd ns x" by (rule cron_slots.slot_whole [OF assms(1) e(2)])
  define d where "d = (ns lst - ns x) div Second"
  have d: "d * Second = ns lst - ns x" using assms(3) w by (simp add: d_def left_diff_distrib)
  have ne: "{u. slot u \<and> ns (prev_floor s lst) < u \<and> u \<le> ns lst} \<noteq> {}"
    "{u. slot u \<and> ns x < u \<and> u \<le> ns lst} = {}" using e by auto
  have "measure_drift s c = Some (drift_noted lst (Some x) (Some d) d c)"
    using assms(2) e(1) drift_seconds [OF assms(3) w e(3,4)]
    by (simp add: measure_drift_noted d_def)
  then show ?thesis
    using e(2,3) d ne
    by (intro exI [of _ "drift_noted lst (Some x) (Some d) d c"] exI [of _ "Some x"] exI [of _ "Some d"])
      (auto simp: drift_noted_def)
next
  assume p: "Prev s lst = Some (zero_time, False)"
    "\<forall>u. slot u \<and> ns (prev_floor s lst) < u \<longrightarrow> ns lst < u"
  then have "{u. slot u \<and> ns (prev_floor s lst) < u \<and> u \<le> ns lst} = {}" by force
  with measure_drift_noted [OF assms(2) p(1)] show ?thesis
    by (intro exI [of _ "drift_noted lst None None 0 c"] exI [of _ None]) (simp add: drift_noted_def)
qed

theorem drift_against_own_slot_witness:
  "\<exists>c' x. measure_drift leap_day_schedule (upd_status (\<lambda>st. st\<lparr>LastScheduleTime := Some (utc 4233600300)\<rparr>)
        (sample_monitor None [sample_record ''b'' 4233600300 ExecutionPhaseRunning])) = Some c'
     \<and> is_leap_slot (ns x) \<and> ns x \<le> 4233600300 * Second
     \<and> ScheduleDriftSeconds (Status c') * Second = 4233600300 * Second - ns x
     \<and> RecentExecutions (Status c') = [(sample_record ''b'' 4233600300 ExecutionPhaseRunning)
          \<lparr>ExpectedStartTime := Some x, DriftSeconds := Some (ScheduleDriftSeconds (Status c'))\<rparr>]"
proof -
  let ?t = "utc 4233600300" and ?q = "sample_record ''b'' 4233600300 ExecutionPhaseRunning"
  let ?c = "upd_status (\<lambda>st. st\<lparr>LastScheduleTime := Some ?t\<rparr>) (sample_monitor None [?q])"
  have y: "Year (In ?t time_UTC) = 2104" by (simp add: Year_utc year_of_day_def Let_def)
  have "is_leap_slot (ns (leap_slot 2096))"
    by (auto simp: is_leap_slot_iff leap_def intro!: exI [of _ 2096])
  moreover have "ns (prev_floor leap_day_schedule ?t) < ns (leap_slot 2096)"
    by (simp add: prev_floor_def y prevLookbackYears_def Date_def unix_of_wall_def month_start_def
        ns_leap_slot days_before_def epoch_day_def)
  moreover have "ns (leap_slot 2096) \<le> 4233600300 * Second"
    by (simp add: ns_leap_slot days_before_def epoch_day_def)
  ultimately have ne: "{u. is_leap_slot u \<and> ns (prev_floor leap_day_schedule ?t) < u \<and> u \<le> ns ?t} \<noteq> {}"
    by auto
  obtain c' e d x where c': "measure_drift leap_day_schedule ?c = Some c'"
    "c' = upd_status (\<lambda>st. st\<lparr>ScheduleDriftSeconds := ScheduleDriftSeconds (Status c'),
       RecentExecutions := (case RecentExecutions st of
          [] \<Rightarrow> []
        | q # qs \<Rightarrow> (if ns (StartTime q) = ns ?t
                    then q\<lparr>ExpectedStartTime := e, DriftSeconds := d\<rparr> else q) # qs)\<rparr>) ?c"
    and x: "is_leap_slot (ns x)" "ns x \<le> ns ?t" "ScheduleDriftSeconds (Status c') * Second = ns ?t - ns x"
    "e = Some x" "d = Some (ScheduleDriftSeconds (Status c'))"
    using drift_against_own_slot [OF leap_day.cron_slots_axioms, of ?c ?t] ne
    by (simp only: if_False) (auto simp: y prevLookbackYears_def)
  have "RecentExecutions (Status c') = [?q\<lparr>ExpectedStartTime := Some x,
      DriftSeconds := Some (ScheduleDriftSeconds (Status c'))\<rparr>]"
    by (subst c'(2)) (simp add: x(4,5) sample_record_def)
  with c'(1) x(1-3) show ?thesis by auto
qed

end
