(* ===== verification/Job_Routing.thy ===== *)
theory Job_Routing
  imports Reconcile_Measure
begin

text \<open>
  \<open>mapJobToMonitors\<close> of \<open>cronjobmonitor_controller.go\<close>: which monitors a Job event wakes. The
  manager delivers any kind of object; the two lists are the client's, by namespace.
\<close>

datatype client_object = JobObject Job | OtherObject

fun owner_uid :: "OwnerReference list \<Rightarrow> string" where
  "owner_uid [] = []"
| "owner_uid (ref # refs) =
     (if refController ref = Some True \<and> refKind ref = ''CronJob'' then refUID ref
      else owner_uid refs)"

fun name_by_uid :: "(string \<rightharpoonup> string) \<Rightarrow> CronJob list \<Rightarrow> (string \<rightharpoonup> string)" where
  "name_by_uid m [] = m"
| "name_by_uid m (cj # cjs) = name_by_uid (m(cjUID cj \<mapsto> cjName cj)) cjs"

text \<open>Reading a missing key of a Go map gives the zero value.\<close>

definition string_at :: "(string \<rightharpoonup> string) \<Rightarrow> string \<Rightarrow> string" where
  "string_at m k = (case m k of None \<Rightarrow> [] | Some v \<Rightarrow> v)"

definition mapJobToMonitors ::
  "(string \<Rightarrow> api_error + CronJobMonitor list) \<Rightarrow> (string \<Rightarrow> api_error + CronJob list) \<Rightarrow>
   client_object \<Rightarrow> key list" where
  "mapJobToMonitors list_monitors list_cronjobs obj =
     (case obj of
        OtherObject \<Rightarrow> []
      | JobObject job \<Rightarrow>
          let ownerUID = owner_uid (jobOwnerReferences job) in
          if ownerUID = [] then []
          else case list_monitors (jobNamespace job) of
            Inl err \<Rightarrow> []
          | Inr cjms \<Rightarrow>
              (case list_cronjobs (jobNamespace job) of
                 Inl err \<Rightarrow> []
               | Inr cjs \<Rightarrow>
                   let ownerName = string_at (name_by_uid Map.empty cjs) ownerUID in
                   if ownerName = [] then []
                   else map (\<lambda>c. (Namespace c, Name c))
                          (filter (\<lambda>c. CronJobRef (Spec c) = ownerName) cjms)))"

section \<open>Lemmas\<close>

lemma name_by_uid_other: "u \<notin> cjUID ` set cjs \<Longrightarrow> name_by_uid m cjs u = m u"
  by (induction m cjs rule: name_by_uid.induct) auto

lemma name_by_uid_in:
  "distinct (map cjUID cjs) \<Longrightarrow> cj \<in> set cjs \<Longrightarrow> name_by_uid m cjs (cjUID cj) = Some (cjName cj)"
proof (induction m cjs rule: name_by_uid.induct)
  case (2 m x cjs)
  then show ?case using name_by_uid_other [of "cjUID x" cjs] by (cases "cj = x") (auto simp: fun_upd_def)
qed simp

lemma owner_uid_filter:
  "filter (\<lambda>ref. refController ref = Some True) refs = [ref] \<Longrightarrow> refKind ref = ''CronJob'' \<Longrightarrow>
   owner_uid refs = refUID ref"
proof (induction refs)
  case (Cons x refs)
  then show ?case by (cases "refController x = Some True") auto
qed simp

section \<open>Properties\<close>

text \<open>
  C11. A Job event wakes exactly the monitors it concerns: for a Job whose one controller reference
  is a CronJob of its namespace, the requests are the monitors that reference that CronJob, in
  listed order, and the Job is one their reconcile counts as owned. Any other object, and a failed
  list, wakes nobody.
\<close>

theorem mapJobToMonitors_exact:
  assumes "filter (\<lambda>ref. refController ref = Some True) (jobOwnerReferences job) = [ref]"
    and "refKind ref = ''CronJob''" and "refUID ref = cjUID cj" and "cjUID cj \<noteq> []"
    and "list_cronjobs (jobNamespace job) = Inr cjs" and "cj \<in> set cjs" and "cjName cj \<noteq> []"
    and "distinct (map cjUID cjs)" and "list_monitors (jobNamespace job) = Inr cjms"
  shows "mapJobToMonitors list_monitors list_cronjobs (JobObject job)
       = map (\<lambda>c. (Namespace c, Name c)) (filter (\<lambda>c. CronJobRef (Spec c) = cjName cj) cjms)
     \<and> {c \<in> set cjs. owned_by c job} = {cj}"
proof -
  have u: "owner_uid (jobOwnerReferences job) = cjUID cj"
    using owner_uid_filter [OF assms(1,2)] assms(3) by simp
  have n: "string_at (name_by_uid Map.empty cjs) (cjUID cj) = cjName cj"
    using name_by_uid_in [OF assms(8,6)] by (simp add: string_at_def)
  have "owned_by c job \<longleftrightarrow> cjUID c = cjUID cj" for c
  proof -
    have "owned_by c job \<longleftrightarrow> (\<exists>x \<in> set (filter (\<lambda>ref. refController ref = Some True)
        (jobOwnerReferences job)). refUID x = cjUID c)"
      by (auto simp: owned_by_def list_ex_iff)
    then show ?thesis using assms(1,3) by auto
  qed
  then have "{c \<in> set cjs. owned_by c job} = {cj}"
    using assms(6,8) by (auto simp: distinct_map inj_on_def)
  then show ?thesis using assms(4,5,7,9) by (simp add: mapJobToMonitors_def u n)
qed

definition owned_sample_job :: Job where
  "owned_sample_job = (sample_job ''j'' JobFailed 100 160)\<lparr>jobOwnerReferences :=
     [\<lparr>refController = None, refKind = ''Pod'', refUID = ''x''\<rparr>,
      \<lparr>refController = Some True, refKind = ''CronJob'', refUID = ''u1''\<rparr>]\<rparr>"

theorem mapJobToMonitors_exact_witness:
  "mapJobToMonitors (\<lambda>n. Inr [sample_monitor None []]) (\<lambda>n. Inr [sample_cronjob])
     (JobObject owned_sample_job) = [(''ns'', ''mon'')]"
  using mapJobToMonitors_exact [of owned_sample_job
      "\<lparr>refController = Some True, refKind = ''CronJob'', refUID = ''u1''\<rparr>" sample_cronjob
      "\<lambda>n. Inr [sample_cronjob]" "[sample_cronjob]" "\<lambda>n. Inr [sample_monitor None []]"
      "[sample_monitor None []]"]
  by (simp add: owned_sample_job_def sample_cronjob_def sample_monitor_def sample_spec_def)

end
