(* ===== verification/Reconcile_Alert.thy ===== *)
theory Reconcile_Alert
  imports Reconcile_Measure
begin

text \<open>
  The failure alert through the whole pass: from the Jobs the API server lists, through the history
  ring with its limit, to the conditions that are written.
\<close>

section \<open>Streaks\<close>

lemma failure_streak_outcomes:
  "failure_streak (RecentExecutions (Status c))
   = length (takeWhile (\<lambda>ph. ph = ExecutionPhaseFailed) (outcomes c))"
  by (simp add: failure_streak_def outcomes_def takeWhile_map comp_def)

text \<open>A ring whose newest records failed has a streak of at least as many.\<close>

lemma failure_streak_take:
  "n \<le> length rs \<Longrightarrow> list_all (\<lambda>r. Phase r = ExecutionPhaseFailed) (take n rs) \<Longrightarrow> n \<le> failure_streak rs"
proof (induction rs arbitrary: n)
  case (Cons r rs)
  then show ?case by (cases n) (auto simp: failure_streak_def finished_def)
qed simp

lemma Merge_of_sorted:
  assumes "set ys = ran (merged_map es is)" and "sorted_wrt newer ys"
  shows "Merge es is limit = take (nat limit) ys"
proof -
  have "set ys = set (merged_values es is)" using assms(1) by (simp only: ran_merged_map)
  from sort_newest_unique [OF this assms(2) distinct_merged_values]
  show ?thesis by (simp add: Merge_take)
qed

lemma evaluator_streak:
  "RecentExecutions (Status (evaluateScheduleHealthy M c n)) = RecentExecutions (Status c)"
  "Spec (evaluateScheduleHealthy M c n) = Spec c"
  by (simp_all add: evaluateScheduleHealthy_def Let_def)

lemma measured_alert:
  assumes "condition_store M" and "measured_state M cjm c missed n"
    and "0 < MaxConsecutiveFailures (Spec cjm)" and "HistoryLimit (Spec cjm) \<le> 100"
    and "nat (MaxConsecutiveFailures (Spec cjm)) \<le> failure_streak (RecentExecutions (Status c))"
  shows "axis_status M (evaluate_all M missed c) ConditionExecutionHealthy = Some ConditionFalse
     \<and> axis_status M (evaluate_all M missed c) ConditionReady = Some ConditionFalse"
proof -
  let ?s = "evaluateScheduleHealthy M c missed" and ?a = "evaluate_all M missed c"
  have sp: "Spec c = Spec cjm" and ring: "ring_invar (history_limit cjm) (RecentExecutions (Status c))"
    using assms(2) by (simp_all add: measured_state_def keeps_def)
  have len: "length (RecentExecutions (Status ?s)) < 2 ^ 31"
    using ring assms(4) by (auto simp: ring_invar_def history_limit_def evaluator_streak split: if_splits)
  have fin: "finished (RecentExecutions (Status c)) \<noteq> []"
    using assms(3,5) by (auto simp: failure_streak_def)
  have "map_option (\<lambda>(st, rs, _). (st, rs)) (axis M (evaluateExecutionHealthy M ?s) ConditionExecutionHealthy)
      = Some (ConditionFalse, ReasonConsecutiveFailures)"
    using condition_store.ExecutionHealthy_spec(2) [OF assms(1) len] assms(3,5) fin sp
    by (simp add: evaluator_streak nat_le_iff)
  then have x: "axis_status M ?a ConditionExecutionHealthy = Some ConditionFalse"
    by (auto simp: axis_status_axis condition_store.axis_evaluate_all [OF assms(1)])
  moreover have "axis_status M ?a ConditionReady = Some ConditionFalse"
    using condition_store.well_reported_measured [OF assms(1,2)] x
    by (simp add: well_reported_def ready_status_def)
  ultimately show ?thesis by simp
qed

section \<open>Properties\<close>

text \<open>
  C5. An admitted failure threshold is reachable. If the newest runs, as many as
  \<open>maxConsecutiveFailures\<close>, have failed (among the Jobs listed now and those remembered), and
  nothing stands in the way of the measurement, then the pass writes \<open>ExecutionHealthy\<close> False and
  \<open>Ready\<close> False. The admission rule that keeps the threshold within the history limit is what makes
  this so: the ring cannot cut the streak below the threshold.
\<close>

theorem Reconcile_raises_failure_alert:
  assumes "condition_store (Meta D)" and "lastMissed r = GoMap m"
    and "Get_CronJobMonitor W k = Inr cjm" and "measurable D W r cjm cj s n"
    and "spec_admitted (Spec cjm)" and "listOwnedJobs (List_Jobs W) cj = Inr jobs"
    and "set ys = ran (merged_map (RecentExecutions (Status cjm))
           (map jobToRecord (sortJobsNewestFirst jobs)))" and "sorted_wrt newer ys"
    and "MaxConsecutiveFailures (Spec cjm) \<le> int (length ys)"
    and "list_all (\<lambda>q. Phase q = ExecutionPhaseFailed) (take (nat (MaxConsecutiveFailures (Spec cjm))) ys)"
  shows "\<exists>p c. Reconcile D W r k = Some p \<and> status_writes (pTrace p) = [c]
     \<and> axis_status (Meta D) c ConditionExecutionHealthy = Some ConditionFalse
     \<and> axis_status (Meta D) c ConditionReady = Some ConditionFalse"
proof -
  let ?n = "nat (MaxConsecutiveFailures (Spec cjm))"
  obtain c missed evs where c: "measured_state (Meta D) cjm c missed n" and evs: "list_all is_event evs"
    and o: "outcomes c = outcomes (merge_observed cjm (sortJobsNewestFirst jobs))"
    and rm: "reconcile_monitor D W r k cjm
         = Some (measured_pass W k (seeded m k cjm) evs (evaluate_all (Meta D) missed c) missed
             (raised (m k) (MissedRuns (Status cjm))) (requeue_interval n (now r W AtRequeue)))"
    using reconcile_monitor_measured [OF assms(2,4)] assms(6) by (metis sum.inject(2))
  have lim: "?n \<le> nat (history_limit cjm)"
    using assms(5) by (auto simp: spec_admitted_def history_limit_def intro: nat_mono)
  then have "?n \<le> failure_streak (take (nat (history_limit cjm)) ys)"
    using assms(9,10) by (intro failure_streak_take) (simp_all add: min_absorb1)
  also have "\<dots> = failure_streak (RecentExecutions (Status c))"
    using Merge_of_sorted [OF assms(7,8)]
    by (simp only: failure_streak_outcomes o) (simp only: merge_observed_executions flip: failure_streak_outcomes)
  finally have "?n \<le> failure_streak (RecentExecutions (Status c))" .
  then have "axis_status (Meta D) (evaluate_all (Meta D) missed c) ConditionExecutionHealthy = Some ConditionFalse
      \<and> axis_status (Meta D) (evaluate_all (Meta D) missed c) ConditionReady = Some ConditionFalse"
    using measured_alert [OF assms(1) c] assms(5) by (simp add: spec_admitted_def)
  moreover obtain q where "Reconcile D W r k = Some q"
    "status_writes (pTrace q) = [evaluate_all (Meta D) missed c]"
    using Reconcile_of_monitor [OF assms(3) rm] status_writes_measured_pass [OF evs] by auto
  ultimately show ?thesis by blast
qed

lemma sample_admitted: "spec_admitted (sample_spec None)"
  by (simp add: sample_spec_def spec_admitted_def dns_label_def schedule_admitted_def timezone_admitted_def
      five_fields_def is_lower_alnum_def is_space_def starts_with_def)

theorem Reconcile_raises_failure_alert_witness:
  "\<exists>p c. Reconcile sample_deps (sample_answers
         (sample_monitor None [sample_record ''b'' 20 ExecutionPhaseFailed,
            sample_record ''a'' 10 ExecutionPhaseFailed]) (Inr sample_cronjob))
         (sample_reconciler Map.empty) (''ns'', ''mon'') = Some p
     \<and> status_writes (pTrace p) = [c]
     \<and> axis_status (k8s_meta zero_time) c ConditionExecutionHealthy = Some ConditionFalse
     \<and> axis_status (k8s_meta zero_time) c ConditionReady = Some ConditionFalse"
proof -
  let ?a = "sample_record ''a'' 10 ExecutionPhaseFailed" and ?b = "sample_record ''b'' 20 ExecutionPhaseFailed"
  let ?W = "sample_answers (sample_monitor None [?b, ?a]) (Inr sample_cronjob)"
  have jobs: "listOwnedJobs (List_Jobs ?W) sample_cronjob = Inr []"
    by (simp add: listOwnedJobs_def sample_answers_def)
  have "merged_map [?b, ?a] [] = [''b'' \<mapsto> ?b, ''a'' \<mapsto> ?a]"
    by (simp add: merged_map_def merge_one_def)
  then have "set [?b, ?a] = ran (merged_map [?b, ?a] [])"
    by (simp only:) (subst ran_map_upd, simp, subst ran_map_upd, simp_all add: insert_commute)
  then show ?thesis
    using Reconcile_raises_failure_alert [OF _ _ _ sample_measurable _ jobs, of Map.empty
        Map.empty "(''ns'', ''mon'')" "[?b, ?a]"] sample_admitted
    by (simp add: newer_def time_order) (simp add: sample_spec_def)
qed

end
