(* ===== verification/Reconcile_Account.thy ===== *)
theory Reconcile_Account
  imports Reconcile_Status
begin

text \<open>What a reconcile writes to the registered metric vectors.\<close>

section \<open>The effects of a pass before its deferred function\<close>

fun own_effect :: "key \<Rightarrow> effect \<Rightarrow> bool" where
  "own_effect k (Event ty rs ms) = True"
| "own_effect k (StatusUpdate c) = True"
| "own_effect k (MissedRunsTotal_Add k' n) = (k' = k \<and> 0 < n)"
| "own_effect k _ = False"

lemma own_effect_events: "list_all is_event es \<Longrightarrow> list_all (own_effect k) es"
  by (induction es) (auto elim: is_event.elims)

text \<open>Such effects leave the reconcile vectors and the series of other monitors alone.\<close>

lemma own_effects_frame:
  assumes "list_all (own_effect k) es"
  shows "ReconcileTotal (observe_all es g) = ReconcileTotal g"
    and "ReconcileDurationSeconds (observe_all es g) = ReconcileDurationSeconds g"
    and "k' \<noteq> k \<Longrightarrow> MissedRunsTotal (observe_all es g) k' = MissedRunsTotal g k'"
    and "list_all (\<lambda>(k', n). k' = k \<and> 0 < n) (emitted es)"
  using assms
proof (induction es arbitrary: g)
  case (Cons e es)
  {
    case 1
    then show ?case using Cons.IH(1) by (cases e) simp_all
  next
    case 2
    then show ?case using Cons.IH(2) by (cases e) simp_all
  next
    case 3
    then show ?case using Cons.IH(3) by (cases e) simp_all
  next
    case 4
    then show ?case using Cons.IH(4) by (cases e) simp_all
  }
qed simp_all

lemma settled_effects:
  "list_all (own_effect k) evs \<Longrightarrow> (\<And>s. list_all (own_effect k) (pTrace (ok s))) \<Longrightarrow>
   list_all (own_effect k) (pTrace (settled W c evs b ok))"
  by (simp add: settled_def split: sum.split)

lemma increase_pos:
  fixes prev missed :: int
  assumes "0 \<le> prev" "prev < missed" "missed \<le> 100001"
  shows "0 < to_int32 (missed - prev)"
proof -
  have "to_int32 (missed - prev) = missed - prev" using assms by (intro to_int32_id) simp_all
  then show ?thesis using assms by simp
qed

lemma shape_effects:
  assumes "shape D W r k m cjm q" and "0 \<le> MissedRuns (Status cjm)"
  shows "list_all (own_effect k) (pTrace q)"
proof -
  have "0 \<le> raised (m k) (MissedRuns (Status cjm))" using assms(2) by (cases "m k") auto
  then show ?thesis
    using assms(1)
    unfolding shape_def failed_shape_def early_shape_def measured_shape_def prelude_events_def
    by (elim disjE exE conjE)
      (auto simp: failed_pass_def early_pass_def measured_pass_def own_effect_events increase_pos
        measured_state_def intro!: settled_effects)
qed

section \<open>Properties\<close>

text \<open>
  C26. Every reconcile of an existing monitor accounts for itself exactly once: one more in
  \<open>cronguard_reconcile_total\<close> under the label of its result, one more duration sample, and nothing
  in the series of other monitors. What it adds to \<open>cronguard_missed_runs_total\<close> is positive, so the
  counter never goes down (the client library would panic).
\<close>

theorem Reconcile_accounts_once:
  assumes "condition_store (Meta D)" and "lastMissed r = GoMap m"
    and "Get_CronJobMonitor W k = Inr cjm" and "0 \<le> MissedRuns (Status cjm)"
  shows "\<exists>p. Reconcile D W r k = Some p
     \<and> list_all (\<lambda>(k', n). k' = k \<and> 0 < n) (emitted (pTrace p))
     \<and> ReconcileTotal (observe_all (pTrace p) g)
        = (ReconcileTotal g)((k, pLabel p) \<mapsto>
             (case ReconcileTotal g (k, pLabel p) of None \<Rightarrow> 0 | Some v \<Rightarrow> v) + 1)
     \<and> ReconcileDurationSeconds (observe_all (pTrace p) g)
        = (ReconcileDurationSeconds g)(k \<mapsto>
             (case ReconcileDurationSeconds g k of None \<Rightarrow> [] | Some ds \<Rightarrow> ds)
             @ [Seconds (Sub (now r W AtEnd) (now r W AtStart))])
     \<and> (\<forall>k'. k' \<noteq> k \<longrightarrow> MissedRunsTotal (observe_all (pTrace p) g) k' = MissedRunsTotal g k')"
proof -
  obtain q where q: "Reconcile D W r k = Some (q\<lparr>pTrace := pTrace q @ deferred r W k q\<rparr>)"
    "shape D W r k m cjm q"
    using Reconcile_existing [OF assms(1-3)] .
  note own = own_effects_frame [OF shape_effects [OF q(2) assms(4)]]
  show ?thesis
    by (intro exI [of _ "q\<lparr>pTrace := pTrace q @ deferred r W k q\<rparr>"] conjI q(1))
      (simp_all add: own deferred_def deferred_metrics_def)
qed

theorem Reconcile_accounts_once_witness:
  "\<exists>p. Reconcile sample_deps (sample_answers (sample_monitor None []) (Inl NotFound))
         (sample_reconciler Map.empty) (''ns'', ''mon'') = Some p
     \<and> ReconcileTotal (observe_all (pTrace p) empty_registry) = [((''ns'', ''mon''), pLabel p) \<mapsto> 1]"
  using Reconcile_accounts_once [of sample_deps "sample_reconciler Map.empty" Map.empty
      "sample_answers (sample_monitor None []) (Inl NotFound)" "(''ns'', ''mon'')" "sample_monitor None []"
      empty_registry]
  by (auto simp: empty_registry_def)

end
