(* ===== verification/Burn_Counter.thy ===== *)
theory Burn_Counter
  imports Reconcile_Measure
begin

text \<open>
  The burn counter over whole runs of the operator on one monitor: visits with any answers of the API
  server, reads from a cache that lags behind, conflicts, user edits, process restarts, and crashes
  between the status write and the increment. The specification is a counter driven by the events of
  such a run; the system (the stored monitor, the operator's memory, the series it exports) refines
  it step by step. For runs whose restarts find the last measurement persisted, the specification
  counts every increase of the measurements exactly once.
\<close>

section \<open>Specification\<close>

text \<open>
  A run is seen as its measurements that were stored and acknowledged, its reads of an outdated
  version, and the number a new process finds persisted.
\<close>

datatype burn_event = Measured int | StaleRead int | Restarted int

text \<open>
  \<open>exported\<close> is the series of the running process, which starts at zero with it; \<open>ever\<close> is what all
  processes have added, the sum that \<open>increase()\<close> reconstructs over counter resets.
\<close>

record burn_spec =
  baseline :: int
  exported :: int
  ever :: int

fun spec_event :: "burn_event \<Rightarrow> burn_spec \<Rightarrow> burn_spec" where
  "spec_event (Measured n) a =
     \<lparr>baseline = n, exported = exported a + max 0 (n - baseline a), ever = ever a + max 0 (n - baseline a)\<rparr>"
| "spec_event (StaleRead v) a = a\<lparr>baseline := max (baseline a) v\<rparr>"
| "spec_event (Restarted v) a = a\<lparr>baseline := v, exported := 0\<rparr>"

text \<open>The ideal: the sum of the increases of the measurements.\<close>

fun measurements :: "burn_event list \<Rightarrow> int list" where
  "measurements [] = []"
| "measurements (Measured n # es) = n # measurements es"
| "measurements (_ # es) = measurements es"

fun increases :: "int \<Rightarrow> int list \<Rightarrow> int" where
  "increases b [] = 0"
| "increases b (n # xs) = max 0 (n - b) + increases n xs"

text \<open>
  A run is seamless if every new process finds the last measurement persisted and no outdated version
  shows a longer streak than the last measurement.
\<close>

fun seamless :: "int \<Rightarrow> burn_event list \<Rightarrow> bool" where
  "seamless b [] = True"
| "seamless b (Measured n # es) = seamless n es"
| "seamless b (StaleRead v # es) = (v \<le> b \<and> seamless b es)"
| "seamless b (Restarted v # es) = (v = b \<and> seamless b es)"

lemma seamless_ideal:
  "seamless (baseline a) es \<Longrightarrow>
   ever (fold spec_event es a) = ever a + increases (baseline a) (measurements es)"
proof (induction es arbitrary: a)
  case (Cons e es)
  then show ?case by (cases e) (simp_all add: max_absorb1)
qed simp

section \<open>System\<close>

record system =
  stored :: CronJobMonitor
  older :: "CronJobMonitor list"
  memory :: go_map
  counter :: int
  burned :: int

definition fresh_system :: "CronJobMonitor \<Rightarrow> system" where
  "fresh_system c = \<lparr>stored = c, older = [], memory = GoMap Map.empty, counter = 0, burned = 0\<rparr>"

text \<open>What the API server holds after a pass: the last write it accepted.\<close>

definition stored_after :: "answers \<Rightarrow> pass \<Rightarrow> CronJobMonitor \<Rightarrow> CronJobMonitor" where
  "stored_after W p old =
     (case status_writes (pTrace p) of
        [c] \<Rightarrow> (case Status_Update W c of Inr c' \<Rightarrow> c' | Inl e \<Rightarrow> old)
      | _ \<Rightarrow> old)"

text \<open>What a pass measured and stored: the number of missed runs of a write that ended in success.\<close>

definition measured_by :: "pass \<Rightarrow> burn_event list" where
  "measured_by p =
     (if pLabel p = ResultSuccess
      then map (\<lambda>c. Measured (MissedRuns (Status c))) (status_writes (pTrace p)) else [])"

definition replace_stored :: "CronJobMonitor \<Rightarrow> system \<Rightarrow> system" where
  "replace_stored c s = s\<lparr>stored := c, older := stored s # older s\<rparr>"

definition after_pass :: "pass \<Rightarrow> system \<Rightarrow> system" where
  "after_pass p s = s\<lparr>memory := pBaseline p,
     counter := counter s + sum_list (map snd (emitted (pTrace p))),
     burned := burned s + sum_list (map snd (emitted (pTrace p)))\<rparr>"

definition new_process :: "system \<Rightarrow> system" where
  "new_process s = s\<lparr>memory := GoMap Map.empty, counter := 0\<rparr>"

text \<open>
  A visit reads the stored monitor; an accepted update stores what was sent, a rejected one stores
  nothing. A stale visit reads an earlier version, and the API server refuses every update of it
  (optimistic concurrency). An unread visit gets an error. Users may edit everything but the status.
  A process may be replaced at any time, by one with an empty memory and counters at zero; it may die
  in a visit after the status write and before \<open>commitMissed\<close>.
\<close>

inductive system_step :: "deps \<Rightarrow> key \<Rightarrow> system \<Rightarrow> burn_event list \<Rightarrow> system \<Rightarrow> bool" for D k where
  visit: "Get_CronJobMonitor W k = Inr (stored s) \<Longrightarrow> \<forall>c c'. Status_Update W c = Inr c' \<longrightarrow> c' = c \<Longrightarrow>
    lastMissed r = memory s \<Longrightarrow> Reconcile D W r k = Some p \<Longrightarrow>
    system_step D k s (measured_by p) (after_pass p (replace_stored (stored_after W p (stored s)) s))"
| stale: "Get_CronJobMonitor W k = Inr c \<Longrightarrow> c \<in> set (older s) \<Longrightarrow> \<forall>x. \<exists>e. Status_Update W x = Inl e \<Longrightarrow>
    lastMissed r = memory s \<Longrightarrow> Reconcile D W r k = Some p \<Longrightarrow>
    system_step D k s [StaleRead (MissedRuns (Status c))] (after_pass p s)"
| unread: "Get_CronJobMonitor W k = Inl e \<Longrightarrow> e \<noteq> NotFound \<Longrightarrow>
    lastMissed r = memory s \<Longrightarrow> Reconcile D W r k = Some p \<Longrightarrow>
    system_step D k s [] (after_pass p s)"
| edit: "Status c = Status (stored s) \<Longrightarrow> system_step D k s [] (replace_stored c s)"
| restart: "system_step D k s [Restarted (MissedRuns (Status (stored s)))] (new_process s)"
| crash: "Get_CronJobMonitor W k = Inr (stored s) \<Longrightarrow> \<forall>c c'. Status_Update W c = Inr c' \<longrightarrow> c' = c \<Longrightarrow>
    lastMissed r = memory s \<Longrightarrow> Reconcile D W r k = Some p \<Longrightarrow>
    system_step D k s [Restarted (MissedRuns (Status (stored_after W p (stored s))))]
      (new_process (replace_stored (stored_after W p (stored s)) s))"

inductive system_run :: "deps \<Rightarrow> key \<Rightarrow> system \<Rightarrow> burn_event list \<Rightarrow> system \<Rightarrow> bool" for D k where
  start: "system_run D k s [] s"
| extend: "system_run D k s es s' \<Longrightarrow> system_step D k s' fs s'' \<Longrightarrow> system_run D k s (es @ fs) s''"

lemma system_simps [simp]:
  "stored (replace_stored c s) = c" "memory (replace_stored c s) = memory s"
  "counter (replace_stored c s) = counter s" "burned (replace_stored c s) = burned s"
  "stored (after_pass p s) = stored s" "memory (after_pass p s) = pBaseline p"
  "counter (after_pass p s) = counter s + sum_list (map snd (emitted (pTrace p)))"
  "burned (after_pass p s) = burned s + sum_list (map snd (emitted (pTrace p)))"
  "stored (new_process s) = stored s" "memory (new_process s) = GoMap Map.empty"
  "counter (new_process s) = 0" "burned (new_process s) = burned s"
  "stored (fresh_system c) = c" "memory (fresh_system c) = GoMap Map.empty"
  "counter (fresh_system c) = 0" "burned (fresh_system c) = 0"
  by (simp_all add: replace_stored_def after_pass_def new_process_def fresh_system_def)

section \<open>Simulation\<close>

text \<open>The baseline the next visit will use: what is remembered, raised to what is stored.\<close>

definition burn_rel :: "key \<Rightarrow> system \<Rightarrow> burn_spec \<Rightarrow> bool" where
  "burn_rel k s a \<longleftrightarrow>
     counter s = exported a \<and> burned s = ever a \<and> 0 \<le> MissedRuns (Status (stored s))
     \<and> (\<exists>m. memory s = GoMap m \<and> baseline a = raised (m k) (MissedRuns (Status (stored s))))"

lemma raised_ge: "v \<le> raised b v"
  by (cases b) simp_all

lemma raised_raised: "raised (Some (raised b v)) w = max (raised b w) v"
  by (cases b) (simp_all add: max.commute max.left_commute)

text \<open>
  An accepted write is that of a measured pass, or of an early return, which stores the marker or
  freezes the number it read.
\<close>

lemma pass_writes:
  "list_all is_event evs \<Longrightarrow> status_writes (pTrace (early_pass W k m evs c)) = [c]"
  "list_all is_event evs \<Longrightarrow> status_writes (pTrace (measured_pass W k m evs c missed prev q)) = [c]"
  by (cases "Status_Update W c"; simp add: early_pass_def measured_pass_def settled_def)+

lemma pass_accepted:
  "Status_Update W c = Inr c' \<Longrightarrow> pLabel (early_pass W k m evs c) = ResultRequeue"
  "Status_Update W c = Inr c' \<Longrightarrow> pLabel (measured_pass W k m evs c missed prev q) = ResultSuccess"
  by (simp_all add: early_pass_def measured_pass_def settled_def)

lemma shape_accepted:
  assumes "shape D W r k m cjm q" and "status_writes (pTrace q) = [c]" and "Status_Update W c = Inr c'"
  shows "pLabel q = ResultSuccess
       \<or> (pLabel q = ResultRequeue \<and> MissedRuns (Status c) \<in> {0, MissedRuns (Status cjm)})"
  using assms(1) unfolding shape_def
proof (elim disjE)
  assume "failed_shape k m cjm q"
  with assms(2) show ?thesis by (auto simp: failed_shape_def failed_pass_def)
next
  assume "early_shape D W r k m cjm q"
  then obtain c0 reason message evs where c0: "early_state (Meta D) cjm c0 reason" "prelude_events cjm evs"
    "q = early_pass W k (seeded m k cjm)
       (evs @ early_events r (find_condition (Meta D) cjm ConditionReconciled) reason message)
       (early_written (Meta D) c0)"
    unfolding early_shape_def by blast
  then have "c = early_written (Meta D) c0" using assms(2) by (simp add: pass_writes)
  with c0(1,3) assms(3) show ?thesis by (auto simp: pass_accepted early_state_def)
next
  assume "measured_shape D W r k m cjm q"
  then obtain c0 missed n evs where "prelude_events cjm evs"
    and q: "q = measured_pass W k (seeded m k cjm)
       (evs @ emitTransitionEvents (Meta D) r (evaluate_all (Meta D) missed c0) (snapshot_priors (Meta D) cjm))
       (evaluate_all (Meta D) missed c0) missed (raised (m k) (MissedRuns (Status cjm)))
       (requeue_interval n (now r W AtRequeue))"
    unfolding measured_shape_def by blast
  then have "c = evaluate_all (Meta D) missed c0" using assms(2) by (simp add: pass_writes)
  with q assms(3) show ?thesis by (simp add: pass_accepted)
qed

lemma stored_after_nonneg:
  assumes "shape D W r k m old q" and "0 \<le> MissedRuns (Status old)"
    and "\<forall>c c'. Status_Update W c = Inr c' \<longrightarrow> c' = c"
  shows "0 \<le> MissedRuns (Status (stored_after W q old))"
proof (cases "\<exists>c. status_writes (pTrace q) = [c] \<and> Status_Update W c = Inr c")
  case True
  then obtain c where c: "status_writes (pTrace q) = [c]" "Status_Update W c = Inr c" by blast
  have "0 \<le> MissedRuns (Status c)"
    using shape_accepted [OF assms(1) c] shape_outcome [OF assms(1)] c assms(2)
    by (auto simp: succeeded_def requeued_def errored_def)
  with c show ?thesis by (simp add: stored_after_def)
next
  case False
  then have "stored_after W q old = old"
    using assms(3) by (auto simp: stored_after_def split: list.split sum.split)
  with assms(2) show ?thesis by simp
qed

lemma visit_refines:
  assumes "shape D W r k m (stored s) q" and "memory s = GoMap m" and "burn_rel k s a"
    and "\<forall>c c'. Status_Update W c = Inr c' \<longrightarrow> c' = c"
  shows "burn_rel k (after_pass q (replace_stored (stored_after W q (stored s)) s))
         (fold spec_event (measured_by q) a)"
proof -
  let ?v = "MissedRuns (Status (stored s))"
  let ?prev = "raised (m k) ?v" and ?c = "stored_after W q (stored s)"
  have prev: "baseline a = ?prev" and a: "counter s = exported a" "burned s = ever a" "0 \<le> ?v"
    using assms(2,3) by (auto simp: burn_rel_def)
  have nn: "0 \<le> MissedRuns (Status ?c)" using stored_after_nonneg [OF assms(1) a(3) assms(4)] .
  have p0: "?v \<le> ?prev" "0 \<le> ?prev" using raised_ge [of ?v "m k"] a(3) by simp_all
  consider (ok) "succeeded W k m ?prev q" | (early) "requeued W k m ?prev q" | (err) "errored k m ?prev q"
    using shape_outcome [OF assms(1)] by blast
  then show ?thesis
  proof cases
    case ok
    then have l: "pLabel q = ResultSuccess" by (simp add: succeeded_def)
    from ok obtain c c' where c: "status_writes (pTrace q) = [c]" "Status_Update W c = Inr c'"
      "0 \<le> MissedRuns (Status c)" "MissedRuns (Status c) \<le> 100001"
      "pBaseline q = GoMap (m(k \<mapsto> MissedRuns (Status c)))"
      "emitted (pTrace q) = (if ?prev < MissedRuns (Status c)
          then [(k, to_int32 (MissedRuns (Status c) - ?prev))] else [])"
      unfolding succeeded_def by blast
    have "sum_list (map snd (emitted (pTrace q))) = max 0 (MissedRuns (Status c) - ?prev)"
      using c(3,4,6) p0(2) by (simp add: to_int32_id)
    moreover have "?c = c" using c(1,2) assms(4) by (simp add: stored_after_def)
    ultimately show ?thesis
      using c(1,3,5) a by (simp add: burn_rel_def measured_by_def l prev)
  next
    case early
    then have e: "emitted (pTrace q) = []" and l: "pLabel q \<noteq> ResultSuccess"
      by (simp_all add: requeued_def)
    from early have "\<exists>m'. pBaseline q = GoMap m' \<and> raised (m' k) (MissedRuns (Status ?c)) = ?prev"
    proof (cases rule: requeuedE)
      case (conflict c)
      then show ?thesis using p0 by (simp add: stored_after_def max_absorb1)
    next
      case (stored c c')
      have "c' = c" using stored(2) assms(4) by blast
      moreover have "MissedRuns (Status c) \<le> ?prev"
        using shape_accepted [OF assms(1) stored(1,2)] l p0 by auto
      ultimately show ?thesis using stored by (simp add: stored_after_def max_absorb1)
    qed
    with e l a nn show ?thesis by (auto simp: burn_rel_def measured_by_def prev)
  next
    case err
    have "?c = stored s"
      using shape_accepted [OF assms(1)] err
      by (auto simp: stored_after_def errored_def split: list.split sum.split)
    with err a p0 show ?thesis
      by (simp add: errored_def burn_rel_def prev measured_by_def max_absorb1)
  qed
qed

text \<open>A pass none of whose updates is accepted raises the baseline to what it read and emits nothing.\<close>

lemma rejected_outcome:
  assumes "shape D W r k m c q" and "\<forall>x. \<exists>e. Status_Update W x = Inl e"
  shows "emitted (pTrace q) = [] \<and> pBaseline q = GoMap (m(k \<mapsto> raised (m k) (MissedRuns (Status c))))"
proof -
  have no: "Status_Update W x \<noteq> Inr y" for x y using assms(2) by (metis sum.distinct(1))
  consider (ok) "succeeded W k m (raised (m k) (MissedRuns (Status c))) q"
    | (early) "requeued W k m (raised (m k) (MissedRuns (Status c))) q"
    | (err) "errored k m (raised (m k) (MissedRuns (Status c))) q"
    using shape_outcome [OF assms(1)] by blast
  then show ?thesis
  proof cases
    case ok
    then show ?thesis using no by (auto simp: succeeded_def)
  next
    case early
    then have "emitted (pTrace q) = []" by (simp add: requeued_def)
    with early no show ?thesis by (cases rule: requeuedE) simp_all
  next
    case err
    then show ?thesis by (simp add: errored_def)
  qed
qed

lemma stale_refines:
  assumes "shape D W r k m c q" and "\<forall>x. \<exists>e. Status_Update W x = Inl e"
    and "memory s = GoMap m" and "burn_rel k s a"
  shows "burn_rel k (after_pass q s) (spec_event (StaleRead (MissedRuns (Status c))) a)"
  using assms(3,4) rejected_outcome [OF assms(1,2)]
  by (auto simp: burn_rel_def raised_raised simp del: raised.simps)

text \<open>The deferred instrumentation writes no status and adds nothing to the counter.\<close>

lemma deferred_irrelevant [simp]:
  "measured_by (q\<lparr>pTrace := pTrace q @ deferred r W k q\<rparr>) = measured_by q"
  "stored_after W (q\<lparr>pTrace := pTrace q @ deferred r W k q\<rparr>) old = stored_after W q old"
  "after_pass (q\<lparr>pTrace := pTrace q @ deferred r W k q\<rparr>) s = after_pass q s"
  by (simp_all add: measured_by_def stored_after_def after_pass_def)

lemma read_shape:
  assumes "condition_store (Meta D)" and "Get_CronJobMonitor W k = Inr c"
    and "lastMissed r = memory s" and "Reconcile D W r k = Some p" and "memory s = GoMap m"
  obtains q where "shape D W r k m c q" "p = q\<lparr>pTrace := pTrace q @ deferred r W k q\<rparr>"
  using Reconcile_existing [OF assms(1) _ assms(2), of r m] assms(3-5) by (metis option.inject)

lemma system_step_refines:
  assumes "condition_store (Meta D)" and "system_step D k s es s'" and "burn_rel k s a"
  shows "burn_rel k s' (fold spec_event es a)"
  using assms(2,3)
proof (induction rule: system_step.induct)
  case (visit W s r p)
  obtain m where m: "memory s = GoMap m" using visit.prems by (auto simp: burn_rel_def)
  obtain q where q: "shape D W r k m (stored s) q" "p = q\<lparr>pTrace := pTrace q @ deferred r W k q\<rparr>"
    by (rule read_shape [OF assms(1) visit(1,3,4) m])
  show ?case using visit_refines [OF q(1) m visit.prems visit(2)] by (simp add: q(2))
next
  case (stale W c s r p)
  obtain m where m: "memory s = GoMap m" using stale.prems by (auto simp: burn_rel_def)
  obtain q where q: "shape D W r k m c q" "p = q\<lparr>pTrace := pTrace q @ deferred r W k q\<rparr>"
    by (rule read_shape [OF assms(1) stale(1,4,5) m])
  show ?case using stale_refines [OF q(1) stale(3) m stale.prems] by (simp add: q(2))
next
  case (unread W e r s p)
  then show ?case
    by (auto simp: burn_rel_def Reconcile_def reconcile_body_def deferred_metrics_def)
next
  case (edit c s)
  then show ?case by (simp add: burn_rel_def)
next
  case (restart s)
  then show ?case by (auto simp: burn_rel_def)
next
  case (crash W s r p)
  obtain m where m: "memory s = GoMap m" using crash.prems by (auto simp: burn_rel_def)
  obtain q where q: "shape D W r k m (stored s) q" "p = q\<lparr>pTrace := pTrace q @ deferred r W k q\<rparr>"
    by (rule read_shape [OF assms(1) crash(1,3,4) m])
  have "0 \<le> MissedRuns (Status (stored_after W q (stored s)))"
    using stored_after_nonneg [OF q(1) _ crash(2)] crash.prems by (simp add: burn_rel_def)
  then show ?case using crash.prems by (simp add: burn_rel_def q(2))
qed

lemma system_refines:
  assumes "condition_store (Meta D)"
  shows "system_run D k s es s' \<Longrightarrow> burn_rel k s a \<Longrightarrow> burn_rel k s' (fold spec_event es a)"
  by (induction rule: system_run.induct) (simp_all add: system_step_refines [OF assms])

section \<open>Properties\<close>

text \<open>
  C3. The burn counter refines its specification. After any run of visits (with any answers of the API
  server, conflicts and errors included), reads of outdated versions, failed reads, user edits,
  restarts at any point and crashes between the status write and the increment, the exported series
  and the sum over all processes are those of the specification driven by the events of the run, and
  the baseline the next visit will use is the specification's. So a measurement adds its increase
  over the baseline and nothing else does; a new process starts at zero from the number it finds
  persisted. If every new process finds the last measurement persisted and no outdated read shows a
  longer streak, then all processes together have counted every increase of the stored measurements
  exactly once. (A process that dies while an early return has the marker 0 persisted over a streak is
  not seamless: its successor counts the streak again, the residual the code documents. A crash before
  the increment loses it: the measurement shows up as a restart.)
\<close>

theorem burn_counter_refines_spec:
  assumes "condition_store (Meta D)" and "0 \<le> MissedRuns (Status c0)"
    and "system_run D k (fresh_system c0) es s"
    and "a = fold spec_event es \<lparr>baseline = MissedRuns (Status c0), exported = 0, ever = 0\<rparr>"
  shows "counter s = exported a \<and> burned s = ever a
     \<and> baseline a = (case map_get (memory s) k of
          None \<Rightarrow> MissedRuns (Status (stored s)) | Some b \<Rightarrow> max b (MissedRuns (Status (stored s))))
     \<and> (seamless (MissedRuns (Status c0)) es \<longrightarrow>
          burned s = increases (MissedRuns (Status c0)) (measurements es))"
proof -
  let ?a0 = "\<lparr>baseline = MissedRuns (Status c0), exported = 0, ever = 0\<rparr>"
  have "burn_rel k (fresh_system c0) ?a0" using assms(2) by (simp add: burn_rel_def)
  from system_refines [OF assms(1,3) this] have r: "burn_rel k s a" unfolding assms(4) .
  then have "baseline a = (case map_get (memory s) k of
      None \<Rightarrow> MissedRuns (Status (stored s)) | Some b \<Rightarrow> max b (MissedRuns (Status (stored s))))"
    by (auto simp: burn_rel_def split: option.split)
  moreover have "seamless (MissedRuns (Status c0)) es \<Longrightarrow>
      ever a = increases (MissedRuns (Status c0)) (measurements es)"
    using seamless_ideal [of ?a0 es] by (simp add: assms(4))
  ultimately show ?thesis using r by (simp add: burn_rel_def)
qed

text \<open>The residual: the successor of a process that died on a marker counts the streak again.\<close>

lemma marker_restart_recounts:
  "0 \<le> n \<Longrightarrow> ever (fold spec_event [Measured n, Restarted 0, Measured n]
     \<lparr>baseline = 0, exported = 0, ever = 0\<rparr>) = 2 * n"
  by simp

text \<open>One visit of the sample monitor measures, stores what it measured, and counts it.\<close>

lemma sample_visit_measures:
  obtains p c where "Reconcile sample_deps (sample_answers (sample_monitor None []) (Inr sample_cronjob))
      (sample_reconciler Map.empty) (''ns'', ''mon'') = Some p"
    "status_writes (pTrace p) = [c]" "pLabel p = ResultSuccess"
proof -
  let ?W = "sample_answers (sample_monitor None []) (Inr sample_cronjob)"
  let ?r = "sample_reconciler Map.empty" and ?k = "(''ns'', ''mon'')"
  have "lastMissed ?r = GoMap Map.empty" by (simp add: sample_reconciler_def)
  from reconcile_monitor_measured [OF this sample_measurable, of "[]" ?k]
  obtain evs c missed m prev q where evs: "list_all is_event evs"
    and rm: "reconcile_monitor sample_deps ?W ?r ?k (sample_monitor None [])
      = Some (measured_pass ?W ?k m evs c missed prev q)"
    by metis
  have "pLabel (measured_pass ?W ?k m evs c missed prev q) = ResultSuccess"
    by (rule pass_accepted(2)) simp
  moreover have "Get_CronJobMonitor ?W ?k = Inr (sample_monitor None [])"
    by (simp add: sample_answers_def)
  ultimately show thesis
    using that [OF Reconcile_of_monitor [OF _ rm]] status_writes_measured_pass [OF evs] by simp
qed

theorem burn_counter_refines_spec_witness:
  "\<exists>n s. system_run sample_deps (''ns'', ''mon'') (fresh_system (sample_monitor None []))
        [Measured n, Restarted n] s
     \<and> counter s = 0 \<and> burned s = max 0 n"
proof -
  let ?k = "(''ns'', ''mon'')" and ?c = "sample_monitor None []"
  let ?W = "sample_answers ?c (Inr sample_cronjob)" and ?r = "sample_reconciler Map.empty"
  let ?s0 = "fresh_system ?c"
  obtain p c where p: "Reconcile sample_deps ?W ?r ?k = Some p" "status_writes (pTrace p) = [c]"
    "pLabel p = ResultSuccess"
    by (rule sample_visit_measures)
  let ?n = "MissedRuns (Status c)"
  define s1 where "s1 = after_pass p (replace_stored (stored_after ?W p ?c) ?s0)"
  have st: "stored s1 = c" using p(2) by (simp add: s1_def stored_after_def)
  have "system_step sample_deps ?k ?s0 (measured_by p) s1"
    unfolding s1_def using system_step.visit [of ?W ?k ?s0 ?r sample_deps p] p(1) by simp
  then have "system_run sample_deps ?k ?s0 ([] @ [Measured ?n]) s1"
    using p(2,3) by (intro system_run.extend [OF system_run.start]) (simp add: measured_by_def)
  from system_run.extend [OF this system_step.restart]
  have r: "system_run sample_deps ?k ?s0 [Measured ?n, Restarted ?n] (new_process s1)" by (simp add: st)
  from burn_counter_refines_spec [OF _ _ r refl] have
    "counter (new_process s1) = 0 \<and> burned (new_process s1) = max 0 ?n" by simp
  with r show ?thesis by blast
qed

end
