(* ===== verification/Collector.thy ===== *)
theory Collector
  imports Cond_Eval
begin

text \<open>
  \<open>internal/metrics/collector.go\<close> and \<open>internal/controller/lister.go\<close>: the gauges a scrape reads
  from the cached monitors. A metric is the descriptor, the value and the label values;
  \<open>MustNewConstMetric\<close> panics (\<open>None\<close>) when the number of label values is not that of the
  descriptor. The registry refuses a scrape in which two metrics agree on name and labels, so the
  main property is that this cannot happen.
\<close>

section \<open>Descriptors\<close>

datatype Desc = Desc (fqName: string) (variableLabels: "string list")

datatype Metric = Metric (desc: Desc) (val: rat) (label_values: "string list")

definition MustNewConstMetric :: "Desc \<Rightarrow> rat \<Rightarrow> string list \<Rightarrow> Metric option" where
  "MustNewConstMetric d v ls =
     (if length ls = length (variableLabels d) then Some (Metric d v ls) else None)"

record Collector =
  lastSuccess :: Desc
  lastFailure :: Desc
  lastSchedule :: Desc
  nextExpectedDesc :: Desc
  consecFails :: Desc
  missedRunsDesc :: Desc
  drift :: Desc
  lastDuration :: Desc
  runningJobs :: Desc
  condition :: Desc

definition baseLabels :: "string list" where
  "baseLabels = [''namespace'', ''name'', ''cronjob'']"

definition NewCollector :: Collector where
  "NewCollector = \<lparr>
     lastSuccess = Desc ''cronguard_last_success_timestamp_seconds'' baseLabels,
     lastFailure = Desc ''cronguard_last_failure_timestamp_seconds'' baseLabels,
     lastSchedule = Desc ''cronguard_last_schedule_timestamp_seconds'' baseLabels,
     nextExpectedDesc = Desc ''cronguard_next_expected_timestamp_seconds'' baseLabels,
     consecFails = Desc ''cronguard_consecutive_failures'' baseLabels,
     missedRunsDesc = Desc ''cronguard_missed_runs'' baseLabels,
     drift = Desc ''cronguard_schedule_drift_seconds'' baseLabels,
     lastDuration = Desc ''cronguard_last_duration_seconds'' baseLabels,
     runningJobs = Desc ''cronguard_running_jobs'' baseLabels,
     condition = Desc ''cronguard_condition'' (baseLabels @ [''type'', ''reason''])\<rparr>"

definition Describe :: "Collector \<Rightarrow> Desc list" where
  "Describe c = [lastSuccess c, lastFailure c, lastSchedule c, nextExpectedDesc c, consecFails c,
     missedRunsDesc c, drift c, lastDuration c, runningJobs c, condition c]"

section \<open>Values\<close>

definition tsValue :: "gotime option \<Rightarrow> rat" where
  "tsValue t = (case t of None \<Rightarrow> 0 | Some t \<Rightarrow> float64 (of_int (unix_sec t)))"

definition conditionValue :: "ConditionStatus \<Rightarrow> rat" where
  "conditionValue s =
     (case s of ConditionTrue \<Rightarrow> 1 | ConditionFalse \<Rightarrow> 0 | _ \<Rightarrow> -1)"

text \<open>The two loops over the history: the first duration, and the count of Running records.\<close>

fun duration_metric :: "Desc \<Rightarrow> string list \<Rightarrow> ExecutionRecord list \<Rightarrow> Metric option list" where
  "duration_metric d labels [] = []"
| "duration_metric d labels (rec # recs) =
     (case DurationSeconds rec of
        Some s \<Rightarrow> [MustNewConstMetric d (float64 (of_int s)) labels]
      | None \<Rightarrow> duration_metric d labels recs)"

fun running_loop :: "ExecutionRecord list \<Rightarrow> rat \<Rightarrow> rat" where
  "running_loop [] running = running"
| "running_loop (rec # recs) running =
     running_loop recs (if Phase rec = ExecutionPhaseRunning then float64 (running + 1) else running)"

section \<open>Collect\<close>

definition collect_one :: "Collector \<Rightarrow> CronJobMonitor \<Rightarrow> Metric option list" where
  "collect_one c cjm =
     (let labels = [Namespace cjm, Name cjm, CronJobRef (Spec cjm)]; st = Status cjm in
      [MustNewConstMetric (lastSuccess c) (tsValue (LastSuccessTime st)) labels,
       MustNewConstMetric (lastFailure c) (tsValue (LastFailureTime st)) labels,
       MustNewConstMetric (lastSchedule c) (tsValue (LastScheduleTime st)) labels]
      @ (if NextExpectedTime st \<noteq> None
         then [MustNewConstMetric (nextExpectedDesc c) (tsValue (NextExpectedTime st)) labels] else [])
      @ [MustNewConstMetric (consecFails c) (float64 (of_int (ConsecutiveFailures st))) labels,
         MustNewConstMetric (missedRunsDesc c) (float64 (of_int (MissedRuns st))) labels,
         MustNewConstMetric (drift c) (float64 (of_int (ScheduleDriftSeconds st))) labels]
      @ duration_metric (lastDuration c) labels (RecentExecutions st)
      @ [MustNewConstMetric (runningJobs c) (running_loop (RecentExecutions st) 0) labels]
      @ map (\<lambda>cond. MustNewConstMetric (condition c) (conditionValue (cStatus cond))
               (labels @ [cType cond, cReason cond])) (Conditions st))"

text \<open>The metrics sent to the channel, or a panic at the first one that cannot be built.\<close>

fun send_all :: "Metric option list \<Rightarrow> Metric list option" where
  "send_all [] = Some []"
| "send_all (None # ms) = None"
| "send_all (Some m # ms) = map_option ((#) m) (send_all ms)"

definition Collect :: "Collector \<Rightarrow> CronJobMonitor list \<Rightarrow> Metric list option" where
  "Collect c cjms = send_all (concat (map (collect_one c) cjms))"

section \<open>The lister\<close>

text \<open>
  \<open>CachedLister.List\<close>: what the client's list gives, nil when it fails. The five-second deadline
  is one of the ways the client's list can fail.
\<close>

definition CachedLister_List :: "api_error + CronJobMonitor list \<Rightarrow> CronJobMonitor list" where
  "CachedLister_List listed = (case listed of Inl err \<Rightarrow> [] | Inr items \<Rightarrow> items)"

section \<open>What is sent\<close>

text \<open>The metrics of one monitor, without the checks.\<close>

fun first_duration :: "ExecutionRecord list \<Rightarrow> int option" where
  "first_duration [] = None"
| "first_duration (rec # recs) = (case DurationSeconds rec of Some s \<Rightarrow> Some s | None \<Rightarrow> first_duration recs)"

definition base_values :: "CronJobMonitor \<Rightarrow> string list" where
  "base_values cjm = [Namespace cjm, Name cjm, CronJobRef (Spec cjm)]"

definition gauges :: "CronJobMonitor \<Rightarrow> (Desc \<times> rat) list" where
  "gauges cjm =
     (let st = Status cjm; c = NewCollector in
      [(lastSuccess c, tsValue (LastSuccessTime st)), (lastFailure c, tsValue (LastFailureTime st)),
       (lastSchedule c, tsValue (LastScheduleTime st))]
      @ (if NextExpectedTime st = None then [] else [(nextExpectedDesc c, tsValue (NextExpectedTime st))])
      @ [(consecFails c, float64 (of_int (ConsecutiveFailures st))),
         (missedRunsDesc c, float64 (of_int (MissedRuns st))),
         (drift c, float64 (of_int (ScheduleDriftSeconds st)))]
      @ (case first_duration (RecentExecutions st) of
           None \<Rightarrow> [] | Some s \<Rightarrow> [(lastDuration c, float64 (of_int s))])
      @ [(runningJobs c, running_loop (RecentExecutions st) 0)])"

definition condition_metrics :: "CronJobMonitor \<Rightarrow> Metric list" where
  "condition_metrics cjm =
     map (\<lambda>x. Metric (condition NewCollector) (conditionValue (cStatus x))
            (base_values cjm @ [cType x, cReason x])) (Conditions (Status cjm))"

definition monitor_metrics :: "CronJobMonitor \<Rightarrow> Metric list" where
  "monitor_metrics cjm =
     map (\<lambda>(d, v). Metric d v (base_values cjm)) (gauges cjm) @ condition_metrics cjm"

lemma NewCollector_labels:
  "d \<in> set (Describe NewCollector) \<Longrightarrow>
   length (variableLabels d) = (if d = condition NewCollector then 5 else 3)"
  by (auto simp: Describe_def NewCollector_def baseLabels_def)

lemma duration_metric_first:
  "duration_metric d ls recs
   = (case first_duration recs of None \<Rightarrow> [] | Some s \<Rightarrow> [MustNewConstMetric d (float64 (of_int s)) ls])"
  by (induction d ls recs rule: duration_metric.induct) (auto split: option.split)

lemma collect_one_metrics: "collect_one NewCollector cjm = map Some (monitor_metrics cjm)"
  by (auto simp: collect_one_def monitor_metrics_def gauges_def condition_metrics_def base_values_def
      MustNewConstMetric_def NewCollector_def baseLabels_def duration_metric_first Let_def
      split: option.split)

lemma send_all_Some: "send_all (map Some ms) = Some ms"
  by (induction ms) simp_all

lemma Collect_metrics: "Collect NewCollector cjms = Some (concat (map monitor_metrics cjms))"
proof -
  have "concat (map (collect_one NewCollector) cjms) = map Some (concat (map monitor_metrics cjms))"
    by (simp add: fun_eq_iff collect_one_metrics map_concat comp_def cong: map_cong)
  then show ?thesis by (simp only: Collect_def send_all_Some)
qed

section \<open>Series\<close>

definition series :: "Metric \<Rightarrow> string \<times> string list" where
  "series m = (fqName (desc m), label_values m)"

definition monitor_key :: "CronJobMonitor \<Rightarrow> key" where
  "monitor_key cjm = (Namespace cjm, Name cjm)"

lemma gauges_descs:
  "distinct (map fst (gauges cjm))" "fst ` set (gauges cjm) \<subseteq> set (Describe NewCollector)"
  "d \<in> fst ` set (gauges cjm) \<Longrightarrow> fqName d \<noteq> ''cronguard_condition''"
  "inj_on fqName (set (Describe NewCollector))"
  by (auto simp: gauges_def NewCollector_def Describe_def Let_def inj_on_def
      split: option.splits if_splits)

lemma distinct_series_gauges: "distinct (map series (map (\<lambda>(d, v). Metric d v ls) (gauges cjm)))"
proof -
  have "inj_on fqName (set (map fst (gauges cjm)))"
    using gauges_descs(2,4) by (auto intro: inj_on_subset)
  then have "distinct (map fqName (map fst (gauges cjm)))"
    using gauges_descs(1) by (simp only: distinct_map [of fqName] simp_thms)
  then have "distinct (map (\<lambda>n. (n, ls)) (map fqName (map fst (gauges cjm))))"
    by (subst distinct_map) (simp add: inj_on_def)
  then show ?thesis by (simp add: series_def comp_def case_prod_beta)
qed

lemma distinct_series_monitor:
  assumes "distinct (map cType (Conditions (Status cjm)))"
  shows "distinct (map series (monitor_metrics cjm))"
proof -
  have "distinct (map series (condition_metrics cjm))"
    using assms unfolding distinct_map
    by (auto simp: condition_metrics_def series_def distinct_map inj_on_def)
  moreover have "fqName (desc x) \<noteq> fqName (desc y)"
    if "x \<in> (\<lambda>(d, v). Metric d v (base_values cjm)) ` set (gauges cjm)"
      and "y \<in> set (condition_metrics cjm)" for x y
    using that gauges_descs(3) [of "desc x" cjm]
    by (force simp: condition_metrics_def NewCollector_def)
  ultimately show ?thesis
    using distinct_series_gauges [of "base_values cjm" cjm]
    by (force simp: monitor_metrics_def series_def)
qed

lemma series_identity:
  "m \<in> set (monitor_metrics cjm) \<Longrightarrow> take 2 (label_values m) = [Namespace cjm, Name cjm]"
  by (auto simp: monitor_metrics_def condition_metrics_def base_values_def)

lemma distinct_series:
  "distinct (map monitor_key cjms) \<Longrightarrow>
   list_all (\<lambda>c. distinct (map cType (Conditions (Status c)))) cjms \<Longrightarrow>
   distinct (map series (concat (map monitor_metrics cjms)))"
proof (induction cjms)
  case (Cons c cjms)
  have "series x \<noteq> series y" if x: "x \<in> set (monitor_metrics c)" and c': "c' \<in> set cjms"
    and y: "y \<in> set (monitor_metrics c')" for x y c'
  proof
    assume "series x = series y"
    then have "monitor_key c = monitor_key c'"
      using series_identity [OF x] series_identity [OF y] by (simp add: series_def monitor_key_def)
    then show False using Cons.prems(1) c' by force
  qed
  then have "series ` set (monitor_metrics c) \<inter> series ` (\<Union>c' \<in> set cjms. set (monitor_metrics c')) = {}"
    by blast
  with Cons distinct_series_monitor [of c] show ?case by simp
qed simp

section \<open>The contract of a lister\<close>

text \<open>
  The interface \<open>Lister\<close>: it returns monitors the client listed, each at most as often as the
  client did, and nothing when listing failed. The scrape relies on no more.
\<close>

locale monitor_lister =
  fixes List :: "api_error + CronJobMonitor list \<Rightarrow> CronJobMonitor list"
  assumes list_failed: "List (Inl e) = []"
    and list_sub: "set (List (Inr items)) \<subseteq> set items"
    and list_once: "distinct (map monitor_key items) \<Longrightarrow> distinct (map monitor_key (List (Inr items)))"
begin

lemma scrape_failed: "Collect NewCollector (List (Inl e)) = Some []"
  by (simp add: list_failed Collect_metrics)

lemma scrape_distinct:
  assumes "distinct (map monitor_key items)"
    and "list_all (\<lambda>c. distinct (map cType (Conditions (Status c)))) items"
  shows "\<exists>ms. Collect NewCollector (List (Inr items)) = Some ms \<and> distinct (map series ms)"
proof -
  have "list_all (\<lambda>c. distinct (map cType (Conditions (Status c)))) (List (Inr items))"
    using assms(2) list_sub [of items] by (auto simp: list_all_iff)
  with list_once [OF assms(1)] show ?thesis by (auto simp: Collect_metrics intro: distinct_series)
qed

end

interpretation cached: monitor_lister CachedLister_List
  by unfold_locales (auto simp: CachedLister_List_def)

section \<open>Properties\<close>

text \<open>
  C18. A scrape never panics and never offers the registry the same series twice: every metric has
  the labels its descriptor asks for, and if the cache holds each monitor once and no monitor has
  two conditions of one type, then no two metrics agree on name and labels. Every metric is of a
  described kind, and a failing cache gives an empty scrape.
\<close>

theorem scrape_is_well_formed:
  assumes "distinct (map monitor_key items)"
    and "list_all (\<lambda>c. distinct (map cType (Conditions (Status c)))) items"
  shows "\<exists>ms. Collect NewCollector (CachedLister_List (Inr items)) = Some ms
     \<and> distinct (map series ms)
     \<and> list_all (\<lambda>m. desc m \<in> set (Describe NewCollector)
          \<and> length (label_values m) = length (variableLabels (desc m))) ms
     \<and> Collect NewCollector (CachedLister_List (Inl e)) = Some []"
proof -
  obtain ms where ms: "Collect NewCollector (CachedLister_List (Inr items)) = Some ms" "distinct (map series ms)"
    using cached.scrape_distinct [OF assms] by blast
  have "desc m \<in> set (Describe NewCollector) \<and> length (label_values m) = length (variableLabels (desc m))"
    if "m \<in> set (monitor_metrics c)" for m c
  proof -
    from that consider d v where "(d, v) \<in> set (gauges c)" "m = Metric d v (base_values c)"
      | "m \<in> set (condition_metrics c)"
      by (auto simp: monitor_metrics_def)
    then show ?thesis
    proof cases
      case 1
      then have d: "d \<in> set (Describe NewCollector)" "d \<noteq> condition NewCollector"
        using gauges_descs(2) [of c] gauges_descs(3) [of d c] by (force simp: NewCollector_def)+
      with 1 NewCollector_labels [OF d(1)] show ?thesis by (simp add: base_values_def)
    next
      case 2
      then show ?thesis
        by (auto simp: condition_metrics_def base_values_def Describe_def NewCollector_def baseLabels_def)
    qed
  qed
  then have "list_all (\<lambda>m. desc m \<in> set (Describe NewCollector)
      \<and> length (label_values m) = length (variableLabels (desc m))) ms"
    using ms(1) by (auto simp: Collect_metrics list_all_iff)
  with ms cached.scrape_failed show ?thesis by blast
qed

theorem scrape_is_well_formed_witness:
  "\<exists>ms. Collect NewCollector (CachedLister_List (Inr [sample_monitor None []])) = Some ms
     \<and> distinct (map series ms)"
  using scrape_is_well_formed [of "[sample_monitor None []]"] by (simp add: sample_monitor_def) blast

lemma running_loop_count:
  "int n + int (length recs) < 2 ^ 53 \<Longrightarrow>
   running_loop recs (of_nat n)
     = of_nat (n + length (filter (\<lambda>r. Phase r = ExecutionPhaseRunning) recs))"
proof (induction recs arbitrary: n)
  case (Cons r recs)
  have "float64 (of_nat n + 1) = of_nat (Suc n)"
    using float64_of_int [of "int (Suc n)"] Cons.prems by (simp add: add.commute)
  with Cons.IH [of "Suc n"] Cons.IH [of n] Cons.prems show ?case by simp
qed simp

text \<open>The samples of one metric name in a scrape: label values and value.\<close>

definition samples :: "string \<Rightarrow> Metric list \<Rightarrow> (string list \<times> rat) list" where
  "samples name ms = map (\<lambda>m. (label_values m, val m)) (filter (\<lambda>m. fqName (desc m) = name) ms)"

lemma samples_monitor:
  assumes "name \<noteq> ''cronguard_condition''"
  shows "samples name (monitor_metrics cjm)
     = map (\<lambda>x. (base_values cjm, snd x)) (filter (\<lambda>x. fqName (fst x) = name) (gauges cjm))"
proof -
  have "filter (\<lambda>m. fqName (desc m) = name) (condition_metrics cjm) = []"
    using assms by (auto simp: filter_empty_conv condition_metrics_def NewCollector_def)
  then show ?thesis
    by (simp add: samples_def monitor_metrics_def filter_map comp_def case_prod_beta)
qed

lemma samples_conditions:
  "samples ''cronguard_condition'' (monitor_metrics cjm)
   = map (\<lambda>x. (base_values cjm @ [cType x, cReason x], conditionValue (cStatus x))) (Conditions (Status cjm))"
proof -
  have "filter (\<lambda>m. fqName (desc m) = ''cronguard_condition'')
      (map (\<lambda>(d, v). Metric d v (base_values cjm)) (gauges cjm)) = []"
    using gauges_descs(3) by (force simp: filter_empty_conv)
  then show ?thesis
    by (simp add: samples_def monitor_metrics_def condition_metrics_def filter_map comp_def
        NewCollector_def)
qed

definition gauge_values :: "string \<Rightarrow> Metric list \<Rightarrow> rat list" where
  "gauge_values name ms = map val (filter (\<lambda>m. fqName (desc m) = name) ms)"

lemma gauge_values_samples: "gauge_values name ms = map snd (samples name ms)"
  by (simp add: gauge_values_def samples_def comp_def)

lemma gauge_values_conditions:
  "gauge_values ''cronguard_condition'' (monitor_metrics cjm)
   = map (\<lambda>c. conditionValue (cStatus c)) (Conditions (Status cjm))"
  by (simp add: gauge_values_samples samples_conditions comp_def)

lemma gauge_values_concat: "gauge_values name (concat mss) = concat (map (gauge_values name) mss)"
  by (induction mss) (simp_all add: gauge_values_def)

text \<open>
  Numbers a \<open>float64\<close> holds exactly: every \<open>int32\<close> field, every time before the year 285 million, and
  the length of every history that fits into memory.
\<close>

definition exact :: "int \<Rightarrow> bool" where
  "exact n \<longleftrightarrow> \<bar>n\<bar> < 2 ^ 53"

definition exactly_held :: "CronJobMonitorStatus \<Rightarrow> bool" where
  "exactly_held st \<longleftrightarrow>
     exact (ConsecutiveFailures st) \<and> exact (MissedRuns st) \<and> exact (ScheduleDriftSeconds st)
     \<and> list_all (\<lambda>t. case t of None \<Rightarrow> True | Some x \<Rightarrow> exact (unix_sec x))
         [LastSuccessTime st, LastFailureTime st, LastScheduleTime st, NextExpectedTime st]
     \<and> exact (int (length (RecentExecutions st)))
     \<and> list_all (\<lambda>q. case DurationSeconds q of None \<Rightarrow> True | Some d \<Rightarrow> exact d) (RecentExecutions st)"

definition epoch_seconds :: "gotime option \<Rightarrow> rat" where
  "epoch_seconds t = (case t of None \<Rightarrow> 0 | Some x \<Rightarrow> of_int (unix_sec x))"

lemma float64_exact: "exact n \<Longrightarrow> float64 (of_int n) = of_int n"
  by (simp add: exact_def float64_of_int)

lemma tsValue_exact:
  "(case t of None \<Rightarrow> True | Some x \<Rightarrow> exact (unix_sec x)) \<Longrightarrow> tsValue t = epoch_seconds t"
  by (auto simp: tsValue_def epoch_seconds_def float64_exact split: option.splits)

lemma newest_duration:
  "list_all (\<lambda>q. case DurationSeconds q of None \<Rightarrow> True | Some d \<Rightarrow> exact d) rs \<Longrightarrow>
   (case first_duration rs of None \<Rightarrow> [] | Some n \<Rightarrow> [(d, float64 (of_int n))])
   = (case filter (\<lambda>q. DurationSeconds q \<noteq> None) rs of
        [] \<Rightarrow> [] | q # _ \<Rightarrow> [(d, of_int (the (DurationSeconds q)))])"
  by (induction rs) (auto simp: float64_exact split: option.split)

lemma gauges_exact:
  assumes "exactly_held (Status cjm)"
  shows "gauges cjm =
     (let st = Status cjm; c = NewCollector in
      [(lastSuccess c, epoch_seconds (LastSuccessTime st)),
       (lastFailure c, epoch_seconds (LastFailureTime st)),
       (lastSchedule c, epoch_seconds (LastScheduleTime st))]
      @ (case NextExpectedTime st of None \<Rightarrow> [] | Some t \<Rightarrow> [(nextExpectedDesc c, of_int (unix_sec t))])
      @ [(consecFails c, of_int (ConsecutiveFailures st)), (missedRunsDesc c, of_int (MissedRuns st)),
         (drift c, of_int (ScheduleDriftSeconds st))]
      @ (case filter (\<lambda>q. DurationSeconds q \<noteq> None) (RecentExecutions st) of
           [] \<Rightarrow> [] | q # _ \<Rightarrow> [(lastDuration c, of_int (the (DurationSeconds q)))])
      @ [(runningJobs c, of_nat (length (filter (\<lambda>q. Phase q = ExecutionPhaseRunning) (RecentExecutions st))))])"
proof -
  let ?rs = "RecentExecutions (Status cjm)"
  have e: "exact (ConsecutiveFailures (Status cjm))" "exact (MissedRuns (Status cjm))"
    "exact (ScheduleDriftSeconds (Status cjm))" "exact (int (length ?rs))"
    and d: "list_all (\<lambda>q. case DurationSeconds q of None \<Rightarrow> True | Some d \<Rightarrow> exact d) ?rs"
    and t: "tsValue (LastSuccessTime (Status cjm)) = epoch_seconds (LastSuccessTime (Status cjm))"
    "tsValue (LastFailureTime (Status cjm)) = epoch_seconds (LastFailureTime (Status cjm))"
    "tsValue (LastScheduleTime (Status cjm)) = epoch_seconds (LastScheduleTime (Status cjm))"
    "tsValue (NextExpectedTime (Status cjm)) = epoch_seconds (NextExpectedTime (Status cjm))"
    using assms by (simp_all add: exactly_held_def tsValue_exact)
  have r: "running_loop ?rs 0 = of_nat (length (filter (\<lambda>q. Phase q = ExecutionPhaseRunning) ?rs))"
    using running_loop_count [of 0 ?rs] e(4) by (simp add: exact_def)
  have l: "(case first_duration ?rs of
        None \<Rightarrow> [] | Some n \<Rightarrow> [(lastDuration NewCollector, float64 (of_int n))])
      = (case filter (\<lambda>q. DurationSeconds q \<noteq> None) ?rs of
           [] \<Rightarrow> [] | q # _ \<Rightarrow> [(lastDuration NewCollector, of_int (the (DurationSeconds q)))])"
    using d by (rule newest_duration)
  show ?thesis
    by (simp add: gauges_def Let_def t r l float64_exact e)
      (simp add: epoch_seconds_def split: option.split)
qed

text \<open>
  C17. The gauges say what the status says, all ten of them and under the monitor's own labels. For
  a monitor whose numbers \<open>float64\<close> holds exactly (every \<open>int32\<close> is one), a scrape has one sample each
  of the last success, failure and schedule time (in seconds of the epoch, 0 if there was none), of
  the consecutive failures, the missed runs, the drift and the number of Running records; a last
  duration exactly if a record has one (the newest that has); and a next-run sample exactly if a next
  run is known: an unknown next run is absent and not 1970. Each condition gives one sample, 1, 0 or
  -1, with its type and reason as further labels.
\<close>

theorem scrape_reports_status:
  assumes "exactly_held (Status cjm)" and "st = Status cjm"
    and "L = [Namespace cjm, Name cjm, CronJobRef (Spec cjm)]"
  shows "\<exists>ms. Collect NewCollector [cjm] = Some ms
     \<and> samples ''cronguard_last_success_timestamp_seconds'' ms = [(L, epoch_seconds (LastSuccessTime st))]
     \<and> samples ''cronguard_last_failure_timestamp_seconds'' ms = [(L, epoch_seconds (LastFailureTime st))]
     \<and> samples ''cronguard_last_schedule_timestamp_seconds'' ms = [(L, epoch_seconds (LastScheduleTime st))]
     \<and> samples ''cronguard_next_expected_timestamp_seconds'' ms
        = (case NextExpectedTime st of None \<Rightarrow> [] | Some t \<Rightarrow> [(L, of_int (unix_sec t))])
     \<and> samples ''cronguard_consecutive_failures'' ms = [(L, of_int (ConsecutiveFailures st))]
     \<and> samples ''cronguard_missed_runs'' ms = [(L, of_int (MissedRuns st))]
     \<and> samples ''cronguard_schedule_drift_seconds'' ms = [(L, of_int (ScheduleDriftSeconds st))]
     \<and> samples ''cronguard_last_duration_seconds'' ms
        = (case filter (\<lambda>q. DurationSeconds q \<noteq> None) (RecentExecutions st) of
             [] \<Rightarrow> [] | q # _ \<Rightarrow> [(L, of_int (the (DurationSeconds q)))])
     \<and> samples ''cronguard_running_jobs'' ms
        = [(L, of_nat (length (filter (\<lambda>q. Phase q = ExecutionPhaseRunning) (RecentExecutions st))))]
     \<and> samples ''cronguard_condition'' ms
        = map (\<lambda>c. (L @ [cType c, cReason c],
             case cStatus c of ConditionTrue \<Rightarrow> 1 | ConditionFalse \<Rightarrow> 0 | ConditionUnknown \<Rightarrow> -1))
            (Conditions st)"
proof -
  have L: "base_values cjm = L" by (simp add: base_values_def assms(3))
  have "samples ''cronguard_condition'' (monitor_metrics cjm)
      = map (\<lambda>c. (L @ [cType c, cReason c],
           case cStatus c of ConditionTrue \<Rightarrow> 1 | ConditionFalse \<Rightarrow> 0 | ConditionUnknown \<Rightarrow> -1)) (Conditions st)"
    by (simp add: samples_conditions L assms(2) conditionValue_def cong: map_cong ConditionStatus.case_cong)
  moreover have "Collect NewCollector [cjm] = Some (monitor_metrics cjm)" by (simp add: Collect_metrics)
  ultimately show ?thesis
    by (intro exI [of _ "monitor_metrics cjm"] conjI; (assumption)?)
      (simp_all add: samples_monitor gauges_exact [OF assms(1)] L Let_def assms(2)
        NewCollector_def split: option.split list.split)
qed

theorem scrape_reports_status_witness:
  "\<exists>ms. Collect NewCollector [sample_monitor None [sample_record ''a'' 10 ExecutionPhaseRunning]] = Some ms
     \<and> samples ''cronguard_running_jobs'' ms = [([''ns'', ''mon'', ''nightly''], 1)]
     \<and> samples ''cronguard_last_success_timestamp_seconds'' ms = [([''ns'', ''mon'', ''nightly''], 0)]
     \<and> samples ''cronguard_next_expected_timestamp_seconds'' ms = []"
proof -
  let ?c = "sample_monitor None [sample_record ''a'' 10 ExecutionPhaseRunning]"
  have "exactly_held (Status ?c)"
    by (simp add: exactly_held_def exact_def sample_monitor_def sample_record_def)
  from scrape_reports_status [OF this refl refl] show ?thesis
    by (auto simp: sample_monitor_def sample_spec_def epoch_seconds_def)
qed

end
