(* ===== verification/Leader_Label.thy ===== *)
theory Leader_Label
  imports Api_Types
begin

text \<open>
  \<open>internal/leader/labeler.go\<close> and the goroutine of \<open>cmd/main.go\<close> that drives it: the role label
  of the operator's own pod, which decides whether it is scraped. The pod's labels, the election
  and the stop signal are the environment; the goroutine is a step relation over them.
\<close>

section \<open>SetRole\<close>

definition RoleLabel :: string where "RoleLabel = ''cronguard.io/role''"
definition RoleLeader :: string where "RoleLeader = ''leader''"
definition RoleStandby :: string where "RoleStandby = ''standby''"

record Labeler =
  PodName :: string
  PodNamespace :: string

text \<open>The body of a patch, before it is printed; printing maps of strings cannot fail.\<close>

datatype json = JString string | JObject "(string \<times> json) list"

definition role_patch :: "string \<Rightarrow> json" where
  "role_patch role =
     JObject [(''metadata'', JObject [(''labels'', JObject [(RoleLabel, JString role)])])]"

datatype pod_request = PatchPod (pod_namespace: string) (pod_name: string) (patch_body: json)

datatype label_error = PatchPodErr string string api_error

text \<open>\<open>answer\<close> is what the API server says to a request; \<open>None\<close> is success.\<close>

definition SetRole ::
  "Labeler \<Rightarrow> (pod_request \<Rightarrow> api_error option) \<Rightarrow> string \<Rightarrow> pod_request list \<times> label_error option" where
  "SetRole l answer role =
     (if PodName l = [] \<or> PodNamespace l = [] then ([], None)
      else
        let req = PatchPod (PodNamespace l) (PodName l) (role_patch role)
        in ([req], map_option (PatchPodErr (PodNamespace l) (PodName l)) (answer req)))"

section \<open>The API server's side\<close>

type_synonym labels = "string \<rightharpoonup> string"

text \<open>A strategic merge patch of a map of strings sets the keys it names and keeps the others.\<close>

fun merge_labels :: "(string \<times> json) list \<Rightarrow> labels \<Rightarrow> labels" where
  "merge_labels [] ls = ls"
| "merge_labels ((k, JString v) # kvs) ls = merge_labels kvs (ls(k \<mapsto> v))"
| "merge_labels ((k, JObject x) # kvs) ls = merge_labels kvs ls"

fun member :: "string \<Rightarrow> json \<Rightarrow> json option" where
  "member k (JString s) = None"
| "member k (JObject kvs) = map_of kvs k"

definition patched_labels :: "json \<Rightarrow> labels \<Rightarrow> labels" where
  "patched_labels body ls =
     (case member ''metadata'' body of
        None \<Rightarrow> ls
      | Some md \<Rightarrow>
          (case member ''labels'' md of
             Some (JObject kvs) \<Rightarrow> merge_labels kvs ls
           | _ \<Rightarrow> ls))"

fun served :: "pod_request list \<Rightarrow> labels \<Rightarrow> labels" where
  "served [] ls = ls"
| "served (PatchPod nspace n body # reqs) ls = served reqs (patched_labels body ls)"

lemma patched_role [simp]: "patched_labels (role_patch role) ls = ls(RoleLabel \<mapsto> role)"
  by (simp add: patched_labels_def role_patch_def)

section \<open>The goroutine\<close>

datatype phase = Starting | Waiting | Finished

record label_state =
  at_phase :: phase
  pod_labels :: labels
  is_elected :: bool
  is_stopped :: bool

text \<open>
  The environment elects and stops at any time. A request that is answered with an error may or
  may not have been applied. With both channels ready the select may take either branch.
\<close>

inductive labeler_step :: "Labeler \<Rightarrow> label_state \<Rightarrow> label_state \<Rightarrow> bool" for l where
  elect: "labeler_step l st (st\<lparr>is_elected := True\<rparr>)"
| stop: "labeler_step l st (st\<lparr>is_stopped := True\<rparr>)"
| set_standby: "at_phase st = Starting \<Longrightarrow> SetRole l answer RoleStandby = (reqs, err) \<Longrightarrow>
    ls = served reqs (pod_labels st) \<or> (err \<noteq> None \<and> ls = pod_labels st) \<Longrightarrow>
    labeler_step l st (st\<lparr>at_phase := Waiting, pod_labels := ls\<rparr>)"
| set_leader: "at_phase st = Waiting \<Longrightarrow> is_elected st \<Longrightarrow> SetRole l answer RoleLeader = (reqs, err) \<Longrightarrow>
    ls = served reqs (pod_labels st) \<or> (err \<noteq> None \<and> ls = pod_labels st) \<Longrightarrow>
    labeler_step l st (st\<lparr>at_phase := Finished, pod_labels := ls\<rparr>)"
| give_up: "at_phase st = Waiting \<Longrightarrow> is_stopped st \<Longrightarrow>
    labeler_step l st (st\<lparr>at_phase := Finished\<rparr>)"

inductive labeler_reachable :: "Labeler \<Rightarrow> labels \<Rightarrow> label_state \<Rightarrow> bool" for l ls0 where
  start: "labeler_reachable l ls0 \<lparr>at_phase = Starting, pod_labels = ls0, is_elected = False,
            is_stopped = False\<rparr>"
| step: "labeler_reachable l ls0 st \<Longrightarrow> labeler_step l st st' \<Longrightarrow> labeler_reachable l ls0 st'"

lemma served_SetRole:
  "SetRole l answer role = (reqs, err) \<Longrightarrow>
   served reqs ls = (if PodName l = [] \<or> PodNamespace l = [] then ls else ls(RoleLabel \<mapsto> role))"
  by (auto simp: SetRole_def Let_def split: if_splits)

lemma roles_distinct [simp]: "RoleStandby \<noteq> RoleLeader" "RoleLeader \<noteq> RoleStandby"
  by (simp_all add: RoleStandby_def RoleLeader_def)

text \<open>What holds of every reachable state, given the labels the pod came with.\<close>

definition label_invar :: "Labeler \<Rightarrow> labels \<Rightarrow> label_state \<Rightarrow> bool" where
  "label_invar l ls0 st \<longleftrightarrow>
     (pod_labels st RoleLabel = Some RoleLeader \<longrightarrow> is_elected st \<or> ls0 RoleLabel = Some RoleLeader)
     \<and> pod_labels st RoleLabel \<in> {ls0 RoleLabel, Some RoleStandby, Some RoleLeader}
     \<and> (\<forall>k. k \<noteq> RoleLabel \<longrightarrow> pod_labels st k = ls0 k)
     \<and> (PodName l = [] \<or> PodNamespace l = [] \<longrightarrow> pod_labels st = ls0)"

lemma labeler_step_invar:
  "labeler_step l st st' \<Longrightarrow> label_invar l ls0 st \<Longrightarrow> label_invar l ls0 st'"
  by (induction rule: labeler_step.induct) (auto simp: label_invar_def served_SetRole split: if_splits)

lemma labeler_reachable_invar: "labeler_reachable l ls0 st \<Longrightarrow> label_invar l ls0 st"
proof (induction rule: labeler_reachable.induct)
  case start
  show ?case by (simp add: label_invar_def)
next
  case (step st st')
  then show ?case by (blast intro: labeler_step_invar)
qed

section \<open>Properties\<close>

text \<open>
  C33. Only the elected pod is labelled leader: in every interleaving of election, stop signal and
  failing requests, a pod that did not come with the leader label carries it only after it was
  elected. No other label is ever touched, and a process that does not know its pod touches none.
\<close>

theorem leader_label_only_when_elected:
  assumes "labeler_reachable l ls0 st" and "ls0 RoleLabel \<noteq> Some RoleLeader"
  shows "(pod_labels st RoleLabel = Some RoleLeader \<longrightarrow> is_elected st)
     \<and> (\<forall>k. k \<noteq> RoleLabel \<longrightarrow> pod_labels st k = ls0 k)
     \<and> (PodName l = [] \<or> PodNamespace l = [] \<longrightarrow> pod_labels st = ls0)"
  using labeler_reachable_invar [OF assms(1)] assms(2) by (simp add: label_invar_def)

lemma reachable_leader:
  assumes "PodName l \<noteq> []" and "PodNamespace l \<noteq> []"
  shows "labeler_reachable l ls0 \<lparr>at_phase = Finished,
     pod_labels = ls0(RoleLabel \<mapsto> RoleStandby, RoleLabel \<mapsto> RoleLeader), is_elected = True,
     is_stopped = False\<rparr>"
proof -
  let ?s0 = "\<lparr>at_phase = Starting, pod_labels = ls0, is_elected = False, is_stopped = False\<rparr>"
  let ?s1 = "?s0\<lparr>at_phase := Waiting, pod_labels := ls0(RoleLabel \<mapsto> RoleStandby)\<rparr>"
  let ?s2 = "?s1\<lparr>is_elected := True\<rparr>"
  let ?s3 = "?s2\<lparr>at_phase := Finished, pod_labels := ls0(RoleLabel \<mapsto> RoleStandby, RoleLabel \<mapsto> RoleLeader)\<rparr>"
  have r: "SetRole l (\<lambda>_. None) role = ([PatchPod (PodNamespace l) (PodName l) (role_patch role)], None)" for role
    using assms by (simp add: SetRole_def)
  have "labeler_step l ?s0 ?s1" by (rule labeler_step.set_standby [OF _ r]) simp_all
  moreover have "labeler_step l ?s1 ?s2" by (rule labeler_step.elect)
  moreover have "labeler_step l ?s2 ?s3" by (rule labeler_step.set_leader [OF _ _ r]) simp_all
  ultimately have "labeler_reachable l ls0 ?s3"
    by (blast intro: labeler_reachable.intros)
  then show ?thesis by simp
qed

theorem leader_label_only_when_elected_witness:
  "\<exists>st. labeler_reachable \<lparr>PodName = ''p'', PodNamespace = ''ns''\<rparr> [''app'' \<mapsto> ''cronguard''] st
     \<and> pod_labels st RoleLabel = Some RoleLeader \<and> is_elected st
     \<and> pod_labels st ''app'' = Some ''cronguard''"
proof -
  let ?l = "\<lparr>PodName = ''p'', PodNamespace = ''ns''\<rparr>" and ?ls = "[''app'' \<mapsto> ''cronguard'']"
  let ?st = "\<lparr>at_phase = Finished, pod_labels = ?ls(RoleLabel \<mapsto> RoleStandby, RoleLabel \<mapsto> RoleLeader),
              is_elected = True, is_stopped = False\<rparr>"
  have "labeler_reachable ?l ?ls ?st" by (rule reachable_leader) simp_all
  with leader_label_only_when_elected [OF this] show ?thesis
    by (intro exI [of _ ?st]) (simp add: RoleLabel_def)
qed

end
