(* ===== verification/Cmd_Main.thy ===== *)
theory Cmd_Main
  imports Reconcile_Local Collector Leader_Label
begin

text \<open>
  \<open>cmd/main.go\<close>, \<open>api/v1alpha1/groupversion_info.go\<close> and \<open>metrics.MustRegister\<close>: how the process
  is put together and with which status it ends. controller-runtime (the manager, its registry
  and its signal handling) and the flag parser are the environment: \<open>environment\<close> says which of
  their calls succeed, \<open>flags\<close> what the command line gave.
\<close>

section \<open>The scheme\<close>

type_synonym group_version = "string \<times> string"
type_synonym scheme = "(group_version \<times> string) list"

definition SchemeGroupVersion :: group_version where
  "SchemeGroupVersion = (''monitoring.cronguard.io'', ''v1alpha1'')"

text \<open>\<open>add_meta\<close> is \<open>metav1.AddToGroupVersion\<close>. The function always returns nil.\<close>

definition addKnownTypes :: "(scheme \<Rightarrow> group_version \<Rightarrow> scheme) \<Rightarrow> scheme \<Rightarrow> scheme" where
  "addKnownTypes add_meta s =
     add_meta (s @ [(SchemeGroupVersion, ''CronJobMonitor''),
                    (SchemeGroupVersion, ''CronJobMonitorList'')]) SchemeGroupVersion"

text \<open>\<open>init\<close>: \<open>Must\<close> panics (\<open>None\<close>) if one of the two library schemes cannot be added.\<close>

definition init_scheme ::
  "(scheme \<Rightarrow> scheme option) \<Rightarrow> (scheme \<Rightarrow> scheme option) \<Rightarrow>
   (scheme \<Rightarrow> group_version \<Rightarrow> scheme) \<Rightarrow> scheme option" where
  "init_scheme client_go batch add_meta =
     (case client_go [] of
        None \<Rightarrow> None
      | Some s \<Rightarrow>
          (case batch s of
             None \<Rightarrow> None
           | Some s \<Rightarrow> Some (addKnownTypes add_meta s)))"

section \<open>Options\<close>

record flags =
  metricsAddr :: string
  probeAddr :: string
  enableLeaderElection :: bool
  namespace_flag :: string
  workers :: int
  metricsSecure :: bool

definition default_flags :: flags where
  "default_flags = \<lparr>metricsAddr = '':8080'', probeAddr = '':8081'', enableLeaderElection = True,
     namespace_flag = [], workers = 1, metricsSecure = False\<rparr>"

record metrics_options =
  BindAddress :: string
  SecureServing :: bool

definition metricsOptions :: "string \<Rightarrow> bool \<Rightarrow> metrics_options" where
  "metricsOptions addr secure = \<lparr>BindAddress = addr, SecureServing = secure\<rparr>"

record manager_options =
  Scheme :: scheme
  Metrics :: metrics_options
  HealthProbeBindAddress :: string
  LeaderElection :: bool
  LeaderElectionID :: string
  DefaultNamespaces :: "string list"

definition manager_options_of :: "scheme \<Rightarrow> flags \<Rightarrow> manager_options" where
  "manager_options_of s f =
     \<lparr>Scheme = s, Metrics = metricsOptions (metricsAddr f) (metricsSecure f),
      HealthProbeBindAddress = probeAddr f, LeaderElection = enableLeaderElection f,
      LeaderElectionID = ''cronguard.monitoring.cronguard.io'',
      DefaultNamespaces = (if namespace_flag f \<noteq> [] then [namespace_flag f] else [])\<rparr>"

section \<open>Registration\<close>

text \<open>
  Registering a collector adds the names of its descriptors to the registry and panics (\<open>None\<close>)
  if one of them is there already.
\<close>

definition register :: "string list \<Rightarrow> string list \<Rightarrow> string list option" where
  "register names reg =
     (if distinct names \<and> set names \<inter> set reg = {} then Some (reg @ names) else None)"

definition MustRegister :: "string list \<Rightarrow> string list option" where
  "MustRegister reg =
     (case register [''cronguard_reconcile_total''] reg of
        None \<Rightarrow> None
      | Some reg \<Rightarrow>
          (case register [''cronguard_reconcile_duration_seconds''] reg of
             None \<Rightarrow> None
           | Some reg \<Rightarrow> register [''cronguard_missed_runs_total''] reg))"

definition register_metrics :: "string list \<Rightarrow> string list option" where
  "register_metrics reg =
     (case register (map fqName (Describe NewCollector)) reg of
        None \<Rightarrow> None
      | Some reg \<Rightarrow>
          (case MustRegister reg of
             None \<Rightarrow> None
           | Some reg \<Rightarrow> register [''cronguard_build_info''] reg))"

section \<open>main\<close>

record environment =
  clientgoscheme_AddToScheme :: "scheme \<Rightarrow> scheme option"
  batchv1_AddToScheme :: "scheme \<Rightarrow> scheme option"
  metav1_AddToGroupVersion :: "scheme \<Rightarrow> group_version \<Rightarrow> scheme"
  config_loads :: bool
  manager_created :: "manager_options \<Rightarrow> bool"
  controller_completes :: bool
  healthz_added :: bool
  readyz_added :: bool
  manager_runs :: bool
  registered :: "string list"
  POD_NAME :: string
  POD_NAMESPACE :: string

text \<open>
  A process that never gets to run the manager ends with an exit status or a panic; one that does
  ends with the status of the manager, after it ran with these parts.
\<close>

datatype main_outcome =
    InitPanic
  | ExitedEarly nat
  | RegistrationPanic
  | Ran nat manager_options CronJobMonitorReconciler Labeler "string list"

definition main :: "scheme \<Rightarrow> flags \<Rightarrow> environment \<Rightarrow> main_outcome" where
  "main s f E =
     (if workers f < 1 then ExitedEarly 2
      else let opts = manager_options_of s f in
      if \<not> config_loads E then ExitedEarly 1
      else if \<not> manager_created E opts then ExitedEarly 1
      else case register_metrics (registered E) of
        None \<Rightarrow> RegistrationPanic
      | Some reg \<Rightarrow>
          let r = SetupWithManager \<lparr>Recorder = True, Clock = None, lastMissed = NilMap,
                                    MaxConcurrentReconciles = workers f\<rparr>;
              labeler = \<lparr>PodName = POD_NAME E, PodNamespace = POD_NAMESPACE E\<rparr>
          in if \<not> controller_completes E then ExitedEarly 1
             else if \<not> healthz_added E then ExitedEarly 1
             else if \<not> readyz_added E then ExitedEarly 1
             else Ran (if manager_runs E then 0 else 1) opts r labeler reg)"

text \<open>The Go runtime runs \<open>init\<close> before \<open>main\<close>.\<close>

definition run_process :: "flags \<Rightarrow> environment \<Rightarrow> main_outcome" where
  "run_process f E =
     (case init_scheme (clientgoscheme_AddToScheme E) (batchv1_AddToScheme E) (metav1_AddToGroupVersion E) of
        None \<Rightarrow> InitPanic
      | Some s \<Rightarrow> main s f E)"

section \<open>Properties\<close>

definition own_metrics :: "string list" where
  "own_metrics = map fqName (Describe NewCollector)
     @ [''cronguard_reconcile_total'', ''cronguard_reconcile_duration_seconds'',
        ''cronguard_missed_runs_total'', ''cronguard_build_info'']"

lemma own_metrics_distinct: "distinct own_metrics"
  by (simp add: own_metrics_def Describe_def NewCollector_def)

lemma register_metrics_ok:
  assumes "set own_metrics \<inter> set reg = {}"
  shows "register_metrics reg = Some (reg @ own_metrics)"
  using assms own_metrics_distinct
  by (auto simp: register_metrics_def MustRegister_def register_def own_metrics_def)

text \<open>What \<open>metav1.AddToGroupVersion\<close> promises: it adds kinds and drops none.\<close>

definition only_adds :: "(scheme \<Rightarrow> group_version \<Rightarrow> scheme) \<Rightarrow> bool" where
  "only_adds add_meta \<longleftrightarrow> (\<forall>s gv. set s \<subseteq> set (add_meta s gv))"

lemma init_scheme_knows:
  assumes "only_adds add_meta" and "init_scheme client_go batch add_meta = Some s"
  shows "{(SchemeGroupVersion, ''CronJobMonitor''), (SchemeGroupVersion, ''CronJobMonitorList'')} \<subseteq> set s"
proof -
  obtain s0 where "s = addKnownTypes add_meta s0"
    using assms(2) by (auto simp: init_scheme_def split: option.splits)
  moreover have "set (s0 @ [(SchemeGroupVersion, ''CronJobMonitor''),
      (SchemeGroupVersion, ''CronJobMonitorList'')]) \<subseteq> set (addKnownTypes add_meta s0)"
    using assms(1) unfolding addKnownTypes_def only_adds_def by blast
  ultimately show ?thesis by simp
qed

text \<open>
  C34. The process starts ready or not at all. It panics before \<open>main\<close> exactly if one of the library
  schemes cannot be added; it exits with status 2 exactly if fewer than one worker is asked for, and
  with status 1 exactly if one of the five set-up steps fails (configuration, manager, controller, the
  two probes); unless another component registered one of its metric names, registration cannot panic.
  So a process that runs its manager has passed every step, knows both kinds of the API group, has all
  fourteen metrics registered under different names, an event recorder, the flagged number of workers,
  and a baseline map, so that every reconcile it is handed returns; it labels the pod named in its
  environment; and its own status is that of the manager.
\<close>

theorem main_starts_ready:
  assumes "set own_metrics \<inter> set (registered E) = {}" and "only_adds (metav1_AddToGroupVersion E)"
    and "lib_ok \<longleftrightarrow> (\<exists>s. clientgoscheme_AddToScheme E [] = Some s \<and> batchv1_AddToScheme E s \<noteq> None)"
  shows "case run_process f E of
       InitPanic \<Rightarrow> \<not> lib_ok
     | ExitedEarly c \<Rightarrow> lib_ok
         \<and> (if workers f < 1 then c = 2
            else c = 1 \<and> (\<exists>s. init_scheme (clientgoscheme_AddToScheme E) (batchv1_AddToScheme E)
                                (metav1_AddToGroupVersion E) = Some s
                         \<and> \<not> (config_loads E \<and> manager_created E (manager_options_of s f)
                                 \<and> controller_completes E \<and> healthz_added E \<and> readyz_added E)))
     | RegistrationPanic \<Rightarrow> False
     | Ran c opts r l reg \<Rightarrow>
         lib_ok \<and> 1 \<le> workers f
         \<and> config_loads E \<and> manager_created E opts \<and> controller_completes E
         \<and> healthz_added E \<and> readyz_added E
         \<and> c = (if manager_runs E then 0 else 1)
         \<and> {(SchemeGroupVersion, ''CronJobMonitor''), (SchemeGroupVersion, ''CronJobMonitorList'')}
             \<subseteq> set (Scheme opts)
         \<and> reg = registered E @ own_metrics \<and> length own_metrics = 14 \<and> distinct own_metrics
         \<and> DefaultNamespaces opts = (if namespace_flag f = [] then [] else [namespace_flag f])
         \<and> SecureServing (Metrics opts) = metricsSecure f \<and> LeaderElection opts = enableLeaderElection f
         \<and> PodName l = POD_NAME E \<and> PodNamespace l = POD_NAMESPACE E
         \<and> Recorder r \<and> controllerOptions r = workers f \<and> lastMissed r = GoMap Map.empty
         \<and> (\<forall>D W k. \<exists>p. Reconcile D W r k = Some p)"
proof (cases "init_scheme (clientgoscheme_AddToScheme E) (batchv1_AddToScheme E) (metav1_AddToGroupVersion E)")
  case None
  then show ?thesis
    using assms(3) by (auto simp: run_process_def init_scheme_def split: option.splits)
next
  case (Some s)
  then have "lib_ok" using assms(3) by (auto simp: init_scheme_def split: option.splits)
  moreover have "\<exists>p. Reconcile D W \<lparr>Recorder = True, Clock = None, lastMissed = GoMap Map.empty,
      MaxConcurrentReconciles = workers f\<rparr> k = Some p" for D W k
    by (rule Reconcile_total) simp
  moreover have "length own_metrics = 14" by (simp add: own_metrics_def Describe_def)
  ultimately show ?thesis
    using register_metrics_ok [OF assms(1)] init_scheme_knows [OF assms(2) Some] Some own_metrics_distinct
    by (auto simp: run_process_def main_def SetupWithManager_def manager_options_of_def metricsOptions_def
        controllerOptions_def Let_def)
qed

definition sample_environment :: environment where
  "sample_environment = \<lparr>clientgoscheme_AddToScheme = Some, batchv1_AddToScheme = Some,
     metav1_AddToGroupVersion = (\<lambda>s gv. s @ [(gv, ''WatchEvent'')]),
     config_loads = True, manager_created = (\<lambda>_. True), controller_completes = True,
     healthz_added = True, readyz_added = True, manager_runs = True, registered = [''go_goroutines''],
     POD_NAME = ''p'', POD_NAMESPACE = ''ns''\<rparr>"

theorem main_starts_ready_witness:
  "case run_process default_flags sample_environment of
     Ran c opts r l reg \<Rightarrow> c = 0 \<and> controllerOptions r = 1 \<and> DefaultNamespaces opts = []
       \<and> (SchemeGroupVersion, ''CronJobMonitor'') \<in> set (Scheme opts)
   | _ \<Rightarrow> False"
proof -
  have d: "set own_metrics \<inter> set (registered sample_environment) = {}"
    by (simp add: own_metrics_def Describe_def NewCollector_def sample_environment_def)
  have a: "only_adds (metav1_AddToGroupVersion sample_environment)"
    by (auto simp: only_adds_def sample_environment_def)
  have "\<exists>c opts r l reg. run_process default_flags sample_environment = Ran c opts r l reg"
    using register_metrics_ok [OF d]
    by (simp add: run_process_def init_scheme_def main_def default_flags_def Let_def
        sample_environment_def)
  then obtain c opts r l reg where
    run: "run_process default_flags sample_environment = Ran c opts r l reg" by blast
  with main_starts_ready [OF d a refl, of default_flags] show ?thesis
    by (simp add: run default_flags_def) (simp add: sample_environment_def)
qed

end
