(* ===== verification/Spec2Isabelle.thy ===== *)
theory Spec2Isabelle
  imports Job_Routing Reconcile_Alert Reconcile_Account Burn_Counter Cmd_Main
begin

text \<open>
  Verification development for cronguard, a Kubernetes operator that watches CronJobs: for every
  \<open>CronJobMonitor\<close> it finds the CronJob and its Jobs, measures missed runs, drift, failures and
  durations, and reports them as status conditions, events and Prometheus metrics.

  \<^bold>\<open>Parts and theories.\<close> Every definition carries the name of the Go function, type or constant it
  translates; a Go function with a loop has one definition for the loop and one for the function.

  \<^item> \<open>CG_Prelude\<close>: Go's \<open>int32\<close> and \<open>int64\<close> with the wrap-around written out, error values, formatted
    messages as lists of their parts, generic lemmas on sorted lists.
  \<^item> \<open>Go_Time\<close>: the part of Go's \<open>time\<close> the program uses: instants in nanoseconds with a location,
    the civil calendar, \<open>Date\<close>, \<open>Sub\<close> with saturation, \<open>Truncate\<close>, \<open>float64\<close> seconds.
  \<^item> \<open>Cron_Schedule\<close> and \<open>Schedule_Props\<close>: \<open>internal/schedule/schedule.go\<close>, all of it: parsing,
    \<open>Next\<close>, \<open>NextSlot\<close>, \<open>Prev\<close>, \<open>MissedRunsSince\<close>, \<open>Drift\<close>. The cron library is known by the function
    \<open>Next\<close> of a parsed schedule; the locale \<open>cron_slots\<close> states what it documents (the first slot
    after an instant, or the zero time, which only says that there is none within five calendar
    years of a zone that does not cross the date line), and the
    schedule of the leap days is an instance.
  \<^item> \<open>Api_Types\<close>: \<open>api/v1alpha1/cronjobmonitor_types.go\<close>: spec, status, records, constants, and the
    admission rules the markers state; the fields of Jobs and CronJobs that are read.
  \<^item> \<open>History_Ring\<close>: \<open>internal/history/ring.go\<close>. The locale \<open>execution_history\<close> is the contract of
    \<open>Merge\<close>.
  \<^item> \<open>Job_Helpers\<close>: \<open>internal/controller/reconcile_helpers.go\<close>.
  \<^item> \<open>Cond_Eval\<close>: \<open>internal/controller/conditions.go\<close>. apimachinery's condition helpers are a
    parameter; the locale \<open>condition_store\<close> is their contract, and a transcription of their
    documented behaviour (\<open>k8s_meta\<close>) is an instance.
  \<^item> \<open>Metric_Vecs\<close>: \<open>internal/metrics/reconcile.go\<close>, and the trace of effects of a reconcile (events,
    status updates, counter increments, deletions of series).
  \<^item> \<open>Reconcile_Parts\<close>, \<open>Reconcile\<close>: \<open>internal/controller/cronjobmonitor_controller.go\<close>. The function
    \<open>Reconcile\<close> is cut at its early returns into one definition per path, composed as in the code.
    The reconciler's state is the in-memory baseline \<open>lastMissed\<close> (a Go map, nil until
    \<open>SetupWithManager\<close>); the answers of the API server and the five clock readings of a pass are
    arguments; the result is a \<open>pass\<close>: new baseline, trace, result label, requeue delay, error.
    \<open>None\<close> stands for a panic or an endless loop.
  \<^item> \<open>Reconcile_Props\<close>, \<open>Reconcile_Local\<close>: the three shapes of a pass (failed before writing, early
    return, measured), and locality of the baseline; \<open>SetupWithManager\<close> and \<open>controllerOptions\<close>.
  \<^item> \<open>Reconcile_Safety\<close>, \<open>Reconcile_Status\<close>, \<open>Reconcile_Measure\<close>, \<open>Reconcile_Alert\<close>,
    \<open>Reconcile_Account\<close>: the properties of a pass.
  \<^item> \<open>Burn_Counter\<close>: the burn counter over whole runs of the operator (visits, outdated reads, edits,
    restarts, crashes) against an abstract counter driven by the events of the run.
  \<^item> \<open>Job_Routing\<close>: \<open>mapJobToMonitors\<close>, which monitors a Job event wakes.
  \<^item> \<open>Collector\<close>: \<open>internal/metrics/collector.go\<close> and \<open>internal/controller/lister.go\<close>; the locale
    \<open>monitor_lister\<close> is what a scrape needs of its lister, and the cached lister is the instance.
  \<^item> \<open>Leader_Label\<close>: \<open>internal/leader/labeler.go\<close> and the goroutine that drives it, as a step relation
    with the election and the stop signal as environment.
  \<^item> \<open>Cmd_Main\<close>: \<open>cmd/main.go\<close>, \<open>api/v1alpha1/groupversion_info.go\<close>, \<open>metrics.MustRegister\<close>.
  \<^item> this theory: what the operator writes can be scraped, and where code and comments differ.

  \<^bold>\<open>What is shown.\<close>

  \<^item> Schedule: \<open>MissedRunsSince\<close> counts exactly the slots whose grace has elapsed, \<open>Prev\<close> is the most
    recent slot and \<open>NextSlot\<close> the first one, they invert each other, always return, and fit their
    types; nine years are enough to find every leap day; the errors of parsing.
  \<^item> History: the ring invariant, which records are kept, independence of Go's map order,
    idempotence, terminal records are final; which Running records are pruned.
  \<^item> Conditions: each axis as a function of the history, and \<open>Ready\<close> as their aggregate.
  \<^item> One pass: it returns, touches only its own key (so workers commute), reports the slots missed
    and the drift end to end, writes coherent conditions, forgets nothing it has observed, raises
    the failure alert that admission promises, counts a miss only when it is stored, requeues
    always, stays silent when nothing changes, accounts for itself once in the reconcile metrics,
    and cleans up after a deletion.
  \<^item> Many passes: the exported counter refines the abstract one across conflicts, errors, outdated
    reads, edits, restarts and crashes, and counts every increase once in a seamless run; every
    monitor the operator has written can be scraped.
  \<^item> Scrapes: no panic, no duplicate series, and the gauges say what the status says. The pod is
    labelled leader only if it was elected. A process that runs its manager is completely set up.

  \<^bold>\<open>Bounds and termination.\<close> No definition uses fuel. The ladders of \<open>NextSlot\<close> and
  \<open>noSlotInRange\<close> are functions with a termination proof on the distance to their end; the loop of
  \<open>MissedRunsSince\<close> ends at its rail of 100001 slots or at the present. The bisection of \<open>Prev\<close>
  is a partial function, and that it returns for every schedule is a theorem. Numbers that the code keeps
  in \<open>int32\<close> or \<open>int64\<close> are wrapped at every operation that can leave the range. \<open>float64\<close> is a
  rational rounded to 53 bits.

  \<^bold>\<open>Not modelled.\<close> \<open>zz_generated.deepcopy.go\<close> is generated: the model's values are immutable, so a
  copy is the value itself, and \<open>snapshotCondition\<close>, which copies by hand, is modelled as the value
  at that point of the pass. Log lines have no effect on the state. The work queue, the cache and
  the leader election are controller-runtime's; they appear as the sequence of visits, the answers
  to reads and the steps of the environment. The runs of \<open>Burn_Counter\<close> are those of one process at a
  time (leader election) on one monitor that is not deleted; a deletion is the subject of a property
  of its own. The correctness of the schedule functions is stated for the schedules of \<open>cron_slots\<close>,
  whose text says which zones are outside; totality and bounds hold for every answer of the library.
\<close>

section \<open>The reconciler and the collector\<close>

text \<open>
  The collector exports one series per condition type, so it relies on the reconciler never writing
  two conditions of one type. A monitor is \<open>managed\<close> if its status is the result of a run of the
  operator on an object that was created without one.
\<close>

definition managed :: "deps \<Rightarrow> CronJobMonitor \<Rightarrow> bool" where
  "managed D c \<longleftrightarrow>
     (\<exists>c0 es s. Conditions (Status c0) = [] \<and> stored s = c
        \<and> system_run D (monitor_key c) (fresh_system c0) es s)"

lemma conditions_written_distinct:
  assumes "condition_store M" and "distinct (map cType cs)"
  shows "conditions_written M cs cs' \<Longrightarrow> distinct (map cType cs')"
  unfolding conditions_written_def
  by (induction rule: rtranclp_induct) (use assms condition_store.distinct_set in auto)

definition exportable :: "system \<Rightarrow> bool" where
  "exportable s \<longleftrightarrow>
     (\<exists>m. memory s = GoMap m) \<and> distinct (map cType (Conditions (Status (stored s))))"

lemma stored_after_written:
  assumes "\<forall>c c'. Status_Update W c = Inr c' \<longrightarrow> c' = c"
  obtains "stored_after W p old = old" | c where "status_writes (pTrace p) = [c]" "stored_after W p old = c"
proof (cases "\<exists>c c'. status_writes (pTrace p) = [c] \<and> Status_Update W c = Inr c'")
  case True
  then show thesis using that(2) assms by (auto simp: stored_after_def)
next
  case False
  then show thesis using that(1) by (auto simp: stored_after_def split: list.split sum.split)
qed

text \<open>A read of a monitor leaves a map in memory, and what it stores is written through the helper.\<close>

lemma exportable_pass:
  assumes "shape D W r k m c q"
  shows "\<exists>m'. pBaseline q = GoMap m'"
  using shape_outcome [OF assms] by (auto simp: succeeded_def errored_def elim!: requeuedE)

lemma stored_after_distinct:
  assumes "condition_store (Meta D)" and "shape D W r k m old q"
    and "\<forall>c c'. Status_Update W c = Inr c' \<longrightarrow> c' = c" and "distinct (map cType (Conditions (Status old)))"
  shows "distinct (map cType (Conditions (Status (stored_after W q old))))"
  using assms(3)
proof (cases rule: stored_after_written [of W q old])
  case 1
  then show ?thesis using assms(4) by simp
next
  case (2 c)
  then have "keeps (Meta D) old c" using written_reported_and_kept [OF assms(1,2)] by simp
  then have "conditions_written (Meta D) (Conditions (Status old)) (Conditions (Status c))"
    by (simp add: keeps_def)
  from conditions_written_distinct [OF assms(1,4) this] show ?thesis using 2 by simp
qed

lemma exportable_step:
  assumes "condition_store (Meta D)" and "system_step D k s es s'" and "exportable s"
  shows "exportable s'"
  using assms(2,3)
proof (induction rule: system_step.induct)
  case (visit W s r p)
  obtain m where m: "memory s = GoMap m" using visit.prems by (auto simp: exportable_def)
  obtain q where q: "shape D W r k m (stored s) q" "p = q\<lparr>pTrace := pTrace q @ deferred r W k q\<rparr>"
    by (rule read_shape [OF assms(1) visit(1,3,4) m])
  show ?case
    using exportable_pass [OF q(1)] stored_after_distinct [OF assms(1) q(1) visit(2)] visit.prems
    by (simp add: exportable_def q(2))
next
  case (stale W c s r p)
  obtain m where m: "memory s = GoMap m" using stale.prems by (auto simp: exportable_def)
  obtain q where q: "shape D W r k m c q" "p = q\<lparr>pTrace := pTrace q @ deferred r W k q\<rparr>"
    by (rule read_shape [OF assms(1) stale(1,4,5) m])
  show ?case using exportable_pass [OF q(1)] stale.prems by (simp add: exportable_def q(2))
next
  case (unread W e r s p)
  then show ?case by (auto simp: exportable_def Reconcile_def reconcile_body_def)
next
  case (crash W s r p)
  obtain m where m: "memory s = GoMap m" using crash.prems by (auto simp: exportable_def)
  obtain q where q: "shape D W r k m (stored s) q" "p = q\<lparr>pTrace := pTrace q @ deferred r W k q\<rparr>"
    by (rule read_shape [OF assms(1) crash(1,3,4) m])
  show ?case
    using stored_after_distinct [OF assms(1) q(1) crash(2)] crash.prems
    by (simp add: exportable_def q(2))
qed (simp_all add: exportable_def)

lemma exportable_run:
  assumes "condition_store (Meta D)"
  shows "system_run D k s es s' \<Longrightarrow> exportable s \<Longrightarrow> exportable s'"
  by (induction rule: system_run.induct) (simp_all add: exportable_step [OF assms])

lemma managed_distinct:
  assumes "condition_store (Meta D)" and "managed D c"
  shows "distinct (map cType (Conditions (Status c)))"
proof -
  obtain c0 es s where "Conditions (Status c0) = []" and s: "stored s = c"
    and run: "system_run D (monitor_key c) (fresh_system c0) es s"
    using assms(2) by (auto simp: managed_def)
  then have "exportable s" using exportable_run [OF assms(1) run] by (simp add: exportable_def)
  with s show ?thesis by (simp add: exportable_def)
qed

text \<open>
  C16. What the operator writes can always be scraped: for any set of monitors each of which is the
  result of a run of the operator (visits with any answers of the API server, outdated reads, edits,
  restarts, crashes), and that the API server keeps under different names, a scrape succeeds and
  offers no series twice. Every condition the operator ever set is exported as its own gauge.
\<close>

theorem managed_monitors_can_be_scraped:
  assumes "condition_store (Meta D)" and "list_all (managed D) items"
    and "distinct (map monitor_key items)"
  shows "\<exists>ms. Collect NewCollector (CachedLister_List (Inr items)) = Some ms
     \<and> distinct (map series ms)
     \<and> gauge_values ''cronguard_condition'' ms
        = concat (map (\<lambda>c. map (\<lambda>x. conditionValue (cStatus x)) (Conditions (Status c))) items)"
proof -
  have "list_all (\<lambda>c. distinct (map cType (Conditions (Status c)))) items"
    using assms(2) managed_distinct [OF assms(1)] by (auto simp: list_all_iff)
  from cached.scrape_distinct [OF assms(3) this] obtain ms where
    ms: "Collect NewCollector (CachedLister_List (Inr items)) = Some ms" "distinct (map series ms)"
    by blast
  then have "ms = concat (map monitor_metrics items)"
    by (simp add: Collect_metrics CachedLister_List_def)
  then have "gauge_values ''cronguard_condition'' ms
      = concat (map (\<lambda>c. map (\<lambda>x. conditionValue (cStatus x)) (Conditions (Status c))) items)"
    by (simp add: gauge_values_concat comp_def gauge_values_conditions)
  with ms show ?thesis by blast
qed

text \<open>The sample monitor after its first visit, which found no CronJob.\<close>

theorem managed_monitors_can_be_scraped_witness:
  "\<exists>ms. Collect NewCollector (CachedLister_List (Inr [orphaned_monitor (sample_monitor None [])])) = Some ms
     \<and> distinct (map series ms)"
proof -
  let ?c = "sample_monitor None []" and ?k = "(''ns'', ''mon'')"
  let ?W = "sample_answers ?c (Inl NotFound)" and ?r = "sample_reconciler Map.empty"
  let ?s0 = "fresh_system ?c"
  obtain p where p: "Reconcile sample_deps ?W ?r ?k = Some p"
    "status_writes (pTrace p) = [orphaned_monitor ?c]"
    by (rule sample_not_found [of ?c None]) simp_all
  define s1 where "s1 = after_pass p (replace_stored (stored_after ?W p ?c) ?s0)"
  have "system_step sample_deps ?k ?s0 (measured_by p) s1"
    unfolding s1_def using system_step.visit [of ?W ?k ?s0 ?r sample_deps p] p(1) by simp
  then have "system_run sample_deps ?k ?s0 ([] @ measured_by p) s1"
    by (rule system_run.extend [OF system_run.start])
  moreover have "stored s1 = orphaned_monitor ?c" using p(2) by (simp add: s1_def stored_after_def)
  moreover have "monitor_key (orphaned_monitor ?c) = ?k" "Conditions (Status ?c) = []"
    by (simp_all add: monitor_key_def sample_monitor_def)
  ultimately have "managed sample_deps (orphaned_monitor ?c)" unfolding managed_def by metis
  then show ?thesis
    using managed_monitors_can_be_scraped [of sample_deps "[orphaned_monitor ?c]"] by auto
qed

section \<open>Where code and comments differ\<close>

text \<open>
  A baseline that is tracked already is raised when the monitor is read from a cache that still
  shows an earlier, longer streak: the misses up to it are then not counted again (the event
  \<open>StaleRead\<close> of the burn counter's specification).
\<close>

lemma stale_read_raises_baseline:
  "syncMissedBaseline k 5 (GoMap [k \<mapsto> 0]) = Some (GoMap [k \<mapsto> 5])"
  "commitMissed k 3 5 (GoMap [k \<mapsto> 5]) = Some (GoMap [k \<mapsto> 3], [])"
  by (simp_all add: syncMissedBaseline_def commitMissed_def)

text \<open>
  An early return marks the generation as observed, so the warning about an overriding schedule is
  not sent when the path that would send it is reached at the same generation.
\<close>

lemma mismatch_warning_lost:
  "mismatch_events r (setReconciledFalse M reason message cjm) cj e True = []"
  by (simp add: mismatch_events_def setReconciledFalse_def Let_def)

text \<open>Below the threshold a failed newest run is reported as a success.\<close>

lemma failed_run_reported_as_success:
  "axis (k8s_meta zero_time) (evaluateExecutionHealthy (k8s_meta zero_time)
     (sample_monitor None [sample_record ''a'' 10 ExecutionPhaseFailed])) ConditionExecutionHealthy
   = Some (ConditionTrue, ReasonRecentSuccess, [Lit ''last completed run succeeded''], 3)"
proof -
  have "execution_loop [sample_record ''a'' 10 ExecutionPhaseFailed] 0 False = (1, True)"
    by (simp add: to_int32_id)
  then show ?thesis
    by (simp add: evaluateExecutionHealthy_def sample_spec_def Let_def) (simp add: sample_monitor_def)
qed

text \<open>The path of the absent CronJob prunes too.\<close>

lemma absent_cronjob_prunes:
  "RecentExecutions (Status (fst (pruneOrphanedRunning
     (sample_monitor None [sample_record ''a'' 10 ExecutionPhaseRunning]) [] empty_CronJob
     (utc 4260211200)))) = []"
  by (simp add: prune_status orphaned_minute liveJobNames_def empty_CronJob_def utc_def
      sample_record_def Minute_def Second_def)

end
